(* ===== verification/Prelude.thy ===== *)
theory Prelude
  imports Complex_Main "HOL-Library.Multiset"
begin

text \<open>
  The vocabulary every component shares: exceptions as values, rows of a table as a list
  with the queries the repositories run on it (\<open>findOne\<close>, \<open>find\<close>, \<open>update\<close>, \<open>delete\<close>,
  \<open>upsert\<close>), and the list lemmas the component proofs use. The lemmas that describe a
  query by the rows it leaves are collected in \<open>row_simps\<close>.
\<close>

named_theorems row_simps

section \<open>Exceptions\<close>

text \<open>
  The exception classes the services throw. The text of a message is not modelled, since
  no code under \<open>src/\<close> branches on it; the class decides the status a caller sees. The
  codes of \<open>AppError\<close> are those of \<open>libs/common/src/dto/error/dto/error.ts\<close> the modelled
  code uses.
\<close>

datatype app_code =
    RELEASE_HAS_DEPENDENTS
  | RULE_VALIDATION_FAILED
  | RULE_FIELD_NOT_SUPPORTED
  | RULE_FIELD_ALREADY_EXISTS
  | RULE_FIELD_NOT_FOUND

datatype exn =
    NotFoundException
  | ConflictException
  | BadRequestException
  | ForbiddenException
  | UnauthorizedException
  | AppError app_code nat
  | VaultOperationError
  | ErrorException

type_synonym 'a result = "exn + 'a"

definition is_ok :: "'a result \<Rightarrow> bool" where
  "is_ok r = (case r of Inl _ \<Rightarrow> False | Inr _ \<Rightarrow> True)"

lemma is_ok_simps [simp]: "is_ok (Inr x)" "\<not> is_ok (Inl e)"
  by (simp_all add: is_ok_def)

definition bind_r :: "'a result \<Rightarrow> ('a \<Rightarrow> 'b result) \<Rightarrow> 'b result" where
  "bind_r r f = (case r of Inl e \<Rightarrow> Inl e | Inr x \<Rightarrow> f x)"

lemma bind_r_simps [simp]: "bind_r (Inl e) f = Inl e" "bind_r (Inr x) f = f x"
  by (simp_all add: bind_r_def)

lemma bind_r_cong [fundef_cong]: "r = r' \<Longrightarrow> (\<And>x. r' = Inr x \<Longrightarrow> f x = g x) \<Longrightarrow> bind_r r f = bind_r r' g"
  by (auto simp: bind_r_def split: sum.splits)

section \<open>Rows of a table\<close>

text \<open>
  A table is the list of its rows in the order they were inserted. \<open>update_where\<close> is
  \<open>Repository.update(criteria, patch)\<close>, \<open>affected\<close> the count it reports, \<open>delete_where\<close>
  is \<open>Repository.delete(criteria)\<close> and \<open>upsert_row\<close> is an \<open>INSERT ... ON CONFLICT DO
  UPDATE\<close>: a row that conflicts is patched, otherwise the new one is appended.
\<close>

definition update_where :: "('r \<Rightarrow> bool) \<Rightarrow> ('r \<Rightarrow> 'r) \<Rightarrow> 'r list \<Rightarrow> 'r list" where
  "update_where P f rows = map (\<lambda>r. if P r then f r else r) rows"

definition affected :: "('r \<Rightarrow> bool) \<Rightarrow> 'r list \<Rightarrow> nat" where
  "affected P rows = length (filter P rows)"

definition delete_where :: "('r \<Rightarrow> bool) \<Rightarrow> 'r list \<Rightarrow> 'r list" where
  "delete_where P rows = filter (\<lambda>r. \<not> P r) rows"

definition upsert_row :: "('r \<Rightarrow> bool) \<Rightarrow> ('r \<Rightarrow> 'r) \<Rightarrow> 'r \<Rightarrow> 'r list \<Rightarrow> 'r list" where
  "upsert_row P f new rows = (if \<exists>r\<in>set rows. P r then update_where P f rows else rows @ [new])"

lemma update_where_Nil [simp]: "update_where P f [] = []"
  by (simp add: update_where_def)

lemma update_where_Cons [simp]:
  "update_where P f (r # rows) = (if P r then f r else r) # update_where P f rows"
  by (simp add: update_where_def)

lemma update_where_append [simp]:
  "update_where P f (xs @ ys) = update_where P f xs @ update_where P f ys"
  by (simp add: update_where_def)

lemma length_update_where [simp]: "length (update_where P f rows) = length rows"
  by (simp add: update_where_def)

lemma set_update_where [row_simps]:
  "set (update_where P f rows) = (\<lambda>r. if P r then f r else r) ` set rows"
  by (simp add: update_where_def)

lemma map_update_where:
  "(\<And>r. r \<in> set rows \<Longrightarrow> P r \<Longrightarrow> g (f r) = g r) \<Longrightarrow> map g (update_where P f rows) = map g rows"
  by (simp add: update_where_def)

lemma filter_update_where:
  "(\<And>r. P r \<Longrightarrow> Q (f r) = Q r) \<Longrightarrow>
   filter Q (update_where P f rows) = update_where P f (filter Q rows)"
  by (induction rows) auto

lemma update_where_none: "(\<And>r. r \<in> set rows \<Longrightarrow> \<not> P r) \<Longrightarrow> update_where P f rows = rows"
  by (induction rows) auto

lemma update_where_noop:
  "(\<And>r. r \<in> set rows \<Longrightarrow> P r \<Longrightarrow> f r = r) \<Longrightarrow> update_where P f rows = rows"
  by (induction rows) auto

lemma filter_not_update_where:
  "(\<And>r. P r \<Longrightarrow> P (f r)) \<Longrightarrow> filter (\<lambda>x. \<not> P x) (update_where P f rows) = filter (\<lambda>x. \<not> P x) rows"
  by (induction rows) auto

lemma update_where_compose:
  "(\<And>r. f (f r) = f r) \<Longrightarrow> (\<And>r. P (f r) = P r) \<Longrightarrow>
   update_where P f (update_where Q f rows) = update_where (\<lambda>r. P r \<or> Q r) f rows"
  by (induction rows) auto

lemma update_where_cong:
  "(\<And>r. r \<in> set rows \<Longrightarrow> P r = Q r) \<Longrightarrow> update_where P f rows = update_where Q f rows"
  by (induction rows) auto

lemma update_where_false [simp]: "update_where (\<lambda>r. False) f rows = rows"
  by (induction rows) auto

lemma list_all2_update_where:
  "list_all2 P xs ys \<Longrightarrow> (\<And>x y. x \<in> set xs \<Longrightarrow> P x y \<Longrightarrow> Q x (if C y then f y else y)) \<Longrightarrow>
   list_all2 Q xs (update_where C f ys)"
proof (induction xs ys rule: list_all2_induct)
  case (Cons x xs y ys)
  have "Q x (if C y then f y else y)" by (rule Cons.prems) (simp_all add: Cons.hyps)
  with Cons show ?case by auto
qed simp

lemma find_update_where:
  "(\<And>r. P r \<Longrightarrow> Q (f r) = Q r) \<Longrightarrow>
   List.find Q (update_where P f rows) =
     map_option (\<lambda>r. if P r then f r else r) (List.find Q rows)"
  by (induction rows) auto

lemma set_delete_where [row_simps]: "set (delete_where P rows) = {r \<in> set rows. \<not> P r}"
  by (auto simp: delete_where_def)

lemma affected_pos: "0 < affected P rows \<longleftrightarrow> (\<exists>r\<in>set rows. P r)"
  by (auto simp: affected_def filter_empty_conv)

lemma find_Some_iff_set: "(\<exists>r. List.find P rows = Some r) \<longleftrightarrow> (\<exists>r\<in>set rows. P r)"
  by (induction rows) auto

lemma find_SomeD: "List.find P rows = Some r \<Longrightarrow> r \<in> set rows \<and> P r"
  by (induction rows) (auto split: if_splits)

lemma find_NoneD: "List.find P rows = None \<Longrightarrow> r \<in> set rows \<Longrightarrow> \<not> P r"
  by (induction rows) (auto split: if_splits)

lemma find_None_conv: "List.find P rows = None \<longleftrightarrow> (\<forall>r\<in>set rows. \<not> P r)"
  by (induction rows) auto

lemma find_cong_set:
  "(\<And>r. r \<in> set rows \<Longrightarrow> P r = Q r) \<Longrightarrow> List.find P rows = List.find Q rows"
  by (induction rows) auto

lemma find_unique:
  "r \<in> set rows \<Longrightarrow> P r \<Longrightarrow> (\<And>r'. r' \<in> set rows \<Longrightarrow> P r' \<Longrightarrow> r' = r) \<Longrightarrow> List.find P rows = Some r"
proof -
  assume r: "r \<in> set rows" "P r" and u: "\<And>r'. r' \<in> set rows \<Longrightarrow> P r' \<Longrightarrow> r' = r"
  then obtain r' where "List.find P rows = Some r'"
    using find_Some_iff_set [of P rows] by blast
  with u show ?thesis using find_SomeD by metis
qed

lemma find_by_key:
  "distinct (map key rows) \<Longrightarrow> r \<in> set rows \<Longrightarrow> List.find (\<lambda>x. key x = key r) rows = Some r"
  by (rule find_unique) (auto dest: inj_onD simp: distinct_map)

lemma distinct_key_inj:
  "distinct (map key rows) \<Longrightarrow> r \<in> set rows \<Longrightarrow> r' \<in> set rows \<Longrightarrow> key r = key r' \<Longrightarrow> r = r'"
  by (metis distinct_map inj_onD)

text \<open>
  An upsert keyed on the columns that decide the conflict keeps the key unique. This is
  what a unique index promises, for the statements that go through it.
\<close>

lemma distinct_upsert_row:
  assumes "distinct (map key rows)"
    and "\<And>r. P r \<longleftrightarrow> key r = key new" and "\<And>r. P r \<Longrightarrow> key (f r) = key r"
  shows "distinct (map key (upsert_row P f new rows))"
proof (cases "\<exists>r\<in>set rows. P r")
  case True
  moreover have "map key (update_where P f rows) = map key rows"
    by (rule map_update_where) (simp add: assms(3))
  ultimately show ?thesis using assms(1) by (simp add: upsert_row_def)
next
  case False
  with assms show ?thesis by (auto simp: upsert_row_def)
qed

lemma set_upsert_row_keep:
  "r \<in> set rows \<Longrightarrow> \<not> P r \<Longrightarrow> r \<in> set (upsert_row P f new rows)"
  by (auto simp: upsert_row_def set_update_where image_iff)

lemma upsert_row_result:
  "(\<exists>r\<in>set rows. P r \<and> f r \<in> set (upsert_row P f new rows)) \<or> new \<in> set (upsert_row P f new rows)"
  by (auto simp: upsert_row_def set_update_where image_iff)

section \<open>Lists\<close>

text \<open>The values of \<open>[...new Set(xs)]\<close>: first occurrences, in order.\<close>

definition js_unique :: "'a list \<Rightarrow> 'a list" where
  "js_unique xs = rev (remdups (rev xs))"

lemma set_js_unique [simp]: "set (js_unique xs) = set xs"
  by (simp add: js_unique_def)

lemma distinct_js_unique [simp]: "distinct (js_unique xs)"
  by (simp add: js_unique_def)

lemma length_js_unique: "length (js_unique xs) = card (set xs)"
  by (simp add: js_unique_def length_remdups_card_conv)

lemma js_unique_distinct: "distinct xs \<Longrightarrow> js_unique xs = xs"
  by (simp add: js_unique_def distinct_remdups_id)

lemma js_unique_Nil [simp]: "js_unique [] = []"
  by (simp add: js_unique_def)

text \<open>\<open>Map.set\<close> on the insertion-ordered list of entries of a \<open>Map\<close> or an object.\<close>

fun alist_put :: "'k \<Rightarrow> 'v \<Rightarrow> ('k \<times> 'v) list \<Rightarrow> ('k \<times> 'v) list" where
  "alist_put k v [] = [(k, v)]"
| "alist_put k v ((k', v') # kvs) = (if k' = k then (k, v) # kvs else (k', v') # alist_put k v kvs)"

definition alist_del :: "'k \<Rightarrow> ('k \<times> 'v) list \<Rightarrow> ('k \<times> 'v) list" where
  "alist_del k kvs = filter (\<lambda>kv. fst kv \<noteq> k) kvs"

lemma map_of_alist_put [simp]: "map_of (alist_put k v kvs) = (map_of kvs)(k \<mapsto> v)"
  by (induction kvs) auto

lemma map_of_alist_del [simp]: "map_of (alist_del k kvs) = (map_of kvs)(k := None)"
  by (induction kvs) (auto simp: alist_del_def)

lemma keys_alist_put: "set (map fst (alist_put k v kvs)) = insert k (set (map fst kvs))"
  by (induction k v kvs rule: alist_put.induct) (auto split: if_splits)

lemma set_alist_put: "x \<in> set (alist_put k v m) \<Longrightarrow> x = (k, v) \<or> x \<in> set m"
  by (induction k v m rule: alist_put.induct) (auto split: if_splits)

lemma distinct_alist_put: "distinct (map fst kvs) \<Longrightarrow> distinct (map fst (alist_put k v kvs))"
proof (induction k v kvs rule: alist_put.induct)
  case (2 k v k' v' kvs)
  then show ?case
    using keys_alist_put [of k v kvs] by auto
qed simp

lemma alist_put_not_Nil [simp]: "alist_put k v kvs \<noteq> []"
  by (cases "(k, v, kvs)" rule: alist_put.cases) auto

lemma count_filter_le: "length (filter P xs) \<le> length xs"
  by simp

end
