(* ===== verification/Js_Values.thy ===== *)
theory Js_Values
  imports Prelude
begin

text \<open>
  The JavaScript values the services compute with: numbers (\<open>Number(s)\<close>, \<open>parseInt\<close>,
  comparison and division with \<open>NaN\<close> and the infinities), strings (\<open>split\<close>, \<open>trim\<close>,
  \<open>startsWith\<close>, decimal printing) and the tree values that JSON and YAML documents parse
  to. A finite number is an exact rational: rounding to IEEE doubles is not modelled.
  Strings are lists of bytes, so a code point beyond ASCII is several characters.
\<close>

section \<open>Numbers\<close>

datatype jsnum = NaN | PosInf | NegInf | Fin rat

fun js_is_finite :: "jsnum \<Rightarrow> bool" where
  "js_is_finite (Fin _) = True"
| "js_is_finite _ = False"

fun js_add :: "jsnum \<Rightarrow> jsnum \<Rightarrow> jsnum" where
  "js_add (Fin a) (Fin b) = Fin (a + b)"
| "js_add NaN _ = NaN"
| "js_add _ NaN = NaN"
| "js_add PosInf NegInf = NaN"
| "js_add NegInf PosInf = NaN"
| "js_add PosInf _ = PosInf"
| "js_add _ PosInf = PosInf"
| "js_add NegInf _ = NegInf"
| "js_add _ NegInf = NegInf"

text \<open>\<open>a / b\<close> for finite operands: division by zero gives an infinity or \<open>NaN\<close>.\<close>

definition js_div_fin :: "rat \<Rightarrow> rat \<Rightarrow> jsnum" where
  "js_div_fin a b =
     (if b \<noteq> 0 then Fin (a / b) else if 0 < a then PosInf else if a < 0 then NegInf else NaN)"

text \<open>\<open>n * 100\<close>.\<close>

fun js_times_100 :: "jsnum \<Rightarrow> jsnum" where
  "js_times_100 (Fin a) = Fin (a * 100)"
| "js_times_100 n = n"

text \<open>\<open>a - b\<close> and \<open>a / b\<close> for operands that are finite or \<open>NaN\<close>, as \<open>parseInt\<close> returns them.\<close>

fun js_sub :: "jsnum \<Rightarrow> jsnum \<Rightarrow> jsnum" where
  "js_sub (Fin a) (Fin b) = Fin (a - b)"
| "js_sub _ _ = NaN"

fun js_div :: "jsnum \<Rightarrow> jsnum \<Rightarrow> jsnum" where
  "js_div (Fin a) (Fin b) = js_div_fin a b"
| "js_div _ _ = NaN"

text \<open>\<open>a <= b\<close>: false as soon as one operand is \<open>NaN\<close>.\<close>

fun js_le :: "jsnum \<Rightarrow> jsnum \<Rightarrow> bool" where
  "js_le NaN _ = False"
| "js_le _ NaN = False"
| "js_le NegInf _ = True"
| "js_le _ PosInf = True"
| "js_le PosInf _ = False"
| "js_le _ NegInf = False"
| "js_le (Fin a) (Fin b) = (a \<le> b)"

lemma js_le_trans: "js_le a b \<Longrightarrow> js_le b c \<Longrightarrow> js_le a c"
  by (cases a; cases b; cases c) auto

section \<open>Strings\<close>

definition is_digit :: "char \<Rightarrow> bool" where
  "is_digit c \<longleftrightarrow> 48 \<le> (of_char c :: nat) \<and> (of_char c :: nat) \<le> 57"

definition digit_val :: "char \<Rightarrow> nat" where
  "digit_val c = of_char c - 48"

definition digit_char :: "nat \<Rightarrow> char" where
  "digit_char d = char_of (48 + d)"

lemma digit_char_val [simp]: "d < 10 \<Longrightarrow> digit_val (digit_char d) = d"
  by (simp add: digit_val_def digit_char_def)

lemma is_digit_char [simp]: "d < 10 \<Longrightarrow> is_digit (digit_char d)"
  by (simp add: is_digit_def digit_char_def)

definition nat_of_digits :: "string \<Rightarrow> nat" where
  "nat_of_digits s = foldl (\<lambda>n c. 10 * n + digit_val c) 0 s"

lemma nat_of_digits_snoc [simp]: "nat_of_digits (s @ [c]) = 10 * nat_of_digits s + digit_val c"
  by (simp add: nat_of_digits_def)

lemma nat_of_digits_Nil [simp]: "nat_of_digits [] = 0"
  by (simp add: nat_of_digits_def)

text \<open>The decimal text of a natural number, as a template literal prints it.\<close>

fun show_nat :: "nat \<Rightarrow> string" where
  "show_nat n = (if n < 10 then [digit_char n] else show_nat (n div 10) @ [digit_char (n mod 10)])"

declare show_nat.simps [simp del]

lemma nat_of_digits_show_nat [simp]: "nat_of_digits (show_nat n) = n"
proof (induction n rule: show_nat.induct)
  case (1 n)
  have "n < 10 \<Longrightarrow> nat_of_digits [digit_char n] = n"
    using nat_of_digits_snoc [of "[]" "digit_char n"] by simp
  with 1 show ?case by (subst show_nat.simps) auto
qed

lemma show_nat_digits: "\<forall>c\<in>set (show_nat n). is_digit c"
proof (induction n rule: show_nat.induct)
  case (1 n)
  then show ?case by (subst show_nat.simps) auto
qed

lemma show_nat_not_Nil [simp]: "show_nat n \<noteq> []"
  by (subst show_nat.simps) simp

lemma show_nat_inject [simp]: "show_nat m = show_nat n \<longleftrightarrow> m = n"
  by (metis nat_of_digits_show_nat)

definition is_ws :: "char \<Rightarrow> bool" where
  "is_ws c \<longleftrightarrow> c \<in> {CHR '' '', CHR 0x09, CHR 0x0A, CHR 0x0B, CHR 0x0C, CHR 0x0D}"

definition js_trim :: "string \<Rightarrow> string" where
  "js_trim s = rev (dropWhile is_ws (rev (dropWhile is_ws s)))"

lemma dropWhile_none: "(\<forall>c\<in>set s. \<not> P c) \<Longrightarrow> dropWhile P s = s"
  by (cases s) auto

lemma is_digit_not_ws: "is_digit c \<Longrightarrow> \<not> is_ws c"
  by (auto simp: is_ws_def is_digit_def)

lemma js_trim_digits: "\<forall>c\<in>set s. is_digit c \<Longrightarrow> js_trim s = s"
  by (auto simp: js_trim_def dropWhile_none is_digit_not_ws)

definition starts_with :: "string \<Rightarrow> string \<Rightarrow> bool" where
  "starts_with p s \<longleftrightarrow> take (length p) s = p"

lemma starts_with_append [simp]: "starts_with p (p @ s)"
  by (simp add: starts_with_def)

lemma starts_with_iff: "starts_with p s \<longleftrightarrow> (\<exists>r. s = p @ r)"
  by (metis append_take_drop_id starts_with_append starts_with_def)

text \<open>\<open>s.split(d)\<close> for a one-character separator, and \<open>parts.join(d)\<close>.\<close>

fun split_char :: "char \<Rightarrow> string \<Rightarrow> string list" where
  "split_char d [] = [[]]"
| "split_char d (c # cs) =
     (if c = d then [] # split_char d cs
      else (case split_char d cs of [] \<Rightarrow> [[c]] | p # ps \<Rightarrow> (c # p) # ps))"

fun join_char :: "char \<Rightarrow> string list \<Rightarrow> string" where
  "join_char d [] = []"
| "join_char d [p] = p"
| "join_char d (p # ps) = p @ d # join_char d ps"

lemma split_char_not_Nil [simp]: "split_char d s \<noteq> []"
  by (cases s) (auto split: list.splits)

lemma split_char_plain: "d \<notin> set p \<Longrightarrow> split_char d p = [p]"
  by (induction p) auto

lemma split_char_append: "d \<notin> set p \<Longrightarrow> split_char d (p @ d # s) = p # split_char d s"
  by (induction p) auto

lemma split_join_char: "ps \<noteq> [] \<Longrightarrow> \<forall>p\<in>set ps. d \<notin> set p \<Longrightarrow> split_char d (join_char d ps) = ps"
  by (induction d ps rule: join_char.induct) (auto simp: split_char_plain split_char_append)

section \<open>Number(s) and parseInt(s, 10)\<close>

text \<open>
  \<open>Number(s)\<close> trims the string, reads the empty string as 0 and otherwise accepts an
  optionally signed decimal literal or \<open>Infinity\<close>, or an unsigned hexadecimal, octal or
  binary literal; anything else is \<open>NaN\<close>.
\<close>

definition pow10 :: "nat \<Rightarrow> rat" where
  "pow10 k = 10 ^ k"

definition decimal_value :: "string \<Rightarrow> string \<Rightarrow> rat" where
  "decimal_value ip fp = of_nat (nat_of_digits (ip @ fp)) / pow10 (length fp)"

definition scale10 :: "rat \<Rightarrow> string \<Rightarrow> rat option" where
  "scale10 m ex =
     (let neg = (ex \<noteq> [] \<and> hd ex = CHR ''-'');
          ds = (if ex \<noteq> [] \<and> hd ex \<in> set ''+-'' then tl ex else ex)
      in if ds = [] \<or> \<not> list_all is_digit ds then None
         else Some (if neg then m / pow10 (nat_of_digits ds) else m * pow10 (nat_of_digits ds)))"

definition read_decimal :: "string \<Rightarrow> rat option" where
  "read_decimal s =
     (let ip = takeWhile is_digit s; r = dropWhile is_digit s;
          (fp, r2) = (if r \<noteq> [] \<and> hd r = CHR ''.''
                      then (takeWhile is_digit (tl r), dropWhile is_digit (tl r)) else ([], r))
      in if ip = [] \<and> fp = [] then None
         else case r2 of
             [] \<Rightarrow> Some (decimal_value ip fp)
           | e # ex \<Rightarrow>
               if e = CHR ''e'' \<or> e = CHR ''E'' then scale10 (decimal_value ip fp) ex else None)"

definition hex_val :: "char \<Rightarrow> nat option" where
  "hex_val c =
     (if is_digit c then Some (digit_val c)
      else if 97 \<le> (of_char c :: nat) \<and> (of_char c :: nat) \<le> 102 then Some (of_char c - 87)
      else if 65 \<le> (of_char c :: nat) \<and> (of_char c :: nat) \<le> 70 then Some (of_char c - 55)
      else None)"

fun read_radix :: "nat \<Rightarrow> nat \<Rightarrow> string \<Rightarrow> nat option" where
  "read_radix b n [] = Some n"
| "read_radix b n (c # cs) =
     (case hex_val c of Some d \<Rightarrow> if d < b then read_radix b (b * n + d) cs else None | None \<Rightarrow> None)"

definition of_read :: "rat option \<Rightarrow> jsnum" where
  "of_read r = (case r of Some q \<Rightarrow> Fin q | None \<Rightarrow> NaN)"

definition js_Number :: "string \<Rightarrow> jsnum" where
  "js_Number s0 =
     (let s = js_trim s0 in
      case s of
        [] \<Rightarrow> Fin 0
      | c # r \<Rightarrow>
          if c = CHR ''0'' \<and> r \<noteq> [] \<and> hd r \<in> set ''xXoObB'' then
            (let b = (if hd r \<in> set ''xX'' then 16 else if hd r \<in> set ''oO'' then 8 else 2) in
             if tl r = [] then NaN else of_read (map_option of_nat (read_radix b 0 (tl r))))
          else if c = CHR ''-'' then
            (if r = ''Infinity'' then NegInf else of_read (map_option uminus (read_decimal r)))
          else if c = CHR ''+'' then (if r = ''Infinity'' then PosInf else of_read (read_decimal r))
          else if s = ''Infinity'' then PosInf
          else of_read (read_decimal s))"

text \<open>\<open>isNaN(+value)\<close>.\<close>

definition js_isNaN :: "string \<Rightarrow> bool" where
  "js_isNaN s \<longleftrightarrow> js_Number s = NaN"

definition js_parseInt :: "string \<Rightarrow> jsnum" where
  "js_parseInt s0 =
     (let s = dropWhile is_ws s0;
          neg = (s \<noteq> [] \<and> hd s = CHR ''-'');
          r = (if s \<noteq> [] \<and> hd s \<in> set ''+-'' then tl s else s);
          ds = takeWhile is_digit r
      in if ds = [] then NaN
         else Fin (if neg then - of_nat (nat_of_digits ds) else of_nat (nat_of_digits ds)))"

lemma show_nat_no_sign: "\<exists>c r. show_nat n = c # r \<and> is_digit c"
  using show_nat_digits [of n] by (cases "show_nat n") auto

lemma takeWhile_digits: "\<forall>c\<in>set s. P c \<Longrightarrow> takeWhile P s = s"
  by (induction s) auto

lemma dropWhile_digits: "\<forall>c\<in>set s. P c \<Longrightarrow> dropWhile P s = []"
  by (induction s) auto

lemma read_decimal_digits:
  assumes "s \<noteq> []" "\<forall>c\<in>set s. is_digit c"
  shows "read_decimal s = Some (of_nat (nat_of_digits s))"
  unfolding read_decimal_def Let_def takeWhile_digits [OF assms(2)] dropWhile_digits [OF assms(2)]
  using assms(1) by (simp add: decimal_value_def pow10_def)

lemma digit_char_cases:
  "is_digit c \<Longrightarrow> c \<noteq> CHR ''-'' \<and> c \<noteq> CHR ''+'' \<and> c \<noteq> CHR ''I'' \<and> c \<notin> set ''xXoObB''"
  by (auto simp: is_digit_def)

lemma js_Number_digits:
  assumes "s \<noteq> []" "\<forall>c\<in>set s. is_digit c"
  shows "js_Number s = Fin (of_nat (nat_of_digits s))"
proof -
  obtain c r where s: "s = c # r" using assms(1) by (cases s) auto
  have c: "is_digit c" using s assms(2) by simp
  have "r \<noteq> [] \<Longrightarrow> is_digit (hd r)" using s assms(2) by (cases r) auto
  then have "\<not> (r \<noteq> [] \<and> hd r \<in> set ''xXoObB'')" using digit_char_cases by blast
  moreover have "s \<noteq> ''Infinity''" using c s digit_char_cases by force
  ultimately show ?thesis
    using s digit_char_cases [OF c] js_trim_digits [OF assms(2)] read_decimal_digits [OF assms]
    by (auto simp: js_Number_def Let_def of_read_def)
qed

lemma js_Number_show_nat [simp]: "js_Number (show_nat n) = Fin (of_nat n)"
  using js_Number_digits [OF show_nat_not_Nil show_nat_digits] by simp

lemma js_parseInt_show_nat [simp]: "js_parseInt (show_nat n) = Fin (of_nat n)"
proof -
  obtain c r where s: "show_nat n = c # r" and c: "is_digit c" using show_nat_no_sign by blast
  have "dropWhile is_ws (show_nat n) = show_nat n" using s is_digit_not_ws [OF c] by simp
  moreover have "hd (show_nat n) \<notin> set ''+-''" "hd (show_nat n) \<noteq> CHR ''-''"
    using s digit_char_cases [OF c] by auto
  ultimately show ?thesis
    unfolding js_parseInt_def Let_def by (simp add: takeWhile_digits [OF show_nat_digits])
qed

lemma js_isNaN_show_nat [simp]: "\<not> js_isNaN (show_nat n)"
  by (simp add: js_isNaN_def)

section \<open>Trees: the values of JSON and YAML documents\<close>

datatype json =
    JUndef
  | JNull
  | JBool bool
  | JNum jsnum
  | JStr string
  | JArr "json list"
  | JObj "(string \<times> json) list"

text \<open>\<open>v == null\<close> and \<open>typeof v === 'object' && v !== null\<close>.\<close>

fun is_nullish :: "json \<Rightarrow> bool" where
  "is_nullish JUndef = True"
| "is_nullish JNull = True"
| "is_nullish _ = False"

fun is_object :: "json \<Rightarrow> bool" where
  "is_object (JArr _) = True"
| "is_object (JObj _) = True"
| "is_object _ = False"

text \<open>Truthiness of a value.\<close>

fun js_truthy :: "json \<Rightarrow> bool" where
  "js_truthy JUndef = False"
| "js_truthy JNull = False"
| "js_truthy (JBool b) = b"
| "js_truthy (JNum n) = (n \<noteq> NaN \<and> n \<noteq> Fin 0)"
| "js_truthy (JStr s) = (s \<noteq> [])"
| "js_truthy _ = True"

definition obj_get :: "(string \<times> json) list \<Rightarrow> string \<Rightarrow> json" where
  "obj_get o1 k = (case map_of o1 k of Some v \<Rightarrow> v | None \<Rightarrow> JUndef)"

lemma obj_get_put [simp]: "obj_get (alist_put k v o1) k' = (if k' = k then v else obj_get o1 k')"
  by (simp add: obj_get_def)

lemma obj_get_del [simp]: "obj_get (alist_del k o1) k' = (if k' = k then JUndef else obj_get o1 k')"
  by (simp add: obj_get_def)

lemma obj_get_Nil [simp]: "obj_get [] k = JUndef"
  by (simp add: obj_get_def)

type_synonym obj = "(string \<times> json) list"

text \<open>\<open>{...o, ...kvs}\<close> and \<open>Object.assign(o, kvs)\<close>: the later entries win.\<close>

definition put_all :: "obj \<Rightarrow> obj \<Rightarrow> obj" where
  "put_all kvs o1 = fold (\<lambda>kv. alist_put (fst kv) (snd kv)) kvs o1"

lemma put_all_lookup:
  assumes "(k, v) \<in> set kvs" "\<And>v'. (k, v') \<in> set kvs \<Longrightarrow> v' = v"
  shows "map_of (put_all kvs o1) k = Some v"
  using assms
proof (induction kvs rule: rev_induct)
  case (snoc kv kvs)
  have step: "put_all (kvs @ [kv]) o1 = alist_put (fst kv) (snd kv) (put_all kvs o1)" by (simp add: put_all_def)
  show ?case
  proof (cases "fst kv = k")
    case True
    then have "snd kv = v" using snoc.prems(2) [of "snd kv"] by (cases kv) auto
    then show ?thesis using True by (simp add: step)
  next
    case False
    then have "(k, v) \<in> set kvs" using snoc.prems(1) by auto
    moreover have "(k, v') \<in> set kvs \<Longrightarrow> v' = v" for v' by (rule snoc.prems(2)) simp
    ultimately have "map_of (put_all kvs o1) k = Some v" by (rule snoc.IH)
    then show ?thesis using False by (simp add: step)
  qed
qed simp

lemma put_all_append: "put_all (xs @ ys) o1 = put_all ys (put_all xs o1)"
  by (simp add: put_all_def)

lemma put_all_Cons: "put_all (x # xs) o1 = put_all xs (alist_put (fst x) (snd x) o1)"
  by (simp add: put_all_def)

lemma put_all_none: "k \<notin> set (map fst kvs) \<Longrightarrow> map_of (put_all kvs o1) k = map_of o1 k"
  by (induction kvs arbitrary: o1) (auto simp: put_all_def)

text \<open>
  A canonical array index, the property names that address an element: \<open>0\<close> or digits
  without a leading zero. The other properties of an array (\<open>length\<close>, and a named
  property somebody assigns to an array) are not modelled.
\<close>

definition js_index :: "string \<Rightarrow> nat option" where
  "js_index k =
     (if k \<noteq> [] \<and> list_all is_digit k \<and> (hd k = CHR ''0'' \<longrightarrow> tl k = []) then Some (nat_of_digits k) else None)"

fun js_member :: "json \<Rightarrow> string \<Rightarrow> json" where
  "js_member (JObj o1) k = obj_get o1 k"
| "js_member (JArr xs) k =
     (case js_index k of Some i \<Rightarrow> if i < length xs then xs ! i else JUndef | None \<Rightarrow> JUndef)"
| "js_member (JStr s) k =
     (case js_index k of Some i \<Rightarrow> if i < length s then JStr [s ! i] else JUndef | None \<Rightarrow> JUndef)"
| "js_member _ k = JUndef"

fun js_assign :: "json \<Rightarrow> string \<Rightarrow> json \<Rightarrow> json" where
  "js_assign (JObj o1) k v = JObj (alist_put k v o1)"
| "js_assign (JArr xs) k v =
     (case js_index k of
        Some i \<Rightarrow> JArr (if i < length xs then xs[i := v] else xs @ replicate (i - length xs) JUndef @ [v])
      | None \<Rightarrow> JArr xs)"
| "js_assign c k v = c"

fun js_delete :: "json \<Rightarrow> string \<Rightarrow> json" where
  "js_delete (JObj o1) k = JObj (alist_del k o1)"
| "js_delete (JArr xs) k =
     (case js_index k of Some i \<Rightarrow> JArr (if i < length xs then xs[i := JUndef] else xs) | None \<Rightarrow> JArr xs)"
| "js_delete c k = c"

lemma js_member_assign_same:
  "is_object c \<Longrightarrow> (\<forall>xs. c = JArr xs \<longrightarrow> js_index k \<noteq> None) \<Longrightarrow> js_member (js_assign c k v) k = v"
  by (cases c) (auto split: option.splits simp: nth_append)

lemma is_object_assign [simp]: "is_object (js_assign c k v) = is_object c"
  by (cases c) (auto split: option.splits)

text \<open>
  \<open>Number(v)\<close> of a tree: an array is read as the string of its elements joined by commas, so
  only an array of at most one element can be a number.
\<close>

fun js_to_Number :: "json \<Rightarrow> jsnum" where
  "js_to_Number JUndef = NaN"
| "js_to_Number JNull = Fin 0"
| "js_to_Number (JBool b) = (if b then Fin 1 else Fin 0)"
| "js_to_Number (JNum n) = n"
| "js_to_Number (JStr s) = js_Number s"
| "js_to_Number (JArr []) = Fin 0"
| "js_to_Number (JArr [JUndef]) = Fin 0"
| "js_to_Number (JArr [JBool b]) = NaN"
| "js_to_Number (JArr [v]) = js_to_Number v"
| "js_to_Number (JArr (v # w # vs)) = NaN"
| "js_to_Number (JObj o1) = NaN"

end
