(* ===== verification/Permissions.thy ===== *)
theory Permissions
  imports Js_Values
begin

text \<open>
  Role-based permissions: the API roles (\<open>permissions/constants/roles.enum.ts\<close>), the checks on
  the roles of a decoded token (\<open>permissions.service.ts\<close>) and the guard in front of the
  handlers (\<open>permissions.guard.ts\<close>). \<open>JwtService.decode\<close> is a parameter: it returns the payload
  or nothing, or throws. The environment variable \<open>ENABLE_PERMISSIONS\<close> is an argument.
\<close>

section \<open>Roles\<close>

datatype ApiRole =
    CREATE_PROJECT
  | VIEW_PROJECT
  | UPDATE_PROJECT
  | DELETE_PROJECT
  | LIST_PROJECTS
  | CREATE_RELEASE
  | VIEW_RELEASE
  | UPDATE_RELEASE
  | EDIT_RELEASED_RELEASE
  | DELETE_RELEASE
  | PUSH_RELEASE
  | PUBLISH_RELEASE
  | LIST_RELEASES
  | UPLOAD_ARTIFACT
  | DOWNLOAD_ARTIFACT
  | DELETE_ARTIFACT
  | VIEW_ARTIFACT
  | LIST_ARTIFACTS
  | DEPLOY_DEV
  | DEPLOY_STAGING
  | DEPLOY_PRODUCTION
  | VIEW_DISCOVERY
  | MANAGE_DISCOVERY
  | LINK_PROJECT_DEVICE_TYPE
  | VIEW_OFFERING
  | CREATE_OFFERING
  | UPDATE_OFFERING
  | DELETE_OFFERING
  | VIEW_USER
  | MANAGE_USERS
  | VIEW_ANALYTICS
  | VIEW_LOGS
  | VIEW_METRICS
  | MANAGE_CONFIG
  | VIEW_CONFIG
  | CREATE_POLICY
  | VIEW_POLICY
  | UPDATE_POLICY
  | DELETE_POLICY
  | LIST_POLICIES
  | CREATE_RESTRICTION
  | VIEW_RESTRICTION
  | UPDATE_RESTRICTION
  | DELETE_RESTRICTION
  | LIST_RESTRICTIONS
  | CREATE_SBOM_SCAN
  | VIEW_SBOM_SCAN
  | DELETE_SBOM_SCAN
  | RETRY_SBOM_SCAN
  | VIEW_CONFIG_REVISION
  | MANAGE_CONFIG_REVISION
  | MANAGE_CONFIG_GROUP
  | VIEW_CONFIG_MAP
  | MANAGE_CONFIG_MAP
  | PERMISSIONS_ENABLED

primrec api_role_value :: "ApiRole \<Rightarrow> string" where
  "api_role_value CREATE_PROJECT = ''create-project''"
| "api_role_value VIEW_PROJECT = ''view-project''"
| "api_role_value UPDATE_PROJECT = ''update-project''"
| "api_role_value DELETE_PROJECT = ''delete-project''"
| "api_role_value LIST_PROJECTS = ''list-projects''"
| "api_role_value CREATE_RELEASE = ''create-release''"
| "api_role_value VIEW_RELEASE = ''view-release''"
| "api_role_value UPDATE_RELEASE = ''update-release''"
| "api_role_value EDIT_RELEASED_RELEASE = ''edit-released-release''"
| "api_role_value DELETE_RELEASE = ''delete-release''"
| "api_role_value PUSH_RELEASE = ''push-release''"
| "api_role_value PUBLISH_RELEASE = ''publish-release''"
| "api_role_value LIST_RELEASES = ''list-releases''"
| "api_role_value UPLOAD_ARTIFACT = ''upload-artifact''"
| "api_role_value DOWNLOAD_ARTIFACT = ''download-artifact''"
| "api_role_value DELETE_ARTIFACT = ''delete-artifact''"
| "api_role_value VIEW_ARTIFACT = ''view-artifact''"
| "api_role_value LIST_ARTIFACTS = ''list-artifacts''"
| "api_role_value DEPLOY_DEV = ''deploy-dev''"
| "api_role_value DEPLOY_STAGING = ''deploy-staging''"
| "api_role_value DEPLOY_PRODUCTION = ''deploy-production''"
| "api_role_value VIEW_DISCOVERY = ''view-discovery''"
| "api_role_value MANAGE_DISCOVERY = ''manage-discovery''"
| "api_role_value LINK_PROJECT_DEVICE_TYPE = ''link-project-device-type''"
| "api_role_value VIEW_OFFERING = ''view-offering''"
| "api_role_value CREATE_OFFERING = ''create-offering''"
| "api_role_value UPDATE_OFFERING = ''update-offering''"
| "api_role_value DELETE_OFFERING = ''delete-offering''"
| "api_role_value VIEW_USER = ''view-user''"
| "api_role_value MANAGE_USERS = ''manage-users''"
| "api_role_value VIEW_ANALYTICS = ''view-analytics''"
| "api_role_value VIEW_LOGS = ''view-logs''"
| "api_role_value VIEW_METRICS = ''view-metrics''"
| "api_role_value MANAGE_CONFIG = ''manage-config''"
| "api_role_value VIEW_CONFIG = ''view-config''"
| "api_role_value CREATE_POLICY = ''create-policy''"
| "api_role_value VIEW_POLICY = ''view-policy''"
| "api_role_value UPDATE_POLICY = ''update-policy''"
| "api_role_value DELETE_POLICY = ''delete-policy''"
| "api_role_value LIST_POLICIES = ''list-policies''"
| "api_role_value CREATE_RESTRICTION = ''create-restriction''"
| "api_role_value VIEW_RESTRICTION = ''view-restriction''"
| "api_role_value UPDATE_RESTRICTION = ''update-restriction''"
| "api_role_value DELETE_RESTRICTION = ''delete-restriction''"
| "api_role_value LIST_RESTRICTIONS = ''list-restrictions''"
| "api_role_value CREATE_SBOM_SCAN = ''create-sbom-scan''"
| "api_role_value VIEW_SBOM_SCAN = ''view-sbom-scan''"
| "api_role_value DELETE_SBOM_SCAN = ''delete-sbom-scan''"
| "api_role_value RETRY_SBOM_SCAN = ''retry-sbom-scan''"
| "api_role_value VIEW_CONFIG_REVISION = ''view-config-revision''"
| "api_role_value MANAGE_CONFIG_REVISION = ''manage-config-revision''"
| "api_role_value MANAGE_CONFIG_GROUP = ''manage-config-group''"
| "api_role_value VIEW_CONFIG_MAP = ''view-config-map''"
| "api_role_value MANAGE_CONFIG_MAP = ''manage-config-map''"
| "api_role_value PERMISSIONS_ENABLED = ''permissions-enabled''"

definition PROJECT_TOKEN_ROLES :: "ApiRole list" where
  "PROJECT_TOKEN_ROLES =
     [VIEW_PROJECT,
      UPDATE_PROJECT,
      DELETE_PROJECT,
      LIST_PROJECTS,
      CREATE_RELEASE,
      VIEW_RELEASE,
      UPDATE_RELEASE,
      EDIT_RELEASED_RELEASE,
      DELETE_RELEASE,
      PUBLISH_RELEASE,
      LIST_RELEASES,
      UPLOAD_ARTIFACT,
      DOWNLOAD_ARTIFACT,
      DELETE_ARTIFACT,
      VIEW_ARTIFACT,
      LIST_ARTIFACTS]"

section \<open>The service\<close>

text \<open>
  The claims of the token the checks read; the registered claims (\<open>exp\<close>, \<open>iss\<close>, ...) no code
  under \<open>src/\<close> looks at are left out. \<open>resource_access\<close> maps a resource to its \<open>roles\<close>, which
  may be missing.
\<close>

record JwtPayload =
  preferred_username :: "string option"
  email :: "string option"
  sub :: "string option"
  resource_access :: "(string \<times> string list option) list option"

definition resourceName :: string where
  "resourceName = ''api''"

definition stampRole :: string where
  "stampRole = api_role_value PERMISSIONS_ENABLED"

definition extractApiRoles :: "JwtPayload \<Rightarrow> string list" where
  "extractApiRoles user =
     (case resource_access user of
        None \<Rightarrow> []
      | Some ra \<Rightarrow>
          (case map_of ra resourceName of
             None \<Rightarrow> []
           | Some roles \<Rightarrow> (case roles of None \<Rightarrow> [] | Some rs \<Rightarrow> rs)))"

definition isPermissionsEnabled :: "string option \<Rightarrow> JwtPayload \<Rightarrow> bool" where
  "isPermissionsEnabled env_var user =
     (if env_var = Some ''true'' \<or> env_var = Some ''1'' then True
      else stampRole \<in> set (extractApiRoles user))"

definition hasRole :: "JwtPayload \<Rightarrow> string \<Rightarrow> bool" where
  "hasRole user role = (role \<in> set (extractApiRoles user))"

definition hasAnyRole :: "JwtPayload \<Rightarrow> string list \<Rightarrow> bool" where
  "hasAnyRole user roles = list_ex (\<lambda>r. r \<in> set (extractApiRoles user)) roles"

definition hasAllRoles :: "JwtPayload \<Rightarrow> string list \<Rightarrow> bool" where
  "hasAllRoles user roles = list_all (\<lambda>r. r \<in> set (extractApiRoles user)) roles"

definition validatePermissions ::
  "string option \<Rightarrow> JwtPayload option \<Rightarrow> string list \<Rightarrow> bool \<Rightarrow> bool" where
  "validatePermissions env_var user requiredRoles requireAll =
     (case user of
        None \<Rightarrow> False
      | Some u \<Rightarrow>
          if \<not> isPermissionsEnabled env_var u then True
          else if requiredRoles = [] then True
          else if requireAll then hasAllRoles u requiredRoles else hasAnyRole u requiredRoles)"

section \<open>The guard\<close>

text \<open>
  The options of the decorator, and the parts of the HTTP request the guard reads. A header
  is missing (\<open>None\<close>) or a string, and the empty string is as good as missing.
\<close>

record RequirePermissionsOptions =
  opt_roles :: "string list"
  opt_requireAll :: bool

record http_request =
  rq_user :: "JwtPayload option"
  rq_project_token :: "string option"
  rq_authorization :: "string option"
  rq_Authorization :: "string option"

definition truthy :: "string option \<Rightarrow> bool" where
  "truthy s = (case s of None \<Rightarrow> False | Some x \<Rightarrow> x \<noteq> [])"

definition bearer_token :: "string \<Rightarrow> string" where
  "bearer_token h =
     (if starts_with ''Bearer '' h \<or> starts_with ''bearer '' h then drop 7 h else h)"

text \<open>\<open>every\<close> or \<open>some\<close> of the required roles is among the roles at hand.\<close>

definition roles_satisfied :: "bool \<Rightarrow> string list \<Rightarrow> string list \<Rightarrow> bool" where
  "roles_satisfied requireAll roles have1 =
     (if requireAll then list_all (\<lambda>r. r \<in> set have1) roles else list_ex (\<lambda>r. r \<in> set have1) roles)"

definition token_role_values :: "string list" where
  "token_role_values = map api_role_value PROJECT_TOKEN_ROLES"

definition request_user ::
  "(string \<Rightarrow> JwtPayload option result) \<Rightarrow> http_request \<Rightarrow> JwtPayload result" where
  "request_user decode rq =
     (case rq_user rq of
        Some u \<Rightarrow> Inr u
      | None \<Rightarrow>
          let authHeader = (if truthy (rq_authorization rq) then rq_authorization rq else rq_Authorization rq) in
          (case authHeader of
             None \<Rightarrow> Inl (if truthy (rq_project_token rq) then ForbiddenException else UnauthorizedException)
           | Some h \<Rightarrow>
               if h = [] then
                 Inl (if truthy (rq_project_token rq) then ForbiddenException else UnauthorizedException)
               else (case decode (bearer_token h) of Inr (Some u) \<Rightarrow> Inr u | _ \<Rightarrow> Inl UnauthorizedException)))"

definition canActivate ::
  "string option \<Rightarrow> (string \<Rightarrow> JwtPayload option result) \<Rightarrow> RequirePermissionsOptions option \<Rightarrow>
   http_request \<Rightarrow> bool result \<times> http_request" where
  "canActivate env_var decode options rq =
     (case options of
        None \<Rightarrow> (Inr True, rq)
      | Some o1 \<Rightarrow>
          let hasProjectToken = truthy (rq_project_token rq);
              roles = opt_roles o1; requireAll = opt_requireAll o1
          in if hasProjectToken \<and> roles_satisfied requireAll roles token_role_values then (Inr True, rq)
             else (case request_user decode rq of
                 Inl e \<Rightarrow> (Inl e, rq)
               | Inr user \<Rightarrow>
                   let rq' = rq\<lparr>rq_user := Some user\<rparr>;
                       hasPermission =
                         (if hasProjectToken
                          then roles_satisfied requireAll roles
                                 (js_unique (token_role_values @ extractApiRoles user))
                          else validatePermissions env_var (Some user) roles requireAll)
                   in if hasPermission then (Inr True, rq') else (Inl ForbiddenException, rq')))"

lemma roles_satisfied_iff:
  "roles_satisfied requireAll roles have1 \<longleftrightarrow>
     (if requireAll then set roles \<subseteq> set have1 else set roles \<inter> set have1 \<noteq> {})"
  by (auto simp: roles_satisfied_def list_all_iff list_ex_iff)

lemma roles_satisfied_mono:
  "roles_satisfied requireAll roles a \<Longrightarrow> set a \<subseteq> set b \<Longrightarrow> roles_satisfied requireAll roles b"
  by (auto simp: roles_satisfied_iff split: if_splits)

lemma hasAnyAll_satisfied:
  "(if requireAll then hasAllRoles u roles else hasAnyRole u roles) =
     roles_satisfied requireAll roles (extractApiRoles u)"
  by (simp add: roles_satisfied_def hasAllRoles_def hasAnyRole_def)

lemma validatePermissions_Some:
  "validatePermissions env_var (Some u) roles requireAll \<longleftrightarrow>
     \<not> isPermissionsEnabled env_var u \<or> roles = [] \<or> roles_satisfied requireAll roles (extractApiRoles u)"
  by (auto simp: validatePermissions_def roles_satisfied_def hasAllRoles_def hasAnyRole_def)

text \<open>
  The guard lets a request through exactly when the handler asks for nothing, or the
  roles of a project token suffice, or there is a user (set by an earlier guard or decoded
  from the authorization header) whose roles suffice: together with the token's roles when a
  token is present, and otherwise only if permissions are enabled for the user and the
  handler names a role. It never answers \<open>false\<close>: a refusal is an exception.
\<close>

theorem permissions_guard_spec:
  "fst (canActivate env_var decode options rq) = Inr b \<longleftrightarrow>
     b \<and> (case options of None \<Rightarrow> True
      | Some o1 \<Rightarrow>
          (truthy (rq_project_token rq) \<and>
             roles_satisfied (opt_requireAll o1) (opt_roles o1) token_role_values) \<or>
          (case request_user decode rq of Inl _ \<Rightarrow> False
           | Inr u \<Rightarrow>
               if truthy (rq_project_token rq)
               then roles_satisfied (opt_requireAll o1) (opt_roles o1) (token_role_values @ extractApiRoles u)
               else if isPermissionsEnabled env_var u \<and> opt_roles o1 \<noteq> []
               then roles_satisfied (opt_requireAll o1) (opt_roles o1) (extractApiRoles u) else True))"
proof -
  have "roles_satisfied a r (js_unique xs) = roles_satisfied a r xs" for a r xs
    by (simp add: roles_satisfied_iff)
  then show ?thesis
    by (auto simp: canActivate_def Let_def validatePermissions_Some split: option.splits sum.splits)
qed

end
