(* ===== verification/Project_Access.thy ===== *)
theory Project_Access
  imports Js_Values
begin

text \<open>
  The guard that decides whether the caller may act on the project a message names
  (\<open>utils/project-access/project-access.guard.ts\<close>). The \<open>ProjectAccessService\<close> it asks is an
  interface of the source: who is a member of a project and which project a token belongs to
  are parameters, and each may throw.
\<close>

text \<open>A project identifier of a message: a number or a string.\<close>

datatype ident = IdNum nat | IdStr string

record project_ref =
  pr_id :: nat
  pr_name :: string

record member_project =
  mp_role :: string
  mp_project :: project_ref

record access_service =
  getMemberInProject :: "ident \<Rightarrow> string \<Rightarrow> member_project option result"
  getProjectFromToken :: "string \<Rightarrow> project_ref option result"

text \<open>
  The decorator's metadata: which validation the handler asks for, the roles, and for a list
  of projects the names its extractor finds in the message (\<open>None\<close>: nothing it could extract
  from, which is an exception).
\<close>

record access_metadata =
  am_roles :: "string list"
  validateProjectUserAccess :: bool
  validateProjectTokenAccess :: bool
  validateProjectAnyAccess :: bool
  validateProjectListAccess :: bool

record access_message =
  ac_projectIdentifier :: "ident option"
  ac_projectId :: "nat option"
  ac_list :: "string list option"
  ac_email :: "string option"
  ac_projectToken :: "string option"

definition truthy_ident :: "ident option \<Rightarrow> bool" where
  "truthy_ident i = (case i of None \<Rightarrow> False | Some (IdNum n) \<Rightarrow> n \<noteq> 0 | Some (IdStr s) \<Rightarrow> s \<noteq> [])"

definition truthy_str :: "string option \<Rightarrow> bool" where
  "truthy_str s = (case s of None \<Rightarrow> False | Some x \<Rightarrow> x \<noteq> [])"

text \<open>\<open>project.id == projectIdentifier\<close> and \<open>project.name == projectIdentifier\<close>, loosely.\<close>

definition id_matches :: "nat \<Rightarrow> ident \<Rightarrow> bool" where
  "id_matches n i = (case i of IdNum m \<Rightarrow> n = m | IdStr s \<Rightarrow> js_Number s = Fin (of_nat n))"

definition name_matches :: "string \<Rightarrow> ident \<Rightarrow> bool" where
  "name_matches s i = (case i of IdNum m \<Rightarrow> js_Number s = Fin (of_nat m) | IdStr t \<Rightarrow> s = t)"

definition validateUser ::
  "access_service \<Rightarrow> ident \<Rightarrow> string option \<Rightarrow> string list \<Rightarrow> project_ref option result" where
  "validateUser svc i email1 roles =
     (if \<not> truthy_str email1 then Inr None
      else (case getMemberInProject svc i (the email1) of
          Inl e \<Rightarrow> Inl e
        | Inr None \<Rightarrow> Inl ForbiddenException
        | Inr (Some m) \<Rightarrow>
            if roles \<noteq> [] \<and> \<not> list_ex (\<lambda>r. r = mp_role m) roles then Inl ForbiddenException
            else Inr (Some (mp_project m))))"

definition validateProject :: "access_service \<Rightarrow> string option \<Rightarrow> project_ref option result" where
  "validateProject svc token =
     (if \<not> truthy_str token then Inr None else getProjectFromToken svc (the token))"

text \<open>\<open>.catch(null)\<close> installs no handler, so an exception of either lookup passes through.\<close>

definition validateAny ::
  "access_service \<Rightarrow> ident \<Rightarrow> string option \<Rightarrow> string option \<Rightarrow> string list \<Rightarrow> project_ref option result" where
  "validateAny svc i token email1 roles =
     (case (if truthy_str token then validateProject svc token else Inr None) of
        Inl e \<Rightarrow> Inl e
      | Inr project \<Rightarrow>
          if truthy_str email1 \<and> project = None then validateUser svc i email1 roles else Inr project)"

definition list_name_allowed ::
  "access_service \<Rightarrow> string option \<Rightarrow> string option \<Rightarrow> string \<Rightarrow> bool" where
  "list_name_allowed svc token email1 n =
     ((truthy_str token \<and>
         (case getProjectFromToken svc (the token) of
            Inr (Some p) \<Rightarrow> pr_name p = n \<or> show_nat (pr_id p) = n
          | _ \<Rightarrow> False)) \<or>
      (truthy_str email1 \<and>
         (case getMemberInProject svc (IdStr n) (the email1) of Inr (Some _) \<Rightarrow> True | _ \<Rightarrow> False)))"

fun check_names ::
  "access_service \<Rightarrow> string option \<Rightarrow> string option \<Rightarrow> string list \<Rightarrow> bool result" where
  "check_names svc token email1 [] = Inr True"
| "check_names svc token email1 (n # ns) =
     (if list_name_allowed svc token email1 n then check_names svc token email1 ns
      else Inl ForbiddenException)"

definition validateProjectList ::
  "access_service \<Rightarrow> string list option \<Rightarrow> string option \<Rightarrow> string option \<Rightarrow> bool result" where
  "validateProjectList svc projectNames token email1 =
     (case projectNames of
        None \<Rightarrow> Inl ForbiddenException
      | Some names \<Rightarrow>
          if js_unique names = [] then Inl ForbiddenException
          else check_names svc token email1 (js_unique names))"

text \<open>\<open>request.projectIdentifier ?? request?.projectId\<close>.\<close>

definition message_ident :: "access_message \<Rightarrow> ident option" where
  "message_ident msg =
     (case ac_projectIdentifier msg of Some i \<Rightarrow> Some i | None \<Rightarrow> map_option IdNum (ac_projectId msg))"

definition access_canActivate ::
  "access_service \<Rightarrow> access_metadata \<Rightarrow> access_message \<Rightarrow> bool result \<times> access_message" where
  "access_canActivate svc md msg =
     (if validateProjectListAccess md then
        (validateProjectList svc (ac_list msg) (ac_projectToken msg) (ac_email msg), msg)
      else
        let projectIdentifier = message_ident msg
        in if \<not> truthy_ident projectIdentifier then (Inl ForbiddenException, msg)
        else
          let i = the projectIdentifier;
              found =
                (if validateProjectUserAccess md then validateUser svc i (ac_email msg) (am_roles md)
                 else if validateProjectTokenAccess md then validateProject svc (ac_projectToken msg)
                 else if validateProjectAnyAccess md
                 then validateAny svc i (ac_projectToken msg) (ac_email msg) (am_roles md)
                 else Inr None)
          in (case found of
                Inl e \<Rightarrow> (Inl e, msg)
              | Inr None \<Rightarrow> (Inl ForbiddenException, msg)
              | Inr (Some p) \<Rightarrow>
                  if \<not> id_matches (pr_id p) i \<and> \<not> name_matches (pr_name p) i
                  then (Inl ForbiddenException, msg)
                  else (Inr True, msg\<lparr>ac_projectId := Some (pr_id p)\<rparr>)))"

section \<open>Who gets through\<close>

text \<open>The caller may act for a project: its token is the project's, or the user is a member with a role.\<close>

definition authorised :: "access_service \<Rightarrow> access_metadata \<Rightarrow> access_message \<Rightarrow> ident \<Rightarrow> project_ref \<Rightarrow> bool" where
  "authorised svc md msg i p \<longleftrightarrow>
     (\<exists>t. ac_projectToken msg = Some t \<and> t \<noteq> [] \<and> getProjectFromToken svc t = Inr (Some p)) \<or>
     (\<exists>e m. ac_email msg = Some e \<and> e \<noteq> [] \<and> getMemberInProject svc i e = Inr (Some m) \<and>
        mp_project m = p \<and> (am_roles md = [] \<or> mp_role m \<in> set (am_roles md)))"

lemma check_names_iff:
  "check_names svc token email1 ns = Inr b \<longleftrightarrow> b \<and> (\<forall>n\<in>set ns. list_name_allowed svc token email1 n)"
  by (induction ns) auto

lemma validateProject_Some:
  "validateProject svc (ac_projectToken msg) = Inr (Some p) \<Longrightarrow> authorised svc md msg i p"
  by (auto simp: validateProject_def authorised_def truthy_str_def split: if_splits option.splits)

lemma validateUser_Some:
  "validateUser svc i (ac_email msg) (am_roles md) = Inr (Some p) \<Longrightarrow> authorised svc md msg i p"
  by (auto simp: validateUser_def authorised_def truthy_str_def list_ex_iff
      split: if_splits option.splits sum.splits)

lemma validateAny_Some:
  "validateAny svc i (ac_projectToken msg) (ac_email msg) (am_roles md) = Inr (Some p) \<Longrightarrow>
   authorised svc md msg i p"
  by (auto simp: validateAny_def split: if_splits sum.splits
      intro: validateProject_Some validateUser_Some)

text \<open>
  C40. When the guard of a single project lets a message through, the project id it writes
  into the message belongs to a project the caller is authorised for: the caller's token is a
  token of that project, or the caller's e-mail is a member of the project the message names,
  with one of the handler's roles if it lists any. That project is the one the message names,
  by id or by name.
\<close>

theorem project_access_sound:
  assumes "access_canActivate svc md msg = (Inr True, msg')" "\<not> validateProjectListAccess md"
  shows "\<exists>p i. message_ident msg = Some i \<and> authorised svc md msg i p \<and>
     (id_matches (pr_id p) i \<or> name_matches (pr_name p) i) \<and> msg' = msg\<lparr>ac_projectId := Some (pr_id p)\<rparr>"
proof -
  obtain i where i: "message_ident msg = Some i"
    using assms by (auto simp: access_canActivate_def truthy_ident_def Let_def split: if_splits option.splits)
  define found where "found =
    (if validateProjectUserAccess md then validateUser svc i (ac_email msg) (am_roles md)
     else if validateProjectTokenAccess md then validateProject svc (ac_projectToken msg)
     else if validateProjectAnyAccess md
     then validateAny svc i (ac_projectToken msg) (ac_email msg) (am_roles md) else Inr None)"
  have r: "(case found of Inl e \<Rightarrow> (Inl e, msg) | Inr None \<Rightarrow> (Inl ForbiddenException, msg)
     | Inr (Some p) \<Rightarrow>
         if \<not> id_matches (pr_id p) i \<and> \<not> name_matches (pr_name p) i then (Inl ForbiddenException, msg)
         else (Inr True, msg\<lparr>ac_projectId := Some (pr_id p)\<rparr>)) = (Inr True, msg')"
    using assms i unfolding access_canActivate_def found_def by (simp add: Let_def split: if_splits)
  then obtain p where p: "found = Inr (Some p)" by (auto split: sum.splits option.splits)
  then have "authorised svc md msg i p"
    unfolding found_def
    by (auto split: if_splits intro: validateUser_Some validateProject_Some validateAny_Some)
  with r p i show ?thesis by (auto split: if_splits)
qed

definition demo_service :: access_service where
  "demo_service = \<lparr>
     getMemberInProject = (\<lambda>i e. if e = ''dev@x'' then
        Inr (Some \<lparr>mp_role = ''project-member'', mp_project = \<lparr>pr_id = 7, pr_name = ''app''\<rparr>\<rparr>) else Inr None),
     getProjectFromToken = (\<lambda>t. if t = ''tok'' then Inr (Some \<lparr>pr_id = 7, pr_name = ''app''\<rparr>)
        else Inl NotFoundException)\<rparr>"

definition demo_metadata :: access_metadata where
  "demo_metadata = \<lparr>am_roles = [], validateProjectUserAccess = False,
     validateProjectTokenAccess = False, validateProjectAnyAccess = True,
     validateProjectListAccess = False\<rparr>"

definition demo_message :: "string option \<Rightarrow> access_message" where
  "demo_message token = \<lparr>ac_projectIdentifier = Some (IdStr ''app''), ac_projectId = None,
     ac_list = None, ac_email = Some ''dev@x'', ac_projectToken = token\<rparr>"

lemmas demo_access_defs = demo_service_def demo_metadata_def demo_message_def message_ident_def
  access_canActivate_def validateAny_def validateUser_def validateProject_def truthy_str_def
  truthy_ident_def id_matches_def name_matches_def

lemma project_access_sound_witness:
  "\<exists>p i. message_ident (demo_message (Some ''tok'')) = Some i \<and>
     authorised demo_service demo_metadata (demo_message (Some ''tok'')) i p \<and>
     (id_matches (pr_id p) i \<or> name_matches (pr_name p) i) \<and>
     (demo_message (Some ''tok''))\<lparr>ac_projectId := Some 7\<rparr> =
       (demo_message (Some ''tok''))\<lparr>ac_projectId := Some (pr_id p)\<rparr>"
  by (rule project_access_sound) (simp_all add: demo_access_defs)

text \<open>
  An invalid project token shuts out a caller who would get in without it: the exception of
  the token lookup is not caught, so the e-mail is never tried, although the guard of a list of
  projects does fall back to it.
\<close>

theorem invalid_token_blocks_member:
  assumes "getProjectFromToken svc t = Inl e" "t \<noteq> []" "ac_projectToken msg = Some t"
    and "validateProjectAnyAccess md" "\<not> validateProjectUserAccess md"
    and "\<not> validateProjectTokenAccess md" "\<not> validateProjectListAccess md"
    and "truthy_ident (message_ident msg)"
  shows "access_canActivate svc md msg = (Inl e, msg)"
  using assms by (simp add: access_canActivate_def validateAny_def validateProject_def truthy_str_def Let_def)

lemma invalid_token_blocks_member_witness:
  "access_canActivate demo_service demo_metadata (demo_message (Some ''bad'')) =
     (Inl NotFoundException, demo_message (Some ''bad'')) \<and>
   fst (access_canActivate demo_service demo_metadata (demo_message None)) = Inr True"
proof
  show "access_canActivate demo_service demo_metadata (demo_message (Some ''bad'')) =
     (Inl NotFoundException, demo_message (Some ''bad''))"
    by (rule invalid_token_blocks_member [where t = "''bad''"]) (simp_all add: demo_access_defs)
  show "fst (access_canActivate demo_service demo_metadata (demo_message None)) = Inr True"
    by (simp add: demo_access_defs)
qed

text \<open>
  The guard of a list of projects lets a message through exactly when the extractor found at
  least one name and for each of them the token's project has that name (or that id, in
  decimal) or the e-mail is a member.
\<close>

theorem project_list_access_spec:
  assumes "validateProjectListAccess md"
  shows "access_canActivate svc md msg = (Inr b, msg') \<longleftrightarrow>
     b \<and> msg' = msg \<and>
     (\<exists>names. ac_list msg = Some names \<and> names \<noteq> [] \<and>
        (\<forall>n\<in>set names. list_name_allowed svc (ac_projectToken msg) (ac_email msg) n))"
proof -
  have "js_unique xs = [] \<longleftrightarrow> xs = []" for xs :: "string list"
    by (metis set_empty set_js_unique)
  with assms show ?thesis
    by (auto simp: access_canActivate_def validateProjectList_def check_names_iff split: option.splits)
qed

lemma project_list_access_spec_witness:
  "access_canActivate demo_service (demo_metadata\<lparr>validateProjectListAccess := True\<rparr>)
     ((demo_message (Some ''tok''))\<lparr>ac_list := Some [''app'', ''other'']\<rparr>) =
   (Inr True, (demo_message (Some ''tok''))\<lparr>ac_list := Some [''app'', ''other'']\<rparr>)"
  by (subst project_list_access_spec) (simp_all add: demo_access_defs list_name_allowed_def)

end
