(* ===== verification/Object_Store.thy ===== *)
theory Object_Store
  imports Js_Values
begin

text \<open>
  The bucket and the client the services reach it through (\<open>AWS/minio-client.service.ts\<close>,
  \<open>AWS/file-processing.service.ts\<close>). MinIO itself is not code of the repository: it is modelled
  by the objects it holds and by the fault it answers with for an object, if any, which the
  operations below turn into the results the services see. The contract the clients rely on is
  the locale \<open>blob_store\<close>.
\<close>

section \<open>The store\<close>

record s3_object =
  obj_content :: string
  obj_contentType :: "string option"
  obj_lastModified :: nat

text \<open>The \<open>code\<close> of an error of \<open>statObject\<close>; a missing object is a \<open>NotFound\<close>.\<close>

datatype minio_error = AccessDenied | NotFound | NetworkError

record bucket_store =
  objects :: "string \<times> string \<Rightarrow> s3_object option"
  fault :: "string \<times> string \<Rightarrow> minio_error option"

definition empty_store :: bucket_store where
  "empty_store = \<lparr>objects = (\<lambda>_. None), fault = (\<lambda>_. None)\<rparr>"

definition statObject :: "bucket_store \<Rightarrow> string \<Rightarrow> string \<Rightarrow> minio_error + s3_object" where
  "statObject st bucketName objectKey =
     (case fault st (bucketName, objectKey) of
        Some e \<Rightarrow> Inl e
      | None \<Rightarrow> (case objects st (bucketName, objectKey) of None \<Rightarrow> Inl NotFound | Some o1 \<Rightarrow> Inr o1))"

text \<open>\<open>undefined\<close> for the two codes the client expects, a rejected promise otherwise.\<close>

definition getObjectStat :: "bucket_store \<Rightarrow> string \<Rightarrow> string \<Rightarrow> s3_object option result" where
  "getObjectStat st bucketName objectKey =
     (case statObject st bucketName objectKey of
        Inr o1 \<Rightarrow> Inr (Some o1)
      | Inl e \<Rightarrow> if e = AccessDenied \<or> e = NotFound then Inr None else Inl ErrorException)"

text \<open>\<open>getObjectStat(...).catch(() => null)\<close>, as every caller that only wants to know writes it.\<close>

definition stat_or_null :: "bucket_store \<Rightarrow> string \<Rightarrow> string \<Rightarrow> s3_object option" where
  "stat_or_null st bucketName objectKey =
     (case getObjectStat st bucketName objectKey of Inl _ \<Rightarrow> None | Inr r \<Rightarrow> r)"

definition getObject :: "bucket_store \<Rightarrow> string \<Rightarrow> string \<Rightarrow> string result" where
  "getObject st bucketName objectKey =
     (case statObject st bucketName objectKey of Inr o1 \<Rightarrow> Inr (obj_content o1) | Inl _ \<Rightarrow> Inl ErrorException)"

definition getObjectAsString :: "bucket_store \<Rightarrow> string \<Rightarrow> string \<Rightarrow> string option result" where
  "getObjectAsString st bucketName objectKey =
     (case statObject st bucketName objectKey of
        Inr o1 \<Rightarrow> Inr (Some (obj_content o1))
      | Inl e \<Rightarrow> if e = NotFound then Inr None else Inl ErrorException)"

definition putObject :: "bucket_store \<Rightarrow> string \<Rightarrow> string \<Rightarrow> s3_object \<Rightarrow> bucket_store" where
  "putObject st bucketName objectKey o1 =
     st\<lparr>objects := (objects st)((bucketName, objectKey) := Some o1)\<rparr>"

text \<open>
  \<open>removeObjects\<close> leaves an object the server refuses to touch, and rejects when the server
  cannot be reached; \<open>putObject\<close> rejects on any fault.
\<close>

definition deleteObjects :: "bucket_store \<Rightarrow> string \<Rightarrow> string list \<Rightarrow> bucket_store" where
  "deleteObjects st bucketName objectsKey =
     st\<lparr>objects := (\<lambda>(b, k). if b = bucketName \<and> k \<in> set objectsKey \<and> fault st (b, k) = None
                          then None else objects st (b, k))\<rparr>"

definition deleteObjects_result :: "bucket_store \<Rightarrow> string \<Rightarrow> string list \<Rightarrow> unit result" where
  "deleteObjects_result st bucketName objectsKey =
     (if list_ex (\<lambda>k. fault st (bucketName, k) = Some NetworkError) objectsKey
      then Inl ErrorException else Inr ())"

definition putObject_result :: "bucket_store \<Rightarrow> string \<Rightarrow> string \<Rightarrow> unit result" where
  "putObject_result st bucketName objectKey =
     (if fault st (bucketName, objectKey) = None then Inr () else Inl ErrorException)"

text \<open>
  \<open>FileProcessingService.processFile\<close>: the digest unless switched off, the signature only on
  request. The digest and the signing service are parameters.
\<close>

record processing_result =
  res_sha256 :: "string option"
  res_cosignSignature :: "string option"

definition processFile ::
  "(string \<Rightarrow> string) \<Rightarrow> (string \<Rightarrow> string result) \<Rightarrow> string \<Rightarrow> bool option \<Rightarrow> bool option \<Rightarrow>
   processing_result result" where
  "processFile sha sign1 content opt_sha opt_cosign =
     (let calculateSha256 = (opt_sha \<noteq> Some False);
          calculateCosign = (opt_cosign = Some True)
      in if \<not> calculateSha256 \<and> \<not> calculateCosign then Inl BadRequestException
         else if calculateSha256 \<and> \<not> calculateCosign
         then Inr \<lparr>res_sha256 = Some (sha content), res_cosignSignature = None\<rparr>
         else (case sign1 content of
             Inl e \<Rightarrow> Inl e
           | Inr sig \<Rightarrow> Inr \<lparr>res_sha256 = (if calculateSha256 then Some (sha content) else None),
                              res_cosignSignature = Some sig\<rparr>))"

definition calculateSha256FromBucket ::
  "(string \<Rightarrow> string) \<Rightarrow> (string \<Rightarrow> string result) \<Rightarrow> bucket_store \<Rightarrow> string \<Rightarrow> string \<Rightarrow> string result" where
  "calculateSha256FromBucket sha sign1 st bucketName objectKey =
     (case getObject st bucketName objectKey of
        Inl e \<Rightarrow> Inl e
      | Inr content \<Rightarrow>
          (case processFile sha sign1 content None (Some False) of
             Inl e \<Rightarrow> Inl e
           | Inr r \<Rightarrow> Inr (the (res_sha256 r))))"

lemma calculateSha256FromBucket_eq:
  "calculateSha256FromBucket sha sign1 st b k =
     (case getObject st b k of Inl e \<Rightarrow> Inl e | Inr c \<Rightarrow> Inr (sha c))"
  by (simp add: calculateSha256FromBucket_def processFile_def split: sum.splits)

section \<open>The contract of a blob store\<close>

text \<open>
  What the services need of the bucket: an object that was put is seen, a deleted one is not,
  neither operation touches another object, and reads agree with what is seen. \<open>reachable\<close> says
  that the store answers for an object at all.
\<close>

locale blob_store =
  fixes put :: "'s \<Rightarrow> 'k \<Rightarrow> 'o \<Rightarrow> 's"
    and del :: "'s \<Rightarrow> 'k \<Rightarrow> 's"
    and look :: "'s \<Rightarrow> 'k \<Rightarrow> 'o option"
    and reachable :: "'s \<Rightarrow> 'k \<Rightarrow> bool"
  assumes look_put: "reachable s k' \<Longrightarrow> look (put s k o1) k' = (if k' = k then Some o1 else look s k')"
    and look_del: "look (del s k) k' = (if k' = k then None else look s k')"
    and reachable_put: "reachable (put s k o1) k' = reachable s k'"
    and reachable_del: "reachable (del s k) k' = reachable s k'"
begin

lemma look_put_same: "reachable s k \<Longrightarrow> look (put s k o1) k = Some o1"
  by (simp add: look_put)

lemma look_del_same: "look (del s k) k = None"
  by (simp add: look_del)

lemma del_put: "look (del (put s k o1) k) k = None"
  by (simp add: look_del)

lemma put_frame: "reachable s k' \<Longrightarrow> k' \<noteq> k \<Longrightarrow> look (put s k o1) k' = look s k'"
  by (simp add: look_put)

lemma del_frame: "k' \<noteq> k \<Longrightarrow> look (del s k) k' = look s k'"
  by (simp add: look_del)

lemma del_many:
  "look (fold (\<lambda>k s. del s k) ks s) k' = (if k' \<in> set ks then None else look s k')"
  by (induction ks arbitrary: s) (auto simp: look_del)

lemma missing_stays: "look s k = None \<Longrightarrow> look (fold (\<lambda>k s. del s k) ks s) k = None"
  by (simp add: del_many)

end

definition put_key :: "bucket_store \<Rightarrow> string \<times> string \<Rightarrow> s3_object \<Rightarrow> bucket_store" where
  "put_key st k o1 = putObject st (fst k) (snd k) o1"

definition del_key :: "bucket_store \<Rightarrow> string \<times> string \<Rightarrow> bucket_store" where
  "del_key st k = deleteObjects st (fst k) [snd k]"

definition look_key :: "bucket_store \<Rightarrow> string \<times> string \<Rightarrow> s3_object option" where
  "look_key st k = stat_or_null st (fst k) (snd k)"

definition reachable_key :: "bucket_store \<Rightarrow> string \<times> string \<Rightarrow> bool" where
  "reachable_key st k \<longleftrightarrow> fault st k = None"

lemma stat_or_null_eq:
  "stat_or_null st b k = (if fault st (b, k) = None then objects st (b, k) else None)"
  by (auto simp: stat_or_null_def getObjectStat_def statObject_def split: option.splits)

lemma fault_deleteObjects [simp]: "fault (deleteObjects st b ks) = fault st"
  by (simp add: deleteObjects_def)

lemma fault_putObject [simp]: "fault (putObject st b k o1) = fault st"
  by (simp add: putObject_def)

interpretation minio: blob_store put_key del_key look_key reachable_key
proof
  fix s k k' o1
  show "reachable_key s k' \<Longrightarrow> look_key (put_key s k o1) k' = (if k' = k then Some o1 else look_key s k')"
    by (cases k'; cases k)
      (simp add: look_key_def put_key_def stat_or_null_eq reachable_key_def, simp add: putObject_def)
  show "look_key (del_key s k) k' = (if k' = k then None else look_key s k')"
    by (cases k'; cases k) (auto simp: look_key_def del_key_def stat_or_null_eq deleteObjects_def)
  show "reachable_key (put_key s k o1) k' = reachable_key s k'"
    by (simp add: reachable_key_def put_key_def)
  show "reachable_key (del_key s k) k' = reachable_key s k'"
    by (simp add: reachable_key_def del_key_def)
qed

lemma stat_deleted: "stat_or_null (deleteObjects st b [k]) b k = None"
  using minio.look_del_same [of st "(b, k)"] by (simp add: look_key_def del_key_def)

lemma stat_put: "fault st (b, k) = None \<Longrightarrow> stat_or_null (putObject st b k o1) b k = Some o1"
  using minio.look_put_same [of st "(b, k)" o1] by (simp add: look_key_def put_key_def reachable_key_def)

end
