(* ===== verification/Entities.thy ===== *)
theory Entities
  imports Object_Store Permissions
begin

text \<open>
  The data model: the enums of \<open>database/entities/enums.entity.ts\<close> the modelled code uses, the
  entities with the columns it reads or writes, and the state of the service: one record with
  a list of rows per table, the bucket, the in-memory SBOM flags, the messages emitted to the
  other services and the calls that were started without being awaited. The timestamps
  \<open>createdAt\<close> and \<open>updatedAt\<close> that the ORM maintains are left out, except \<open>createdDate\<close> of a
  file upload, which the storage synchronisation reads.
\<close>

section \<open>Enums\<close>

datatype ReleaseStatusEnum = DRAFT | IN_REVIEW | APPROVED | RELEASED | ARCHIVED | ERROR

datatype FileUPloadStatusEnum = UPLOADED | PENDING | UPLOADING | REMOVED | ERROR

datatype ArtifactTypeEnum = FILE | DOCKER_IMAGE | RPM | DEB

datatype RuleType = POLICY | RESTRICTION

datatype ReleaseEventType = StatusEvent ReleaseStatusEnum | DELETED

section \<open>Entities\<close>

record ProjectEntity =
  pj_id :: nat
  pj_name :: string

type_synonym metadata = "(string \<times> json) list"

text \<open>Relations are the foreign keys: the project's id, and the catalog id of the owning release.\<close>

record ReleaseEntity =
  rel_catalogId :: string
  rel_version :: string
  rel_name :: "string option"
  rel_status :: ReleaseStatusEnum
  rel_releaseNotes :: "string option"
  rel_metadata :: metadata
  rel_project :: nat
  rel_requiredRegulationsCount :: nat
  rel_compliantRegulationsCount :: nat
  rel_createdBy :: "string option"
  rel_updatedBy :: "string option"
  rel_releasedAt :: "nat option"
  rel_isImported :: bool
  rel_sortOrder :: int
  rel_latest :: bool

record ReleaseArtifactEntity =
  art_id :: nat
  art_artifactName :: "string option"
  art_type :: ArtifactTypeEnum
  art_dockerImageUrl :: "string option"
  art_isInstallationFile :: bool
  art_metadata :: metadata
  art_release :: string
  art_fileUpload :: "nat option"
  art_isExecutable :: bool
  art_arguments :: "string option"
  art_sbomScanId :: "string option"
  art_enableSbomScan :: bool
  art_sbomReportPath :: "string option"
  art_packageVersion :: "string option"

record FileUploadEntity =
  fu_id :: nat
  fu_createdDate :: nat
  fu_fileName :: string
  fu_userId :: string
  fu_objectKey :: string
  fu_status :: FileUPloadStatusEnum
  fu_bucketName :: string
  fu_size :: "nat option"
  fu_contentType :: "string option"
  fu_uploadAt :: "nat option"
  fu_signature :: "string option"
  fu_sha256 :: "string option"
  fu_progress :: nat
  fu_error :: "string option"

record RegulationEntity =
  reg_id :: nat
  reg_name :: string
  reg_displayName :: "string option"
  reg_description :: "string option"
  reg_typeId :: nat
  reg_typeName :: string
  reg_project :: nat
  reg_config :: "string option"
  reg_order :: nat

record RegulationSnapshot =
  rsn_name :: string
  rsn_description :: "string option"
  rsn_config :: "string option"
  rsn_typeId :: nat

record RegulationStatusEntity =
  rst_id :: nat
  rst_version :: string
  rst_regulation :: "nat option"
  rst_regulationSnapshot :: "RegulationSnapshot option"
  rst_isCompliant :: bool
  rst_value :: "string option"
  rst_reportDetails :: "string option"

record RuleEntity =
  rul_id :: string
  rul_name :: string
  rul_description :: "string option"
  rul_type :: RuleType
  rul_version :: nat
  rul_isActive :: bool
  rul_isPush :: bool
  rul_rule :: json

record RuleReleaseEntity =
  rr_id :: nat
  rr_rule :: string
  rr_release :: string

section \<open>Messages and pending calls\<close>

record MinimalReleaseDto =
  min_id :: string
  min_version :: string
  min_name :: string
  min_requiredRegulationsCount :: nat
  min_compliantRegulationsCount :: nat

record ProjectReleasesChangedEvent =
  pce_projectId :: nat
  pce_latestRelease :: "MinimalReleaseDto option"
  pce_upcomingRelease :: "MinimalReleaseDto option"

datatype message =
    PROJECT_RELEASES_CHANGED ProjectReleasesChangedEvent
  | RELEASE_CHANGED_EVENT string ReleaseEventType
  | DELETE_SCAN string

text \<open>\<open>UpdateFileUploadDto\<close>: a column left undefined is not written.\<close>

record UpdateFileUploadDto =
  uf_objectKey :: string
  uf_status :: "FileUPloadStatusEnum option"
  uf_size :: "nat option"
  uf_contentType :: "string option"
  uf_uploadAt :: "nat option"

text \<open>
  A call whose promise nobody awaits. It runs later, in an order the code does not fix. The
  arguments are those of the call; a release is named by its project and version or by its
  catalog id, as the call does.
\<close>

record import_artifact =
  im_name :: string
  im_downloadUrl :: "string option"
  im_sha256 :: "string option"
  im_isExecutable :: "bool option"
  im_arguments :: "string option"
  im_metadata :: "metadata option"

datatype task =
    UpdateLatestForProject nat
  | RefreshReleaseState nat string
  | SendProjectReleasesChangedEvent nat string "ReleaseEventType option"
  | DeleteItemRow nat
  | OnFileCreate string
  | OnFileDelete string
  | MaybeRestoreReleasedStatus string
  | UpdateUploadFile UpdateFileUploadDto
  | ProcessAndSaveFile string bool bool
  | TriggerSbomScanAndSaveScanId string
  | TriggerDockerSbomScan string nat
  | ImportArtifactsInBackground nat string string "import_artifact list"

section \<open>The state of the service and its environment\<close>

record db =
  projects :: "ProjectEntity list"
  releases :: "ReleaseEntity list"
  release_dependencies :: "(string \<times> string) list"
  artifacts :: "ReleaseArtifactEntity list"
  uploads :: "FileUploadEntity list"
  regulations :: "RegulationEntity list"
  statuses :: "RegulationStatusEntity list"
  rules :: "RuleEntity list"
  ruleReleases :: "RuleReleaseEntity list"
  bucket :: bucket_store
  sbomScanFlags :: "(string \<times> bool) list"
  outbox :: "message list"
  tasks :: "task list"
  clock :: nat
  next_id :: nat

text \<open>
  What the services obtain from outside the repository: the configuration and the behaviour of
  the libraries and services they call. Ids come from one sequence (\<open>next_id\<close>) instead of one
  per table; \<open>clock\<close> is the value of \<open>new Date()\<close> and \<open>NOW()\<close>.
\<close>

record http_response =
  hr_contentLength :: "string option"
  hr_body :: string

record env =
  BUCKET_NAME :: string
  COSIGN_DO_SIGN_FILES :: bool
  UPLOAD_URL_EXPIRE :: "nat option"
  sha256_hex :: "string \<Rightarrow> string"
  cosign_sign :: "string \<Rightarrow> string result"
  presignedPutObject :: "string \<Rightarrow> string \<Rightarrow> string result"
  presignedGetObject :: "string \<Rightarrow> string \<Rightarrow> string result"
  http_get :: "string \<Rightarrow> http_response result"
  sbom_scan_request :: "string \<Rightarrow> string option result"
  exn_message :: "exn \<Rightarrow> string"
  xml_parse :: "string \<Rightarrow> json result"
  semver_valid :: "string \<Rightarrow> bool"
  semver_compare :: "string \<Rightarrow> string \<Rightarrow> int"

definition add_tasks :: "task list \<Rightarrow> db \<Rightarrow> db" where
  "add_tasks ts s = s\<lparr>tasks := tasks s @ ts\<rparr>"

definition emit_message :: "message \<Rightarrow> db \<Rightarrow> db" where
  "emit_message m s = s\<lparr>outbox := outbox s @ [m]\<rparr>"

section \<open>Queries\<close>

text \<open>
  A \<open>where\<close> clause with the value \<open>undefined\<close> does not restrict its column; TypeORM documents
  this, and \<open>opt_matches\<close> is that comparison.
\<close>

definition opt_matches :: "'a option \<Rightarrow> 'a \<Rightarrow> bool" where
  "opt_matches p x = (case p of None \<Rightarrow> True | Some y \<Rightarrow> x = y)"

definition is_release :: "nat \<Rightarrow> string \<Rightarrow> ReleaseEntity \<Rightarrow> bool" where
  "is_release pid v r \<longleftrightarrow> rel_project r = pid \<and> rel_version r = v"

definition find_release :: "db \<Rightarrow> nat \<Rightarrow> string \<Rightarrow> ReleaseEntity option" where
  "find_release s pid v = List.find (is_release pid v) (releases s)"

definition release_by_catalog :: "db \<Rightarrow> string \<Rightarrow> ReleaseEntity option" where
  "release_by_catalog s c = List.find (\<lambda>r. rel_catalogId r = c) (releases s)"

definition upload_by_id :: "db \<Rightarrow> nat \<Rightarrow> FileUploadEntity option" where
  "upload_by_id s i = List.find (\<lambda>f. fu_id f = i) (uploads s)"

definition upload_by_key :: "db \<Rightarrow> string \<Rightarrow> FileUploadEntity option" where
  "upload_by_key s k = List.find (\<lambda>f. fu_objectKey f = k) (uploads s)"

definition project_by_id :: "db \<Rightarrow> nat \<Rightarrow> ProjectEntity option" where
  "project_by_id s i = List.find (\<lambda>p. pj_id p = i) (projects s)"

definition project_by_name :: "db \<Rightarrow> string \<Rightarrow> ProjectEntity option" where
  "project_by_name s n = List.find (\<lambda>p. pj_name p = n) (projects s)"

definition artifacts_of :: "db \<Rightarrow> string \<Rightarrow> ReleaseArtifactEntity list" where
  "artifacts_of s c = filter (\<lambda>a. art_release a = c) (artifacts s)"

definition artifact_upload :: "db \<Rightarrow> ReleaseArtifactEntity \<Rightarrow> FileUploadEntity option" where
  "artifact_upload s a = (case art_fileUpload a of None \<Rightarrow> None | Some i \<Rightarrow> upload_by_id s i)"

definition dependencies_of :: "db \<Rightarrow> string \<Rightarrow> ReleaseEntity list" where
  "dependencies_of s c = filter (\<lambda>r. (c, rel_catalogId r) \<in> set (release_dependencies s)) (releases s)"

definition dependents_of :: "db \<Rightarrow> string \<Rightarrow> ReleaseEntity list" where
  "dependents_of s c = filter (\<lambda>r. (rel_catalogId r, c) \<in> set (release_dependencies s)) (releases s)"

definition update_releases :: "(ReleaseEntity \<Rightarrow> bool) \<Rightarrow> (ReleaseEntity \<Rightarrow> ReleaseEntity) \<Rightarrow> db \<Rightarrow> db" where
  "update_releases P f s = s\<lparr>releases := update_where P f (releases s)\<rparr>"

definition update_artifacts ::
  "(ReleaseArtifactEntity \<Rightarrow> bool) \<Rightarrow> (ReleaseArtifactEntity \<Rightarrow> ReleaseArtifactEntity) \<Rightarrow> db \<Rightarrow> db" where
  "update_artifacts P f s = s\<lparr>artifacts := update_where P f (artifacts s)\<rparr>"

definition update_uploads ::
  "(FileUploadEntity \<Rightarrow> bool) \<Rightarrow> (FileUploadEntity \<Rightarrow> FileUploadEntity) \<Rightarrow> db \<Rightarrow> db" where
  "update_uploads P f s = s\<lparr>uploads := update_where P f (uploads s)\<rparr>"

section \<open>The constraints of the schema\<close>

text \<open>
  The unique indexes and foreign keys the proofs use: one release per catalog id and per
  project and version, one upload per id and per object key, one artifact per id.
\<close>

definition release_key :: "ReleaseEntity \<Rightarrow> nat \<times> string" where
  "release_key r = (rel_project r, rel_version r)"

definition schema_ok :: "db \<Rightarrow> bool" where
  "schema_ok s \<longleftrightarrow>
     distinct (map rel_catalogId (releases s)) \<and> distinct (map release_key (releases s)) \<and>
     distinct (map fu_id (uploads s)) \<and> distinct (map fu_objectKey (uploads s)) \<and>
     distinct (map art_id (artifacts s))"

lemma find_release_SomeD:
  "find_release s pid v = Some r \<Longrightarrow> r \<in> set (releases s) \<and> rel_project r = pid \<and> rel_version r = v"
  by (auto simp: find_release_def is_release_def dest: find_SomeD)

lemma find_release_unique:
  "distinct (map release_key (releases s)) \<Longrightarrow> r \<in> set (releases s) \<Longrightarrow>
   find_release s (rel_project r) (rel_version r) = Some r"
  unfolding find_release_def is_release_def
  using find_by_key [of release_key "releases s" r] by (simp add: release_key_def)

lemma release_by_catalog_SomeD:
  "release_by_catalog s c = Some r \<Longrightarrow> r \<in> set (releases s) \<and> rel_catalogId r = c"
  unfolding release_by_catalog_def using find_SomeD by fastforce

lemma release_by_catalog_unique:
  "distinct (map rel_catalogId (releases s)) \<Longrightarrow> r \<in> set (releases s) \<Longrightarrow>
   release_by_catalog s (rel_catalogId r) = Some r"
  by (simp add: release_by_catalog_def find_by_key)

lemma upload_by_id_SomeD: "upload_by_id s i = Some f \<Longrightarrow> f \<in> set (uploads s) \<and> fu_id f = i"
  unfolding upload_by_id_def using find_SomeD by fastforce

lemma upload_by_key_SomeD: "upload_by_key s k = Some f \<Longrightarrow> f \<in> set (uploads s) \<and> fu_objectKey f = k"
  unfolding upload_by_key_def using find_SomeD by fastforce

lemma update_releases_simps [simp]:
  "releases (update_releases P f s) = update_where P f (releases s)"
  "projects (update_releases P f s) = projects s"
  "release_dependencies (update_releases P f s) = release_dependencies s"
  "artifacts (update_releases P f s) = artifacts s" "uploads (update_releases P f s) = uploads s"
  "regulations (update_releases P f s) = regulations s" "statuses (update_releases P f s) = statuses s"
  "rules (update_releases P f s) = rules s" "ruleReleases (update_releases P f s) = ruleReleases s"
  "bucket (update_releases P f s) = bucket s" "sbomScanFlags (update_releases P f s) = sbomScanFlags s"
  "outbox (update_releases P f s) = outbox s" "tasks (update_releases P f s) = tasks s"
  "clock (update_releases P f s) = clock s" "next_id (update_releases P f s) = next_id s"
  by (simp_all add: update_releases_def)

lemma update_uploads_simps [simp]:
  "uploads (update_uploads P g s) = update_where P g (uploads s)"
  "projects (update_uploads P g s) = projects s" "releases (update_uploads P g s) = releases s"
  "release_dependencies (update_uploads P g s) = release_dependencies s"
  "artifacts (update_uploads P g s) = artifacts s"
  "regulations (update_uploads P g s) = regulations s" "statuses (update_uploads P g s) = statuses s"
  "rules (update_uploads P g s) = rules s" "ruleReleases (update_uploads P g s) = ruleReleases s"
  "bucket (update_uploads P g s) = bucket s" "sbomScanFlags (update_uploads P g s) = sbomScanFlags s"
  "outbox (update_uploads P g s) = outbox s" "tasks (update_uploads P g s) = tasks s"
  "clock (update_uploads P g s) = clock s" "next_id (update_uploads P g s) = next_id s"
  by (simp_all add: update_uploads_def)

lemma update_artifacts_simps [simp]:
  "artifacts (update_artifacts P h s) = update_where P h (artifacts s)"
  "projects (update_artifacts P h s) = projects s" "releases (update_artifacts P h s) = releases s"
  "release_dependencies (update_artifacts P h s) = release_dependencies s"
  "uploads (update_artifacts P h s) = uploads s"
  "regulations (update_artifacts P h s) = regulations s" "statuses (update_artifacts P h s) = statuses s"
  "rules (update_artifacts P h s) = rules s" "ruleReleases (update_artifacts P h s) = ruleReleases s"
  "bucket (update_artifacts P h s) = bucket s" "sbomScanFlags (update_artifacts P h s) = sbomScanFlags s"
  "outbox (update_artifacts P h s) = outbox s" "tasks (update_artifacts P h s) = tasks s"
  "clock (update_artifacts P h s) = clock s" "next_id (update_artifacts P h s) = next_id s"
  by (simp_all add: update_artifacts_def)

lemma add_tasks_simps [simp]:
  "tasks (add_tasks ts s) = tasks s @ ts" "releases (add_tasks ts s) = releases s"
  "projects (add_tasks ts s) = projects s" "artifacts (add_tasks ts s) = artifacts s"
  "release_dependencies (add_tasks ts s) = release_dependencies s"
  "uploads (add_tasks ts s) = uploads s" "regulations (add_tasks ts s) = regulations s"
  "statuses (add_tasks ts s) = statuses s" "rules (add_tasks ts s) = rules s"
  "ruleReleases (add_tasks ts s) = ruleReleases s" "bucket (add_tasks ts s) = bucket s"
  "sbomScanFlags (add_tasks ts s) = sbomScanFlags s" "outbox (add_tasks ts s) = outbox s"
  "clock (add_tasks ts s) = clock s" "next_id (add_tasks ts s) = next_id s"
  by (simp_all add: add_tasks_def)

lemma emit_message_simps [simp]:
  "outbox (emit_message m s) = outbox s @ [m]" "releases (emit_message m s) = releases s"
  "projects (emit_message m s) = projects s" "artifacts (emit_message m s) = artifacts s"
  "release_dependencies (emit_message m s) = release_dependencies s"
  "uploads (emit_message m s) = uploads s" "regulations (emit_message m s) = regulations s"
  "statuses (emit_message m s) = statuses s" "rules (emit_message m s) = rules s"
  "ruleReleases (emit_message m s) = ruleReleases s" "bucket (emit_message m s) = bucket s"
  "sbomScanFlags (emit_message m s) = sbomScanFlags s" "tasks (emit_message m s) = tasks s"
  "clock (emit_message m s) = clock s" "next_id (emit_message m s) = next_id s"
  by (simp_all add: emit_message_def)

section \<open>A concrete environment\<close>

text \<open>The environment and the empty state the worked examples start from.\<close>

definition demo_env :: env where
  "demo_env = \<lparr>BUCKET_NAME = ''main'', COSIGN_DO_SIGN_FILES = False, UPLOAD_URL_EXPIRE = Some 1,
     sha256_hex = (\<lambda>c. ''h'' @ c), cosign_sign = (\<lambda>c. Inr c),
     presignedPutObject = (\<lambda>b k. Inr (''put:'' @ k)), presignedGetObject = (\<lambda>b k. Inr (''get:'' @ k)),
     http_get = (\<lambda>u. Inr \<lparr>hr_contentLength = None, hr_body = u\<rparr>),
     sbom_scan_request = (\<lambda>t. Inr (Some t)), exn_message = (\<lambda>e. ''failed''),
     xml_parse = (\<lambda>x. Inr (JObj [])), semver_valid = (\<lambda>v. v \<noteq> []),
     semver_compare = (\<lambda>a b. int (length a) - int (length b))\<rparr>"

definition empty_db :: db where
  "empty_db = \<lparr>projects = [], releases = [], release_dependencies = [], artifacts = [], uploads = [],
     regulations = [], statuses = [], rules = [], ruleReleases = [], bucket = empty_store,
     sbomScanFlags = [], outbox = [], tasks = [], clock = 0, next_id = 1\<rparr>"

definition demo_release :: "string \<Rightarrow> string \<Rightarrow> ReleaseStatusEnum \<Rightarrow> ReleaseEntity" where
  "demo_release c v st =
     \<lparr>rel_catalogId = c, rel_version = v, rel_name = None, rel_status = st, rel_releaseNotes = None,
      rel_metadata = [], rel_project = 1, rel_requiredRegulationsCount = 0,
      rel_compliantRegulationsCount = 0, rel_createdBy = None, rel_updatedBy = None,
      rel_releasedAt = None, rel_isImported = False, rel_sortOrder = 1, rel_latest = False\<rparr>"

definition demo_artifact :: "nat \<Rightarrow> ArtifactTypeEnum \<Rightarrow> string \<Rightarrow> nat option \<Rightarrow> ReleaseArtifactEntity" where
  "demo_artifact i ty c fu =
     \<lparr>art_id = i, art_artifactName = None, art_type = ty, art_dockerImageUrl = None,
      art_isInstallationFile = True, art_metadata = [], art_release = c, art_fileUpload = fu,
      art_isExecutable = False, art_arguments = None, art_sbomScanId = None, art_enableSbomScan = True,
      art_sbomReportPath = None, art_packageVersion = None\<rparr>"

definition demo_file :: "nat \<Rightarrow> string \<Rightarrow> FileUPloadStatusEnum \<Rightarrow> FileUploadEntity" where
  "demo_file i k st =
     \<lparr>fu_id = i, fu_createdDate = 0, fu_fileName = k, fu_userId = ''release'', fu_objectKey = k,
      fu_status = st, fu_bucketName = ''main'', fu_size = None, fu_contentType = None, fu_uploadAt = None,
      fu_signature = None, fu_sha256 = None, fu_progress = 0, fu_error = None\<rparr>"

lemmas demo_defs = demo_env_def empty_db_def empty_store_def demo_release_def demo_artifact_def demo_file_def

end
