(* ===== verification/File_Upload.thy ===== *)
theory File_Upload
  imports Entities
begin

text \<open>
  \<open>apps/upload/src/file-upload.service.ts\<close>: upload and download URLs, the status of uploads as
  the bucket reports it, SBOM scans, the import of a file from a URL and the routines that
  compare the tables with the bucket. The class emits \<open>fileCreated\<close> and \<open>fileDeleted\<close> to the
  release service; the handlers run as pending calls. The progress written while a download
  is running is left out: those writes are not awaited and save the same entity that the
  final writes save.
\<close>

section \<open>Keys and URLs\<close>

definition OBJECT_PREFIX :: string where
  "OBJECT_PREFIX = ''upload/''"

definition safe_char :: "char \<Rightarrow> bool" where
  "safe_char c \<longleftrightarrow>
     (let n = (of_char c :: nat) in
      48 \<le> n \<and> n \<le> 57 \<or> 65 \<le> n \<and> n \<le> 90 \<or> 97 \<le> n \<and> n \<le> 122 \<or>
      c = CHR ''.'' \<or> c = CHR ''_'' \<or> c = CHR ''-'')"

definition sanitize :: "string \<Rightarrow> string" where
  "sanitize s = map (\<lambda>c. if safe_char c then c else CHR ''_'') s"

definition ends_with_slash :: "string \<Rightarrow> bool" where
  "ends_with_slash s \<longleftrightarrow> s \<noteq> [] \<and> last s = CHR ''/''"

record CreateFileUploadUrlDto =
  cf_userId :: string
  cf_fileName :: string
  cf_objectKey :: "string option"
  cf_enableSbomScan :: "bool option"

record FileUploadUrlDto =
  fd_id :: nat
  fd_url :: string
  fd_objectKey :: string

definition createObjectKey :: "CreateFileUploadUrlDto \<Rightarrow> string" where
  "createObjectKey dto =
     (case cf_objectKey dto of
        Some k \<Rightarrow>
          if k \<noteq> [] then
            OBJECT_PREFIX @ cf_userId dto @ ''/'' @ k @ (if ends_with_slash k then [] else ''/'') @ cf_fileName dto
          else OBJECT_PREFIX @ cf_userId dto @ ''/'' @ sanitize (cf_fileName dto)
      | None \<Rightarrow> OBJECT_PREFIX @ cf_userId dto @ ''/'' @ sanitize (cf_fileName dto))"

definition new_upload :: "nat \<Rightarrow> nat \<Rightarrow> string \<Rightarrow> string \<Rightarrow> string \<Rightarrow> string \<Rightarrow> FileUploadEntity" where
  "new_upload i now user name1 key b =
     \<lparr>fu_id = i, fu_createdDate = now, fu_fileName = name1, fu_userId = user, fu_objectKey = key,
      fu_status = FileUPloadStatusEnum.PENDING, fu_bucketName = b, fu_size = None, fu_contentType = None,
      fu_uploadAt = None, fu_signature = None, fu_sha256 = None, fu_progress = 0, fu_error = None\<rparr>"

text \<open>The row is upserted on its object key; the columns the entity leaves undefined keep their value.\<close>

definition upsert_upload :: "env \<Rightarrow> CreateFileUploadUrlDto \<Rightarrow> string \<Rightarrow> db \<Rightarrow> nat \<times> db" where
  "upsert_upload E dto key s =
     (case upload_by_key s key of
        Some f \<Rightarrow>
          (fu_id f, update_uploads (\<lambda>g. fu_objectKey g = key)
             (\<lambda>g. g\<lparr>fu_userId := cf_userId dto, fu_fileName := cf_fileName dto,
                   fu_bucketName := BUCKET_NAME E\<rparr>) s)
      | None \<Rightarrow>
          (next_id s, s\<lparr>uploads := uploads s @
             [new_upload (next_id s) (clock s) (cf_userId dto) (cf_fileName dto) key (BUCKET_NAME E)],
             next_id := Suc (next_id s)\<rparr>))"

definition createFileUploadUrl :: "env \<Rightarrow> CreateFileUploadUrlDto \<Rightarrow> db \<Rightarrow> FileUploadUrlDto result \<times> db" where
  "createFileUploadUrl E dto s =
     (let objectKey = createObjectKey dto;
          flag = (case cf_enableSbomScan dto of None \<Rightarrow> True | Some b \<Rightarrow> b);
          s1 = s\<lparr>sbomScanFlags := alist_put objectKey flag (sbomScanFlags s)\<rparr>
      in (case presignedPutObject E (BUCKET_NAME E) objectKey of
            Inl e \<Rightarrow> (Inl e, s1)
          | Inr signedUrl \<Rightarrow>
              let (i, s2) = upsert_upload E dto objectKey s1
              in (Inr \<lparr>fd_id = i, fd_url = signedUrl, fd_objectKey = objectKey\<rparr>, s2)))"

text \<open>A missing row is \<open>null\<close>, and reading a property of it is a \<open>TypeError\<close>.\<close>

definition getFileUploadUrl :: "env \<Rightarrow> string \<Rightarrow> db \<Rightarrow> FileUploadUrlDto result" where
  "getFileUploadUrl E objectKey s =
     (case upload_by_key s objectKey of
        None \<Rightarrow> Inl ErrorException
      | Some file \<Rightarrow>
          if fu_status file = FileUPloadStatusEnum.UPLOADED then Inl ForbiddenException
          else (case presignedPutObject E (BUCKET_NAME E) (fu_objectKey file) of
              Inl e \<Rightarrow> Inl e
            | Inr url \<Rightarrow> Inr \<lparr>fd_id = fu_id file, fd_url = url, fd_objectKey = fu_objectKey file\<rparr>))"

definition getFileDownloadUrl :: "env \<Rightarrow> nat \<Rightarrow> db \<Rightarrow> string result" where
  "getFileDownloadUrl E i s =
     (case upload_by_id s i of
        None \<Rightarrow> Inl ErrorException
      | Some file \<Rightarrow> presignedGetObject E (BUCKET_NAME E) (fu_objectKey file))"

definition getFileStream :: "env \<Rightarrow> nat \<Rightarrow> db \<Rightarrow> string result" where
  "getFileStream E i s =
     (case upload_by_id s i of
        None \<Rightarrow> Inl ErrorException
      | Some file \<Rightarrow> getObject (bucket s) (BUCKET_NAME E) (fu_objectKey file))"

definition getFilesByIds :: "nat list \<Rightarrow> db \<Rightarrow> FileUploadEntity list" where
  "getFilesByIds ids s = filter (\<lambda>f. fu_id f \<in> set ids) (uploads s)"

definition areFilesUploaded :: "nat list \<Rightarrow> db \<Rightarrow> bool" where
  "areFilesUploaded ids s =
     (length (filter (\<lambda>f. fu_id f \<in> set ids \<and> fu_status f = FileUPloadStatusEnum.UPLOADED) (uploads s))
      = length ids)"

section \<open>The bucket as the truth about uploads\<close>

definition STORAGE_MISSING_ERROR_PREFIX :: string where
  "STORAGE_MISSING_ERROR_PREFIX = ''[storage-sync] ''"

definition missing_error :: string where
  "missing_error = STORAGE_MISSING_ERROR_PREFIX @ ''File not found in object storage during sync check.''"

definition bucket_of :: "env \<Rightarrow> FileUploadEntity \<Rightarrow> string" where
  "bucket_of E f = (if fu_bucketName f = [] then BUCKET_NAME E else fu_bucketName f)"

definition in_bucket :: "env \<Rightarrow> db \<Rightarrow> FileUploadEntity \<Rightarrow> bool" where
  "in_bucket E s f \<longleftrightarrow> stat_or_null (bucket s) (bucket_of E f) (fu_objectKey f) \<noteq> None"

definition mark_removed :: "FileUploadEntity \<Rightarrow> FileUploadEntity" where
  "mark_removed f = f\<lparr>fu_status := FileUPloadStatusEnum.REMOVED, fu_progress := 0, fu_error := Some missing_error\<rparr>"

fun sync_files :: "env \<Rightarrow> FileUploadEntity list \<Rightarrow> bool \<Rightarrow> db \<Rightarrow> bool \<times> db" where
  "sync_files E [] anyMissing s = (anyMissing, s)"
| "sync_files E (f # fs) anyMissing s =
     (if in_bucket E s f then sync_files E fs anyMissing s
      else sync_files E fs True
        (if fu_status f \<noteq> FileUPloadStatusEnum.REMOVED
         then update_uploads (\<lambda>g. fu_id g = fu_id f) mark_removed s else s))"

definition syncAndCheckMissingFiles :: "env \<Rightarrow> nat list \<Rightarrow> db \<Rightarrow> bool \<times> db" where
  "syncAndCheckMissingFiles E ids s =
     (if ids = [] then (False, s) else sync_files E (getFilesByIds ids s) False s)"

definition removeFile :: "env \<Rightarrow> nat \<Rightarrow> db \<Rightarrow> unit result \<times> db" where
  "removeFile E i s =
     (case upload_by_id s i of
        None \<Rightarrow> (Inr (), s)
      | Some file \<Rightarrow>
          let s1 = (if fu_status file = FileUPloadStatusEnum.UPLOADED
                    then s\<lparr>bucket := deleteObjects (bucket s) (BUCKET_NAME E) [fu_objectKey file]\<rparr> else s);
              r = (if fu_status file = FileUPloadStatusEnum.UPLOADED
                   then deleteObjects_result (bucket s) (BUCKET_NAME E) [fu_objectKey file] else Inr ())
          in (case r of
                Inl e \<Rightarrow> (Inl e, s1)
              | Inr _ \<Rightarrow> (Inr (), update_uploads (\<lambda>g. fu_id g = i)
                                  (\<lambda>g. g\<lparr>fu_status := FileUPloadStatusEnum.REMOVED\<rparr>) s1)))"

text \<open>An artifact that still refers to the row makes the delete fail.\<close>

definition deleteItemRow :: "nat \<Rightarrow> db \<Rightarrow> unit result \<times> db" where
  "deleteItemRow i s =
     (if list_ex (\<lambda>a. art_fileUpload a = Some i) (artifacts s) \<and> upload_by_id s i \<noteq> None
      then (Inl ErrorException, s)
      else (Inr (), s\<lparr>uploads := delete_where (\<lambda>f. fu_id f = i) (uploads s)\<rparr>))"

section \<open>Updates of an upload\<close>

definition apply_dto :: "UpdateFileUploadDto \<Rightarrow> FileUploadEntity \<Rightarrow> FileUploadEntity" where
  "apply_dto dto f =
     f\<lparr>fu_status := (case uf_status dto of None \<Rightarrow> fu_status f | Some x \<Rightarrow> x),
       fu_size := (case uf_size dto of None \<Rightarrow> fu_size f | Some x \<Rightarrow> Some x),
       fu_contentType := (case uf_contentType dto of None \<Rightarrow> fu_contentType f | Some x \<Rightarrow> Some x),
       fu_uploadAt := (case uf_uploadAt dto of None \<Rightarrow> fu_uploadAt f | Some x \<Rightarrow> Some x)\<rparr>"

definition updateUploadFile :: "env \<Rightarrow> UpdateFileUploadDto \<Rightarrow> db \<Rightarrow> nat result \<times> db" where
  "updateUploadFile E file s =
     (let key = uf_objectKey file; up = (uf_status file = Some FileUPloadStatusEnum.UPLOADED) in
      if key = [] then (Inr 0, s)
      else if up \<and> upload_by_key s key = None then (Inl ErrorException, s)
      else
        let existing = the (upload_by_key s key);
            needsSha256 = (fu_sha256 existing = None \<or> fu_sha256 existing = Some []);
            needsCosign = COSIGN_DO_SIGN_FILES E;
            s1 = (if up \<and> (needsSha256 \<or> needsCosign)
                  then add_tasks [ProcessAndSaveFile key needsSha256 needsCosign] s else s);
            n = affected (\<lambda>f. fu_objectKey f = key) (uploads s1);
            s2 = update_uploads (\<lambda>f. fu_objectKey f = key) (apply_dto file) s1
        in if n = 0 then (Inr 0, s2)
           else if up then
             let enableSbomScan = (case map_of (sbomScanFlags s2) key of None \<Rightarrow> True | Some b \<Rightarrow> b);
                 s3 = s2\<lparr>sbomScanFlags := alist_del key (sbomScanFlags s2)\<rparr>
             in (Inr n, add_tasks ([OnFileCreate key] @
                   (if enableSbomScan then [TriggerSbomScanAndSaveScanId key] else [])) s3)
           else if uf_status file = Some FileUPloadStatusEnum.REMOVED
           then (Inr n, add_tasks [OnFileDelete key] s2)
           else (Inr n, s2))"

section \<open>Notifications of the bucket\<close>

record notification =
  nt_eventName :: string
  nt_key :: string
  nt_size :: "nat option"
  nt_contentType :: "string option"
  nt_eventTime :: "nat option"

definition handle_notification :: "env \<Rightarrow> notification \<Rightarrow> db \<Rightarrow> unit result \<times> db" where
  "handle_notification E rec s =
     (if starts_with ''s3:ObjectCreated:'' (nt_eventName rec) then
        (case updateUploadFile E \<lparr>uf_objectKey = nt_key rec, uf_status = Some FileUPloadStatusEnum.UPLOADED,
             uf_size = nt_size rec, uf_contentType = nt_contentType rec, uf_uploadAt = nt_eventTime rec\<rparr> s of
           (Inl e, s') \<Rightarrow> (Inl e, s') | (Inr _, s') \<Rightarrow> (Inr (), s'))
      else if starts_with ''s3:ObjectRemoved:'' (nt_eventName rec) then
        (case updateUploadFile E \<lparr>uf_objectKey = nt_key rec, uf_status = Some FileUPloadStatusEnum.REMOVED,
             uf_size = None, uf_contentType = None, uf_uploadAt = None\<rparr> s of
           (Inl e, s') \<Rightarrow> (Inl e, s') | (Inr _, s') \<Rightarrow> (Inr (), s'))
      else (Inr (), s))"

text \<open>The poller handles its records until one of them throws; it then stops.\<close>

fun listenToObjectsEvents :: "env \<Rightarrow> notification list \<Rightarrow> db \<Rightarrow> unit result \<times> db" where
  "listenToObjectsEvents E [] s = (Inr (), s)"
| "listenToObjectsEvents E (rec # recs) s =
     (case handle_notification E rec s of
        (Inl e, s') \<Rightarrow> (Inl e, s')
      | (Inr _, s') \<Rightarrow> listenToObjectsEvents E recs s')"

section \<open>SBOM scans\<close>

definition save_scan_id :: "(ReleaseArtifactEntity \<Rightarrow> bool) \<Rightarrow> string \<Rightarrow> db \<Rightarrow> db" where
  "save_scan_id P scanId s = update_artifacts P (\<lambda>a. a\<lparr>art_sbomScanId := Some scanId\<rparr>) s"

definition triggerSbomScanAndSaveScanId :: "env \<Rightarrow> string \<Rightarrow> db \<Rightarrow> unit result \<times> db" where
  "triggerSbomScanAndSaveScanId E objectKey s =
     (case sbom_scan_request E objectKey of
        Inl e \<Rightarrow> (Inl e, s)
      | Inr None \<Rightarrow> (Inr (), s)
      | Inr (Some scanId) \<Rightarrow>
          if scanId = [] then (Inr (), s)
          else (case upload_by_key s objectKey of
              None \<Rightarrow> (Inl ErrorException, s)
            | Some file \<Rightarrow> (Inr (), save_scan_id (\<lambda>a. art_fileUpload a = Some (fu_id file)) scanId s)))"

definition triggerDockerSbomScan :: "env \<Rightarrow> string \<Rightarrow> nat \<Rightarrow> db \<Rightarrow> unit result \<times> db" where
  "triggerDockerSbomScan E dockerImageUrl artifactId s =
     (case sbom_scan_request E dockerImageUrl of
        Inl e \<Rightarrow> (Inl e, s)
      | Inr None \<Rightarrow> (Inr (), s)
      | Inr (Some scanId) \<Rightarrow>
          if scanId = [] then (Inr (), s)
          else (Inr (), save_scan_id (\<lambda>a. art_id a = artifactId) scanId s))"

definition triggerSbomScanDelete :: "string \<Rightarrow> db \<Rightarrow> db" where
  "triggerSbomScanDelete scanId s = emit_message (DELETE_SCAN scanId) s"

section \<open>Digest and signature of an uploaded file\<close>

definition apply_processing :: "processing_result \<Rightarrow> FileUploadEntity \<Rightarrow> FileUploadEntity" where
  "apply_processing r f =
     f\<lparr>fu_sha256 := (case res_sha256 r of Some h \<Rightarrow> if h = [] then fu_sha256 f else Some h | None \<Rightarrow> fu_sha256 f),
       fu_signature := (case res_cosignSignature r of Some g \<Rightarrow> Some g | None \<Rightarrow> fu_signature f),
       fu_progress := 100\<rparr>"

definition processAndSaveFile :: "env \<Rightarrow> string \<Rightarrow> bool \<Rightarrow> bool \<Rightarrow> db \<Rightarrow> unit result \<times> db" where
  "processAndSaveFile E objectKey calculateSha256 calculateCosign s =
     (case upload_by_key s objectKey of
        None \<Rightarrow> (Inr (), s)
      | Some file \<Rightarrow>
          (case getObject (bucket s) (BUCKET_NAME E) objectKey of
             Inl e \<Rightarrow> (Inl e, s)
           | Inr content \<Rightarrow>
               (case processFile (sha256_hex E) (cosign_sign E) content (Some calculateSha256) (Some calculateCosign) of
                  Inl e \<Rightarrow> (Inl e, s)
                | Inr r \<Rightarrow>
                    let s1 = update_uploads (\<lambda>f. fu_id f = fu_id file) (apply_processing r) s
                    in (Inr (), if res_sha256 r \<noteq> None \<and> res_sha256 r \<noteq> Some []
                                then add_tasks [OnFileCreate objectKey] s1 else s1))))"

section \<open>Import of a file from a URL\<close>

text \<open>\<open>save\<close> of an entity with an id: its row is overwritten, or inserted when there is none.\<close>

definition save_upload :: "FileUploadEntity \<Rightarrow> db \<Rightarrow> db" where
  "save_upload f s = s\<lparr>uploads := upsert_row (\<lambda>g. fu_id g = fu_id f) (\<lambda>_. f) f (uploads s)\<rparr>"

text \<open>\<open>parseInt(headers['content-length'] || '0', 10)\<close>.\<close>

definition content_length :: "http_response \<Rightarrow> jsnum" where
  "content_length r =
     js_parseInt (case hr_contentLength r of None \<Rightarrow> ''0'' | Some h \<Rightarrow> if h = [] then ''0'' else h)"

text \<open>
  \<open>stats?.size || totalSize\<close>; a \<open>NaN\<close> cannot be stored in the column, so the save fails, and
  the save of the \<open>catch\<close> block fails with it.
\<close>

definition final_size :: "s3_object option \<Rightarrow> jsnum \<Rightarrow> nat option" where
  "final_size stats totalSize =
     (case stats of
        Some o1 \<Rightarrow> if obj_content o1 \<noteq> [] then Some (length (obj_content o1))
                   else (case totalSize of Fin q \<Rightarrow> Some (nat \<lfloor>q\<rfloor>) | _ \<Rightarrow> None)
      | None \<Rightarrow> (case totalSize of Fin q \<Rightarrow> Some (nat \<lfloor>q\<rfloor>) | _ \<Rightarrow> None))"

definition failed_upload :: "env \<Rightarrow> exn \<Rightarrow> FileUploadEntity \<Rightarrow> db \<Rightarrow> unit result \<times> db" where
  "failed_upload E e f s =
     (Inl BadRequestException,
      save_upload (f\<lparr>fu_status := FileUPloadStatusEnum.ERROR, fu_error := Some (exn_message E e)\<rparr>) s)"

definition uploadFileFromUrl ::
  "env \<Rightarrow> FileUploadEntity \<Rightarrow> string \<Rightarrow> string option \<Rightarrow> db \<Rightarrow> unit result \<times> db" where
  "uploadFileFromUrl E fileUpload downloadUrl expectedSha256 s =
     (let f0 = fileUpload\<lparr>fu_status := FileUPloadStatusEnum.UPLOADING, fu_progress := 0\<rparr>;
          s0 = save_upload f0 s;
          b = fu_bucketName f0; k = fu_objectKey f0
      in (case http_get E downloadUrl of
            Inl e \<Rightarrow> failed_upload E e f0 s0
          | Inr response \<Rightarrow>
              (case putObject_result (bucket s0) b k of
                 Inl e \<Rightarrow> failed_upload E e f0 s0
               | Inr _ \<Rightarrow>
                   let body = hr_body response;
                       s1 = s0\<lparr>bucket := putObject (bucket s0) b k
                              \<lparr>obj_content = body, obj_contentType = None, obj_lastModified = clock s0\<rparr>\<rparr>;
                       checksum = sha256_hex E body
                   in if (case expectedSha256 of None \<Rightarrow> False | Some x \<Rightarrow> x \<noteq> [] \<and> checksum \<noteq> x) then
                        (case deleteObjects_result (bucket s1) b [k] of
                           Inl e \<Rightarrow> failed_upload E e f0 (s1\<lparr>bucket := deleteObjects (bucket s1) b [k]\<rparr>)
                         | Inr _ \<Rightarrow>
                             let f1 = f0\<lparr>fu_status := FileUPloadStatusEnum.ERROR,
                                         fu_error := Some ''Checksum mismatch''\<rparr>;
                                 s2 = save_upload f1 (s1\<lparr>bucket := deleteObjects (bucket s1) b [k]\<rparr>)
                             in failed_upload E BadRequestException f1 s2)
                      else
                        (case getObjectStat (bucket s1) b k of
                           Inl e \<Rightarrow> failed_upload E e f0 s1
                         | Inr stats \<Rightarrow>
                             let f1 = f0\<lparr>fu_status := FileUPloadStatusEnum.UPLOADED,
                                   fu_size := final_size stats (content_length response),
                                   fu_uploadAt := Some (clock s1), fu_sha256 := Some checksum,
                                   fu_progress := 100\<rparr>
                             in if fu_size f1 = None then (Inl ErrorException, s1)
                                else (Inr (), save_upload f1 s1)))))"

section \<open>What the operations guarantee\<close>


definition demo_upload_dto :: CreateFileUploadUrlDto where
  "demo_upload_dto = \<lparr>cf_userId = ''bob'', cf_fileName = ''../x y'', cf_objectKey = None, cf_enableSbomScan = None\<rparr>"


lemma length_filter_ids:
  assumes "distinct (map key rows)" "distinct ids"
  shows "length (filter (\<lambda>r. key r \<in> set ids \<and> P r) rows) = length ids \<longleftrightarrow>
     (\<forall>i\<in>set ids. \<exists>r\<in>set rows. key r = i \<and> P r)"
proof -
  let ?F = "filter (\<lambda>r. key r \<in> set ids \<and> P r) rows"
  have d: "distinct (map key ?F)" using assms(1) by (simp add: distinct_map_filter)
  then have "length ?F = card (set (map key ?F))" by (metis distinct_card length_map)
  moreover have "length ids = card (set ids)" using assms(2) by (simp add: distinct_card)
  moreover have sub: "set (map key ?F) \<subseteq> set ids" by auto
  ultimately have "length ?F = length ids \<longleftrightarrow> set (map key ?F) = set ids"
    by (metis List.finite_set card_subset_eq)
  also have "\<dots> \<longleftrightarrow> set ids \<subseteq> set (map key ?F)" using sub by auto
  also have "\<dots> \<longleftrightarrow> (\<forall>i\<in>set ids. \<exists>r\<in>set rows. key r = i \<and> P r)" by auto
  finally show ?thesis .
qed

lemma in_bucket_update_uploads [simp]: "in_bucket E (update_uploads P g s) f = in_bucket E s f"
  by (simp add: in_bucket_def)

lemma mark_removed_simps [simp]:
  "fu_id (mark_removed f) = fu_id f" "fu_objectKey (mark_removed f) = fu_objectKey f"
  "fu_bucketName (mark_removed f) = fu_bucketName f" "mark_removed (mark_removed f) = mark_removed f"
  "fu_status (mark_removed f) = FileUPloadStatusEnum.REMOVED"
  by (simp_all add: mark_removed_def)

lemma sync_files_eq:
  "sync_files E fs m s =
     (m \<or> (\<exists>f\<in>set fs. \<not> in_bucket E s f),
      update_uploads (\<lambda>g. \<exists>f\<in>set fs. fu_id g = fu_id f \<and> \<not> in_bucket E s f \<and>
                          fu_status f \<noteq> FileUPloadStatusEnum.REMOVED) mark_removed s)"
proof (induction fs arbitrary: m s)
  case Nil
  then show ?case by (simp add: update_uploads_def)
next
  case (Cons f fs)
  show ?case
  proof (cases "in_bucket E s f \<or> fu_status f = FileUPloadStatusEnum.REMOVED")
    case True
    then show ?thesis using Cons [of _ s] by auto
  next
    case False
    let ?s = "update_uploads (\<lambda>g. fu_id g = fu_id f) mark_removed s"
    have "sync_files E (f # fs) m s = sync_files E fs True ?s" using False by simp
    also have "\<dots> = (True, update_uploads (\<lambda>g. \<exists>f\<in>set fs. fu_id g = fu_id f \<and> \<not> in_bucket E s f \<and>
                          fu_status f \<noteq> FileUPloadStatusEnum.REMOVED) mark_removed ?s)"
      by (simp add: Cons)
    also have "\<dots> = (True, update_uploads (\<lambda>g. (\<exists>f\<in>set fs. fu_id g = fu_id f \<and> \<not> in_bucket E s f \<and>
                          fu_status f \<noteq> FileUPloadStatusEnum.REMOVED) \<or> fu_id g = fu_id f) mark_removed s)"
      by (simp add: update_uploads_def update_where_compose)
    finally show ?thesis using False by (auto intro!: arg_cong [where f = "\<lambda>P. update_uploads P mark_removed s"])
  qed
qed

definition missing_ids :: "env \<Rightarrow> nat list \<Rightarrow> db \<Rightarrow> FileUploadEntity \<Rightarrow> bool" where
  "missing_ids E ids s f \<longleftrightarrow> fu_id f \<in> set ids \<and> \<not> in_bucket E s f"

lemma syncAndCheckMissingFiles_eq:
  assumes "distinct (map fu_id (uploads s))"
  shows "syncAndCheckMissingFiles E ids s =
     (list_ex (missing_ids E ids s) (uploads s),
      update_uploads (\<lambda>g. missing_ids E ids s g \<and> fu_status g \<noteq> FileUPloadStatusEnum.REMOVED) mark_removed s)"
proof -
  let ?Q = "\<lambda>g. \<exists>f\<in>set (getFilesByIds ids s). fu_id g = fu_id f \<and> \<not> in_bucket E s f \<and>
                 fu_status f \<noteq> FileUPloadStatusEnum.REMOVED"
  have "?Q g = (missing_ids E ids s g \<and> fu_status g \<noteq> FileUPloadStatusEnum.REMOVED)" if "g \<in> set (uploads s)" for g
    using that distinct_key_inj [OF assms that] by (auto simp: getFilesByIds_def missing_ids_def)
  then have "update_uploads ?Q mark_removed s =
     update_uploads (\<lambda>g. missing_ids E ids s g \<and> fu_status g \<noteq> FileUPloadStatusEnum.REMOVED) mark_removed s"
    using update_where_cong [of "uploads s" ?Q] by (simp add: update_uploads_def)
  moreover have "(\<exists>f\<in>set (getFilesByIds ids s). \<not> in_bucket E s f) = list_ex (missing_ids E ids s) (uploads s)"
    by (auto simp: getFilesByIds_def missing_ids_def list_ex_iff)
  moreover have "update_uploads (\<lambda>g. False) mark_removed s = s" by (simp add: update_uploads_def)
  ultimately show ?thesis
    by (cases "ids = []") (simp_all add: syncAndCheckMissingFiles_def sync_files_eq missing_ids_def list_ex_iff)
qed

text \<open>
  The check of the release state against the bucket reports a missing file exactly when one
  of the given uploads has no object, and it writes the missing ones, and only those, back as
  \<open>REMOVED\<close> with progress 0 and the storage error; every other row, table and pending call is
  untouched.
\<close>

theorem sync_check_missing_spec:
  assumes "schema_ok s" "syncAndCheckMissingFiles E ids s = (anyMissing, s')"
  shows "anyMissing = (\<exists>f\<in>set (uploads s). fu_id f \<in> set ids \<and> \<not> in_bucket E s f) \<and>
     s' = s\<lparr>uploads := map (\<lambda>f. if fu_id f \<in> set ids \<and> \<not> in_bucket E s f \<and>
                                     fu_status f \<noteq> FileUPloadStatusEnum.REMOVED
                                  then mark_removed f else f) (uploads s)\<rparr>"
proof -
  have "distinct (map fu_id (uploads s))" using assms(1) by (simp add: schema_ok_def)
  from assms(2) show ?thesis
    unfolding syncAndCheckMissingFiles_eq [OF \<open>distinct _\<close>]
    by (auto simp: update_uploads_def update_where_def missing_ids_def list_ex_iff)
qed

definition demo_bucket_db :: db where
  "demo_bucket_db = empty_db\<lparr>uploads := [demo_file 1 ''a'' FileUPloadStatusEnum.UPLOADED,
     demo_file 2 ''b'' FileUPloadStatusEnum.UPLOADED],
     bucket := putObject empty_store ''main'' ''a''
        \<lparr>obj_content = ''xyz'', obj_contentType = None, obj_lastModified = 0\<rparr>\<rparr>"

lemmas bucket_defs = in_bucket_def bucket_of_def stat_or_null_eq putObject_def

lemma sync_check_missing_spec_witness:
  "True = (\<exists>f\<in>set (uploads demo_bucket_db). fu_id f \<in> set [1, 2] \<and> \<not> in_bucket demo_env demo_bucket_db f) \<and>
   snd (syncAndCheckMissingFiles demo_env [1, 2] demo_bucket_db) =
     demo_bucket_db\<lparr>uploads := map (\<lambda>f. if fu_id f \<in> set [1, 2] \<and> \<not> in_bucket demo_env demo_bucket_db f \<and>
                                     fu_status f \<noteq> FileUPloadStatusEnum.REMOVED
                                  then mark_removed f else f) (uploads demo_bucket_db)\<rparr>"
proof (rule sync_check_missing_spec)
  show "schema_ok demo_bucket_db"
    by (simp add: schema_ok_def demo_bucket_db_def demo_defs)
  show "syncAndCheckMissingFiles demo_env [1, 2] demo_bucket_db =
     (True, snd (syncAndCheckMissingFiles demo_env [1, 2] demo_bucket_db))"
    by (simp add: syncAndCheckMissingFiles_def getFilesByIds_def bucket_defs demo_bucket_db_def demo_defs)
qed

text \<open>
  \<open>areFilesUploaded\<close> compares two counts; for distinct ids this is the intended question:
  every id is the id of an upload in status \<open>UPLOADED\<close>.
\<close>

theorem are_files_uploaded_spec:
  assumes "schema_ok s" "distinct ids"
  shows "areFilesUploaded ids s \<longleftrightarrow>
     (\<forall>i\<in>set ids. \<exists>f\<in>set (uploads s). fu_id f = i \<and> fu_status f = FileUPloadStatusEnum.UPLOADED)"
  using assms unfolding areFilesUploaded_def schema_ok_def by (intro length_filter_ids) auto

lemma are_files_uploaded_spec_witness:
  "areFilesUploaded [1, 2] demo_bucket_db \<and> \<not> areFilesUploaded [1, 3] demo_bucket_db"
  using are_files_uploaded_spec [of demo_bucket_db "[1, 2]"] are_files_uploaded_spec [of demo_bucket_db "[1, 3]"]
  by (simp add: schema_ok_def demo_bucket_db_def demo_defs)

section \<open>The imported file\<close>

lemma save_upload_in: "f \<in> set (uploads (save_upload f s))"
  by (auto simp: save_upload_def upsert_row_def set_update_where image_iff)

lemma save_upload_by_id: "upload_by_id (save_upload f s) (fu_id f) = Some f"
proof -
  have "List.find (\<lambda>g. fu_id g = fu_id f) (upsert_row (\<lambda>g. fu_id g = fu_id f) (\<lambda>_. f) f rows) = Some f" for rows
    unfolding upsert_row_def by (induction rows) (auto split: if_splits)
  then show ?thesis by (simp add: upload_by_id_def save_upload_def)
qed

lemma save_upload_by_id_eq [simp]: "fu_id f = i \<Longrightarrow> upload_by_id (save_upload f s) i = Some f"
  using save_upload_by_id by blast

lemma bucket_save_upload [simp]: "bucket (save_upload f s) = bucket s"
  by (simp add: save_upload_def)

text \<open>What an import that succeeds has done: the row went to \<open>UPLOADING\<close>, the bytes into the bucket, the row to \<open>UPLOADED\<close>.\<close>

lemma upload_success:
  assumes "uploadFileFromUrl E f url expected s = (Inr (), s')"
  shows "\<exists>resp f0 f1 o1. http_get E url = Inr resp \<and> fault (bucket s) (fu_bucketName f, fu_objectKey f) = None \<and>
     s' = save_upload f1 ((save_upload f0 s)\<lparr>bucket := putObject (bucket s) (fu_bucketName f) (fu_objectKey f) o1\<rparr>) \<and>
     obj_content o1 = hr_body resp \<and> fu_id f0 = fu_id f \<and> fu_id f1 = fu_id f \<and>
     fu_status f1 = FileUPloadStatusEnum.UPLOADED \<and> fu_objectKey f1 = fu_objectKey f \<and>
     fu_sha256 f1 = Some (sha256_hex E (hr_body resp)) \<and>
     (\<forall>x. expected = Some x \<longrightarrow> x \<noteq> [] \<longrightarrow> sha256_hex E (hr_body resp) = x)"
proof -
  define f0 where "f0 = f\<lparr>fu_status := FileUPloadStatusEnum.UPLOADING, fu_progress := 0\<rparr>"
  obtain resp where resp: "http_get E url = Inr resp"
    using assms by (auto simp: uploadFileFromUrl_def Let_def failed_upload_def split: sum.splits)
  define o1 where "o1 = \<lparr>obj_content = hr_body resp, obj_contentType = None, obj_lastModified = clock (save_upload f0 s)\<rparr>"
  have ok: "fault (bucket s) (fu_bucketName f, fu_objectKey f) = None"
    using assms resp
    by (auto simp: uploadFileFromUrl_def Let_def failed_upload_def putObject_result_def split: if_splits)
  have chk: "\<not> (case expected of None \<Rightarrow> False | Some x \<Rightarrow> x \<noteq> [] \<and> sha256_hex E (hr_body resp) \<noteq> x)"
    using assms resp ok
    by (auto simp: uploadFileFromUrl_def Let_def failed_upload_def putObject_result_def
        split: if_splits sum.splits option.splits)
  define s1 where "s1 = (save_upload f0 s)\<lparr>bucket := putObject (bucket s) (fu_bucketName f) (fu_objectKey f) o1\<rparr>"
  define g where "g n = f\<lparr>fu_status := FileUPloadStatusEnum.UPLOADED, fu_size := n, fu_uploadAt := Some (clock s1),
     fu_sha256 := Some (sha256_hex E (hr_body resp)), fu_progress := 100\<rparr>" for n
  obtain n where "s' = save_upload (g n) s1"
    using assms resp ok chk
    by (auto simp: uploadFileFromUrl_def Let_def failed_upload_def putObject_result_def s1_def g_def f0_def o1_def
        split: if_splits sum.splits)
  then show ?thesis using resp ok chk unfolding s1_def
    by (intro exI [of _ resp] exI [of _ f0] exI [of _ "g n"] exI [of _ o1])
      (auto simp: g_def f0_def o1_def split: option.splits)
qed

text \<open>
  C9. An import that succeeds leaves the downloaded bytes in the bucket under the file's key and
  the row as \<open>UPLOADED\<close> with the digest of exactly those bytes, which is the expected digest
  if one was given.
\<close>

theorem import_success_integrity:
  assumes "uploadFileFromUrl E f url expected s = (Inr (), s')"
  shows "\<exists>resp o1 f'. http_get E url = Inr resp \<and>
     stat_or_null (bucket s') (fu_bucketName f) (fu_objectKey f) = Some o1 \<and> obj_content o1 = hr_body resp \<and>
     upload_by_id s' (fu_id f) = Some f' \<and> fu_status f' = FileUPloadStatusEnum.UPLOADED \<and>
     fu_objectKey f' = fu_objectKey f \<and> fu_sha256 f' = Some (sha256_hex E (obj_content o1)) \<and>
     (\<forall>x. expected = Some x \<longrightarrow> x \<noteq> [] \<longrightarrow> sha256_hex E (obj_content o1) = x)"
proof -
  obtain resp f0 f1 o1 where up: "http_get E url = Inr resp" "fault (bucket s) (fu_bucketName f, fu_objectKey f) = None"
      "s' = save_upload f1 ((save_upload f0 s)\<lparr>bucket := putObject (bucket s) (fu_bucketName f) (fu_objectKey f) o1\<rparr>)"
      "obj_content o1 = hr_body resp" "fu_id f1 = fu_id f" "fu_status f1 = FileUPloadStatusEnum.UPLOADED"
      "fu_objectKey f1 = fu_objectKey f" "fu_sha256 f1 = Some (sha256_hex E (hr_body resp))"
      "\<forall>x. expected = Some x \<longrightarrow> x \<noteq> [] \<longrightarrow> sha256_hex E (hr_body resp) = x"
    using upload_success [OF assms] by blast
  then have "stat_or_null (bucket s') (fu_bucketName f) (fu_objectKey f) = Some o1"
    and "upload_by_id s' (fu_id f) = Some f1" by (simp_all add: stat_put)
  with up show ?thesis by metis
qed

lemma import_success_integrity_witness:
  "\<exists>resp o1 f'. http_get demo_env ''url'' = Inr resp \<and>
     stat_or_null (bucket (snd (uploadFileFromUrl demo_env (demo_file 1 ''a'' FileUPloadStatusEnum.PENDING)
        ''url'' (Some ''hurl'') empty_db))) ''main'' ''a'' = Some o1 \<and> obj_content o1 = hr_body resp"
proof -
  have "uploadFileFromUrl demo_env (demo_file 1 ''a'' FileUPloadStatusEnum.PENDING) ''url'' (Some ''hurl'') empty_db =
    (Inr (), snd (uploadFileFromUrl demo_env (demo_file 1 ''a'' FileUPloadStatusEnum.PENDING) ''url''
       (Some ''hurl'') empty_db))"
    by (simp add: uploadFileFromUrl_def Let_def demo_defs putObject_result_def getObjectStat_def statObject_def
        final_size_def save_upload_def putObject_def)
  from import_success_integrity [OF this] show ?thesis by (auto simp: demo_file_def)
qed

text \<open>
  C10. When the digest of the downloaded bytes is not the expected one, the import throws, the row
  is in \<open>ERROR\<close> and the bucket has no object under the key.
\<close>

theorem import_checksum_mismatch:
  assumes "http_get E url = Inr resp" "x \<noteq> []" "sha256_hex E (hr_body resp) \<noteq> x"
    and "fault (bucket s) (fu_bucketName f, fu_objectKey f) = None"
  shows "fst (uploadFileFromUrl E f url (Some x) s) = Inl BadRequestException \<and>
     (\<exists>f'. upload_by_id (snd (uploadFileFromUrl E f url (Some x) s)) (fu_id f) = Some f' \<and>
           fu_status f' = FileUPloadStatusEnum.ERROR) \<and>
     stat_or_null (bucket (snd (uploadFileFromUrl E f url (Some x) s))) (fu_bucketName f) (fu_objectKey f) = None"
  using assms
  by (simp add: uploadFileFromUrl_def Let_def failed_upload_def putObject_result_def deleteObjects_result_def
      stat_deleted)

lemma import_checksum_mismatch_witness:
  "fst (uploadFileFromUrl demo_env (demo_file 1 ''a'' FileUPloadStatusEnum.PENDING) ''url'' (Some ''h'') empty_db)
     = Inl BadRequestException"
  using import_checksum_mismatch [of demo_env "''url''" "\<lparr>hr_contentLength = None, hr_body = ''url''\<rparr>" "''h''"
      empty_db "demo_file 1 ''a'' FileUPloadStatusEnum.PENDING"]
  by (simp add: demo_defs)

end
