(* ===== verification/Storage_Sync.thy ===== *)
theory Storage_Sync
  imports File_Upload
begin

text \<open>
  The routines of \<open>apps/upload/src/file-upload.service.ts\<close> that compare the tables with the
  bucket: the recovery of a release in \<open>ERROR\<close>, the check of every file artifact, and the pass
  over the uploads that never reported back.
\<close>

section \<open>Recovery of a release\<close>

definition has_storage_error :: "FileUploadEntity \<Rightarrow> bool" where
  "has_storage_error f =
     (case fu_error f of None \<Rightarrow> False | Some e \<Rightarrow> starts_with STORAGE_MISSING_ERROR_PREFIX e)"

definition file_healthy :: "db \<Rightarrow> ReleaseArtifactEntity \<Rightarrow> bool" where
  "file_healthy s a =
     (case artifact_upload s a of
        None \<Rightarrow> True
      | Some f \<Rightarrow> fu_status f = FileUPloadStatusEnum.UPLOADED \<and> \<not> has_storage_error f)"

definition all_files_healthy :: "db \<Rightarrow> string \<Rightarrow> bool" where
  "all_files_healthy s catalogId =
     list_all (file_healthy s) (filter (\<lambda>a. art_type a = FILE) (artifacts_of s catalogId))"

definition maybeRestoreReleasedStatus :: "string \<Rightarrow> db \<Rightarrow> db" where
  "maybeRestoreReleasedStatus catalogId s =
     (case release_by_catalog s catalogId of
        None \<Rightarrow> s
      | Some release \<Rightarrow>
          if (rel_status release \<noteq> ReleaseStatusEnum.ERROR \<and> rel_status release \<noteq> IN_REVIEW) \<or>
             rel_releasedAt release = None then s
          else if all_files_healthy s catalogId then
            update_releases (\<lambda>r. rel_catalogId r = catalogId) (\<lambda>r. r\<lparr>rel_status := RELEASED\<rparr>) s
          else s)"

section \<open>The check of every file artifact\<close>

text \<open>
  The rows are read once, before the batches: the status of the upload and of the release that
  decide what happens to an artifact are those of that moment. The digest of a restored object
  is computed anew; \<open>None\<close> stands for \<open>null\<close>, when it cannot be.
\<close>

type_synonym snapshot = "ReleaseArtifactEntity \<times> FileUploadEntity \<times> ReleaseEntity"

definition sync_snapshot :: "db \<Rightarrow> snapshot list" where
  "sync_snapshot s =
     concat (map (\<lambda>a. case (artifact_upload s a, release_by_catalog s (art_release a)) of
          (Some f, Some r) \<Rightarrow>
            if fu_status f = FileUPloadStatusEnum.UPLOADED \<or> fu_status f = FileUPloadStatusEnum.REMOVED
            then [(a, f, r)] else []
        | _ \<Rightarrow> []) (filter (\<lambda>a. art_type a = FILE) (artifacts s)))"

definition current_sha :: "env \<Rightarrow> db \<Rightarrow> FileUploadEntity \<Rightarrow> string option" where
  "current_sha E s f =
     (case calculateSha256FromBucket (sha256_hex E) (cosign_sign E) (bucket s) (bucket_of E f) (fu_objectKey f) of
        Inl _ \<Rightarrow> None | Inr h \<Rightarrow> Some h)"

definition sha_mismatch :: "env \<Rightarrow> db \<Rightarrow> FileUploadEntity \<Rightarrow> bool" where
  "sha_mismatch E s f =
     (case fu_sha256 f of None \<Rightarrow> False | Some h \<Rightarrow> h \<noteq> [] \<and> current_sha E s f \<noteq> Some h)"

definition mark_restored :: "FileUploadEntity \<Rightarrow> FileUploadEntity" where
  "mark_restored g = g\<lparr>fu_status := FileUPloadStatusEnum.UPLOADED, fu_error := None, fu_progress := 100\<rparr>"

definition sync_artifact :: "env \<Rightarrow> snapshot \<Rightarrow> db \<times> string list \<Rightarrow> db \<times> string list" where
  "sync_artifact E t acc =
     (let (a, f, r) = t; (s, recheck) = acc; present = in_bucket E s f in
      if \<not> present \<and> fu_status f = FileUPloadStatusEnum.UPLOADED then
        let s1 = update_uploads (\<lambda>g. fu_id g = fu_id f) mark_removed s
        in (if rel_status r = RELEASED
            then update_releases (\<lambda>x. rel_catalogId x = rel_catalogId r)
                   (\<lambda>x. x\<lparr>rel_status := ReleaseStatusEnum.ERROR\<rparr>) s1
            else s1, recheck)
      else if present \<and> fu_status f = FileUPloadStatusEnum.REMOVED then
        if sha_mismatch E s f then (s, recheck)
        else
          (update_uploads (\<lambda>g. fu_id g = fu_id f) mark_restored s,
           if rel_releasedAt r \<noteq> None \<and> rel_status r = ReleaseStatusEnum.ERROR
           then recheck @ [rel_catalogId r] else recheck)
      else (s, recheck))"

definition sync_batch :: "env \<Rightarrow> snapshot list \<Rightarrow> db \<Rightarrow> db" where
  "sync_batch E batch s =
     (let (s1, recheck) = fold (sync_artifact E) batch (s, [])
      in fold maybeRestoreReleasedStatus (js_unique recheck) s1)"

function batches :: "nat \<Rightarrow> 'a list \<Rightarrow> 'a list list" where
  "batches n xs = (if n = 0 \<or> xs = [] then [] else take n xs # batches n (drop n xs))"
  by pat_completeness auto
termination by (relation "measure (\<lambda>(n, xs). length xs)") auto

declare batches.simps [simp del]

lemma concat_batches: "0 < n \<Longrightarrow> concat (batches n xs) = xs"
  by (induction n xs rule: batches.induct) (subst batches.simps, auto)

definition syncArtifactsStorageStatus :: "env \<Rightarrow> db \<Rightarrow> db" where
  "syncArtifactsStorageStatus E s = fold (sync_batch E) (batches 10 (sync_snapshot s)) s"

section \<open>Uploads that never reported back\<close>

text \<open>
  The pending uploads, newest first, in pages of ten, and in each page in groups of five. What
  has an object is updated by calls nobody awaits; what has none and is older than the
  presigned URL lives becomes \<open>ERROR\<close>. Times are in milliseconds.
\<close>

definition expire_seconds :: "env \<Rightarrow> nat" where
  "expire_seconds E = (case UPLOAD_URL_EXPIRE E of None \<Rightarrow> 3600 | Some n \<Rightarrow> if n = 0 then 3600 else n)"

definition pending_files :: "nat \<Rightarrow> db \<Rightarrow> FileUploadEntity list" where
  "pending_files now s =
     rev (sort_key fu_createdDate
       (filter (\<lambda>f. fu_status f = FileUPloadStatusEnum.PENDING \<and> fu_createdDate f \<le> now) (uploads s)))"

definition stat_default :: "env \<Rightarrow> db \<Rightarrow> FileUploadEntity \<Rightarrow> s3_object option" where
  "stat_default E s f = stat_or_null (bucket s) (BUCKET_NAME E) (fu_objectKey f)"

definition stats_dto :: "FileUploadEntity \<Rightarrow> s3_object \<Rightarrow> UpdateFileUploadDto" where
  "stats_dto f o1 =
     \<lparr>uf_objectKey = fu_objectKey f, uf_status = Some FileUPloadStatusEnum.UPLOADED,
      uf_size = Some (length (obj_content o1)), uf_contentType = obj_contentType o1,
      uf_uploadAt = Some (obj_lastModified o1)\<rparr>"

definition is_stale :: "env \<Rightarrow> nat \<Rightarrow> db \<Rightarrow> FileUploadEntity \<Rightarrow> bool" where
  "is_stale E now s f \<longleftrightarrow>
     stat_default E s f = None \<and> fu_createdDate f + expire_seconds E * 1000 < now"

definition abandoned_error :: string where
  "abandoned_error = ''Upload never completed''"

definition mark_abandoned :: "FileUploadEntity \<Rightarrow> FileUploadEntity" where
  "mark_abandoned f = f\<lparr>fu_status := FileUPloadStatusEnum.ERROR, fu_error := Some abandoned_error\<rparr>"

definition sync_group :: "env \<Rightarrow> nat \<Rightarrow> FileUploadEntity list \<Rightarrow> db \<Rightarrow> db" where
  "sync_group E now batch s =
     (let found = concat (map (\<lambda>f. case stat_default E s f of
              None \<Rightarrow> [] | Some o1 \<Rightarrow> [UpdateUploadFile (stats_dto f o1)]) batch);
          stale = filter (is_stale E now s) batch
      in fold (\<lambda>f s. update_uploads (\<lambda>g. fu_objectKey g = fu_objectKey f) mark_abandoned s) stale
           (add_tasks found s))"

definition sync_page :: "env \<Rightarrow> nat \<Rightarrow> FileUploadEntity list \<Rightarrow> db \<Rightarrow> db" where
  "sync_page E now files s = fold (sync_group E now) (batches 5 files) s"

definition next_page :: "nat \<Rightarrow> nat \<Rightarrow> db \<Rightarrow> FileUploadEntity list" where
  "next_page now skip s = take 10 (drop skip (pending_files now s))"

lemma length_uploads_fold:
  "(\<And>x s. length (uploads (F x s)) = length (uploads s)) \<Longrightarrow>
   length (uploads (fold F xs s)) = length (uploads s)"
  by (induction xs arbitrary: s) auto

lemma length_uploads_sync_group [simp]: "length (uploads (sync_group E now fs s)) = length (uploads s)"
  by (simp add: sync_group_def Let_def length_uploads_fold)

lemma length_uploads_sync_page [simp]: "length (uploads (sync_page E now fs s)) = length (uploads s)"
  by (simp add: sync_page_def length_uploads_fold)

lemma length_pending_le: "length (pending_files now s) \<le> length (uploads s)"
  by (simp add: pending_files_def)

text \<open>\<open>skip\<close> grows by ten per page, so the loop ends when it has passed the rows there are.\<close>

function sync_pages :: "env \<Rightarrow> nat \<Rightarrow> nat \<Rightarrow> db \<Rightarrow> db" where
  "sync_pages E now skip s =
     (let files = next_page now skip s in
      if files = [] then s
      else if length files = 10 then sync_pages E now (skip + 10) (sync_page E now files s)
      else sync_page E now files s)"
  by pat_completeness auto
termination
proof (relation "measure (\<lambda>(E, now, skip, s). length (uploads s) - skip)", goal_cases)
  case (2 E now skip s files)
  then have "10 \<le> length (pending_files now s) - skip" by (simp add: next_page_def)
  then show ?case using length_pending_le [of now s] by simp
qed simp

declare sync_pages.simps [simp del]

definition syncUploadedFiles :: "env \<Rightarrow> db \<Rightarrow> db" where
  "syncUploadedFiles E s = sync_pages E (clock s) 0 s"

definition syncDB :: "env \<Rightarrow> db \<Rightarrow> db" where
  "syncDB E s = syncArtifactsStorageStatus E (syncUploadedFiles E s)"

section \<open>What the check of the artifacts may change\<close>

text \<open>What happens to the row of an upload: a function of the row and the bucket alone.\<close>

definition sync_row :: "env \<Rightarrow> db \<Rightarrow> FileUploadEntity \<Rightarrow> FileUploadEntity \<Rightarrow> FileUploadEntity" where
  "sync_row E s f =
     (if \<not> in_bucket E s f \<and> fu_status f = FileUPloadStatusEnum.UPLOADED then mark_removed
      else if in_bucket E s f \<and> fu_status f = FileUPloadStatusEnum.REMOVED \<and> \<not> sha_mismatch E s f
      then mark_restored else (\<lambda>g. g))"

lemma mark_restored_simps [simp]:
  "fu_id (mark_restored f) = fu_id f" "mark_restored (mark_restored f) = mark_restored f"
  "fu_status (mark_restored f) = FileUPloadStatusEnum.UPLOADED"
  by (simp_all add: mark_restored_def)

lemma sync_row_id [simp]: "fu_id (sync_row E s f g) = fu_id g"
  by (simp add: sync_row_def)

lemma sync_row_idem [simp]: "sync_row E s f (sync_row E s f g) = sync_row E s f g"
  by (simp add: sync_row_def)

lemma in_bucket_cong: "bucket s' = bucket s \<Longrightarrow> in_bucket E s' f = in_bucket E s f"
  by (simp add: in_bucket_def)

lemma sha_mismatch_cong: "bucket s' = bucket s \<Longrightarrow> sha_mismatch E s' f = sha_mismatch E s f"
  by (cases "fu_sha256 f") (simp_all add: sha_mismatch_def current_sha_def)

lemma sync_row_cong: "bucket s' = bucket s \<Longrightarrow> sync_row E s' f = sync_row E s f"
  unfolding sync_row_def using in_bucket_cong [of s' s E f] sha_mismatch_cong [of s' s E f] by simp

definition upload_step :: "env \<Rightarrow> db \<Rightarrow> snapshot \<Rightarrow> FileUploadEntity list \<Rightarrow> FileUploadEntity list" where
  "upload_step E s t rows = update_where (\<lambda>g. fu_id g = fu_id (fst (snd t))) (sync_row E s (fst (snd t))) rows"

lemma sync_artifact_uploads:
  "uploads (fst (sync_artifact E t (s, rc))) = upload_step E s t (uploads s)"
  "bucket (fst (sync_artifact E t (s, rc))) = bucket s"
  by (cases t; auto simp: sync_artifact_def Let_def upload_step_def sync_row_def intro: update_where_noop [symmetric])+

lemma maybeRestore_frame [simp]:
  "uploads (maybeRestoreReleasedStatus c s) = uploads s" "bucket (maybeRestoreReleasedStatus c s) = bucket s"
  "artifacts (maybeRestoreReleasedStatus c s) = artifacts s" "tasks (maybeRestoreReleasedStatus c s) = tasks s"
  "outbox (maybeRestoreReleasedStatus c s) = outbox s"
  by (auto simp: maybeRestoreReleasedStatus_def split: option.splits)

lemma fold_maybeRestore_frame [simp]:
  "uploads (fold maybeRestoreReleasedStatus cs s) = uploads s"
  "bucket (fold maybeRestoreReleasedStatus cs s) = bucket s"
  by (induction cs arbitrary: s) auto

lemma fold_sync_artifact_uploads:
  "bucket s = bucket s0 \<Longrightarrow>
   uploads (fst (fold (sync_artifact E) ts (s, rc))) = fold (upload_step E s0) ts (uploads s) \<and>
   bucket (fst (fold (sync_artifact E) ts (s, rc))) = bucket s0"
proof (induction ts arbitrary: s rc)
  case (Cons t ts)
  obtain s1 rc1 where s1: "sync_artifact E t (s, rc) = (s1, rc1)" by fastforce
  have "uploads s1 = upload_step E s t (uploads s)" "bucket s1 = bucket s"
    using sync_artifact_uploads [of E t s rc] s1 by auto
  moreover have "upload_step E s t = upload_step E s0 t"
    by (rule ext) (simp only: upload_step_def sync_row_cong [OF Cons.prems])
  ultimately show ?case using Cons.IH [of s1 rc1] Cons.prems s1 by simp
qed simp

lemma sync_batch_uploads:
  assumes "bucket s = bucket s0"
  shows "uploads (sync_batch E batch s) = fold (upload_step E s0) batch (uploads s) \<and>
         bucket (sync_batch E batch s) = bucket s0"
  using fold_sync_artifact_uploads [OF assms, of E batch "[]"]
  by (cases "fold (sync_artifact E) batch (s, [])") (simp add: sync_batch_def Let_def)

lemma fold_sync_batch_uploads:
  "bucket s = bucket s0 \<Longrightarrow>
   uploads (fold (sync_batch E) bs s) = fold (upload_step E s0) (concat bs) (uploads s) \<and>
   bucket (fold (sync_batch E) bs s) = bucket s0"
  by (induction bs arbitrary: s) (simp_all add: sync_batch_uploads)

lemma fold_upload_step:
  assumes "distinct (map fu_id rows)" "\<forall>t\<in>set ts. fst (snd t) \<in> set rows"
  shows "fold (upload_step E s0) ts rows =
     map (\<lambda>g. if \<exists>t\<in>set ts. fst (snd t) = g then sync_row E s0 g g else g) rows"
  using assms(2)
proof (induction ts rule: rev_induct)
  case (snoc t ts)
  let ?f = "fst (snd t)"
  have "fold (upload_step E s0) (ts @ [t]) rows =
     update_where (\<lambda>g. fu_id g = fu_id ?f) (sync_row E s0 ?f)
       (map (\<lambda>g. if \<exists>t\<in>set ts. fst (snd t) = g then sync_row E s0 g g else g) rows)"
    using snoc by (simp add: upload_step_def [of E s0 t])
  also have "\<dots> = map (\<lambda>g. if \<exists>t'\<in>set (ts @ [t]). fst (snd t') = g then sync_row E s0 g g else g) rows"
    unfolding update_where_def map_map
  proof (rule map_cong [OF refl])
    fix g assume g: "g \<in> set rows"
    have "fu_id g = fu_id ?f \<longleftrightarrow> g = ?f"
      using distinct_key_inj [OF assms(1) g] snoc.prems by auto
    then show "((\<lambda>r. if fu_id r = fu_id ?f then sync_row E s0 ?f r else r) \<circ>
        (\<lambda>g. if \<exists>t\<in>set ts. fst (snd t) = g then sync_row E s0 g g else g)) g =
      (if \<exists>t'\<in>set (ts @ [t]). fst (snd t') = g then sync_row E s0 g g else g)"
      by auto
  qed
  finally show ?case .
qed simp

lemma sync_snapshot_iff:
  "(a, f, r) \<in> set (sync_snapshot s) \<longleftrightarrow>
     a \<in> set (artifacts s) \<and> art_type a = FILE \<and> artifact_upload s a = Some f \<and>
     release_by_catalog s (art_release a) = Some r \<and>
     (fu_status f = FileUPloadStatusEnum.UPLOADED \<or> fu_status f = FileUPloadStatusEnum.REMOVED)"
  by (auto simp: sync_snapshot_def split: option.splits if_splits)

lemma artifact_upload_SomeD:
  "artifact_upload s a = Some f \<Longrightarrow> f \<in> set (uploads s) \<and> art_fileUpload a = Some (fu_id f)"
  by (auto simp: artifact_upload_def dest: upload_by_id_SomeD split: option.splits)

lemma sync_snapshot_upload: "t \<in> set (sync_snapshot s) \<Longrightarrow> fst (snd t) \<in> set (uploads s)"
  by (cases t) (auto simp: sync_snapshot_iff dest: artifact_upload_SomeD)

text \<open>
  C6. The check of the artifacts decides for each upload by its own row and the bucket: a file
  that is linked by a \<open>FILE\<close> artifact of a release and was \<open>UPLOADED\<close> becomes \<open>REMOVED\<close> when its
  object is gone; one that was \<open>REMOVED\<close> becomes \<open>UPLOADED\<close> when its object is back and the stored
  digest, if any, is that of the object; every other row stays as it was, whatever the order of
  the batches.
\<close>

theorem storage_sync_uploads:
  assumes "schema_ok s"
  shows "uploads (syncArtifactsStorageStatus E s) =
     map (\<lambda>f. if \<not> (\<exists>a\<in>set (artifacts s). art_type a = FILE \<and> art_fileUpload a = Some (fu_id f) \<and>
                        release_by_catalog s (art_release a) \<noteq> None) then f
              else if fu_status f = FileUPloadStatusEnum.UPLOADED \<and> \<not> in_bucket E s f then mark_removed f
              else if fu_status f = FileUPloadStatusEnum.REMOVED \<and> in_bucket E s f \<and> \<not> sha_mismatch E s f
              then mark_restored f else f) (uploads s)"
proof -
  have d: "distinct (map fu_id (uploads s))" using assms by (simp add: schema_ok_def)
  have by_id: "upload_by_id s (fu_id f) = Some f" if "f \<in> set (uploads s)" for f
    using that d by (simp add: upload_by_id_def find_by_key)
  have snap: "(\<exists>t\<in>set (sync_snapshot s). fst (snd t) = f) \<longleftrightarrow>
     (fu_status f = FileUPloadStatusEnum.UPLOADED \<or> fu_status f = FileUPloadStatusEnum.REMOVED) \<and>
     (\<exists>a\<in>set (artifacts s). art_type a = FILE \<and> art_fileUpload a = Some (fu_id f) \<and>
        release_by_catalog s (art_release a) \<noteq> None)" if f: "f \<in> set (uploads s)" for f
  proof -
    have "artifact_upload s a = Some f \<longleftrightarrow> art_fileUpload a = Some (fu_id f)" for a
      using by_id [OF f] artifact_upload_SomeD [of s a f] by (auto simp: artifact_upload_def)
    moreover have "(\<exists>t\<in>set (sync_snapshot s). fst (snd t) = f) \<longleftrightarrow>
        (\<exists>a r. (a, f, r) \<in> set (sync_snapshot s))" by force
    ultimately show ?thesis
      unfolding sync_snapshot_iff by auto
  qed
  have "uploads (syncArtifactsStorageStatus E s) = fold (upload_step E s) (sync_snapshot s) (uploads s)"
    using fold_sync_batch_uploads [of s s E "batches 10 (sync_snapshot s)"]
    by (simp add: syncArtifactsStorageStatus_def concat_batches)
  also have "\<dots> = map (\<lambda>g. if \<exists>t\<in>set (sync_snapshot s). fst (snd t) = g then sync_row E s g g else g) (uploads s)"
    by (rule fold_upload_step [OF d]) (simp add: sync_snapshot_upload)
  finally show ?thesis
    by (simp add: snap sync_row_def cong: map_cong) (auto simp: sync_row_def)
qed

section \<open>What becomes of the releases\<close>

definition lost_file :: "env \<Rightarrow> db \<Rightarrow> snapshot list \<Rightarrow> string \<Rightarrow> bool" where
  "lost_file E s ts c \<longleftrightarrow>
     (\<exists>(a, f, x) \<in> set ts. rel_catalogId x = c \<and> fu_status f = FileUPloadStatusEnum.UPLOADED \<and> \<not> in_bucket E s f)"

definition storage_outcome :: "env \<Rightarrow> db \<Rightarrow> snapshot list \<Rightarrow> ReleaseEntity \<Rightarrow> ReleaseEntity \<Rightarrow> bool" where
  "storage_outcome E s ts r r' \<longleftrightarrow>
     (if rel_status r = RELEASED
      then r' = (if lost_file E s ts (rel_catalogId r) then r\<lparr>rel_status := ReleaseStatusEnum.ERROR\<rparr> else r)
      else r' = r \<or> rel_status r = ReleaseStatusEnum.ERROR \<and> rel_releasedAt r \<noteq> None \<and>
           r' = r\<lparr>rel_status := RELEASED\<rparr>)"

definition may_recheck :: "db \<Rightarrow> string \<Rightarrow> bool" where
  "may_recheck s c \<longleftrightarrow>
     (\<forall>r\<in>set (releases s). rel_catalogId r = c \<longrightarrow> rel_status r = ReleaseStatusEnum.ERROR \<and> rel_releasedAt r \<noteq> None)"

lemma storage_outcome_catalog: "storage_outcome E s ts r r' \<Longrightarrow> rel_catalogId r' = rel_catalogId r"
  by (auto simp: storage_outcome_def split: if_splits)

lemma sync_artifact_releases:
  assumes "list_all2 (storage_outcome E s0 ts) (releases s0) (releases s)" "bucket s = bucket s0"
    and x: "x \<in> set (releases s0)" and d: "distinct (map rel_catalogId (releases s0))"
    and rc: "\<forall>c\<in>set rc. may_recheck s0 c"
  shows "list_all2 (storage_outcome E s0 (ts @ [(a, f, x)])) (releases s0)
           (releases (fst (sync_artifact E (a, f, x) (s, rc))))"
    and "\<forall>c\<in>set (snd (sync_artifact E (a, f, x) (s, rc))). may_recheck s0 c"
proof -
  have same: "r = x" if "r \<in> set (releases s0)" "rel_catalogId r = rel_catalogId x" for r
    using distinct_key_inj [OF d that(1) x that(2)] .
  have ib: "in_bucket E s f = in_bucket E s0 f" by (rule in_bucket_cong) (rule assms(2))
  let ?lost = "\<not> in_bucket E s0 f \<and> fu_status f = FileUPloadStatusEnum.UPLOADED"
  show "list_all2 (storage_outcome E s0 (ts @ [(a, f, x)])) (releases s0)
           (releases (fst (sync_artifact E (a, f, x) (s, rc))))"
  proof (cases "?lost \<and> rel_status x = RELEASED")
    case True
    then have "releases (fst (sync_artifact E (a, f, x) (s, rc))) =
       update_where (\<lambda>y. rel_catalogId y = rel_catalogId x)
         (\<lambda>y. y\<lparr>rel_status := ReleaseStatusEnum.ERROR\<rparr>) (releases s)"
      by (simp add: sync_artifact_def ib)
    moreover have "storage_outcome E s0 (ts @ [(a, f, x)]) r
        (if rel_catalogId y = rel_catalogId x then y\<lparr>rel_status := ReleaseStatusEnum.ERROR\<rparr> else y)"
      if r: "r \<in> set (releases s0)" and o: "storage_outcome E s0 ts r y" for r y
    proof (cases "rel_catalogId r = rel_catalogId x")
      case eq: True
      with same [OF r] have "r = x" by simp
      with o True have "y\<lparr>rel_status := ReleaseStatusEnum.ERROR\<rparr> = r\<lparr>rel_status := ReleaseStatusEnum.ERROR\<rparr>"
        by (auto simp: storage_outcome_def split: if_splits)
      with eq True \<open>r = x\<close> storage_outcome_catalog [OF o] show ?thesis
        by (auto simp: storage_outcome_def lost_file_def)
    next
      case False
      with storage_outcome_catalog [OF o] o show ?thesis
        by (auto simp: storage_outcome_def lost_file_def)
    qed
    ultimately show ?thesis using list_all2_update_where [OF assms(1)] by simp
  next
    case False
    then have "releases (fst (sync_artifact E (a, f, x) (s, rc))) = releases s"
      by (auto simp: sync_artifact_def ib Let_def)
    moreover have "storage_outcome E s0 (ts @ [(a, f, x)]) r y"
      if r: "r \<in> set (releases s0)" and o: "storage_outcome E s0 ts r y" for r y
    proof (cases "rel_catalogId r = rel_catalogId x")
      case True
      with same [OF r] have "r = x" by simp
      with o False show ?thesis by (auto simp: storage_outcome_def lost_file_def split: if_splits)
    next
      case False
      with o show ?thesis by (auto simp: storage_outcome_def lost_file_def split: if_splits)
    qed
    ultimately show ?thesis using list.rel_mono_strong [OF assms(1)] by simp
  qed
  have "may_recheck s0 (rel_catalogId x)" if "rel_releasedAt x \<noteq> None" "rel_status x = ReleaseStatusEnum.ERROR"
    using that same by (auto simp: may_recheck_def)
  then show "\<forall>c\<in>set (snd (sync_artifact E (a, f, x) (s, rc))). may_recheck s0 c"
    using rc by (auto simp: sync_artifact_def Let_def)
qed

lemma maybeRestore_releases:
  assumes "list_all2 (storage_outcome E s0 ts) (releases s0) (releases s)" "may_recheck s0 c"
  shows "list_all2 (storage_outcome E s0 ts) (releases s0) (releases (maybeRestoreReleasedStatus c s))"
proof -
  have "list_all2 (storage_outcome E s0 ts) (releases s0)
     (update_where (\<lambda>r. rel_catalogId r = c) (\<lambda>r. r\<lparr>rel_status := RELEASED\<rparr>) (releases s))"
  proof (rule list_all2_update_where [OF assms(1)])
    fix r y assume r: "r \<in> set (releases s0)" and o: "storage_outcome E s0 ts r y"
    show "storage_outcome E s0 ts r (if rel_catalogId y = c then y\<lparr>rel_status := RELEASED\<rparr> else y)"
      using o assms(2) r storage_outcome_catalog [OF o]
      by (auto simp: storage_outcome_def may_recheck_def split: if_splits)
  qed
  with assms(1) show ?thesis by (auto simp: maybeRestoreReleasedStatus_def split: option.splits)
qed

lemma fold_maybeRestore_releases:
  "list_all2 (storage_outcome E s0 ts) (releases s0) (releases s) \<Longrightarrow> \<forall>c\<in>set cs. may_recheck s0 c \<Longrightarrow>
   list_all2 (storage_outcome E s0 ts) (releases s0) (releases (fold maybeRestoreReleasedStatus cs s))"
  by (induction cs arbitrary: s) (simp_all add: maybeRestore_releases)

lemma fold_sync_artifact_releases:
  assumes "list_all2 (storage_outcome E s0 ts) (releases s0) (releases s)" "bucket s = bucket s0"
    and "distinct (map rel_catalogId (releases s0))" "\<forall>c\<in>set rc. may_recheck s0 c"
    and "\<forall>t\<in>set batch. snd (snd t) \<in> set (releases s0)"
  shows "list_all2 (storage_outcome E s0 (ts @ batch)) (releases s0)
           (releases (fst (fold (sync_artifact E) batch (s, rc)))) \<and>
         (\<forall>c\<in>set (snd (fold (sync_artifact E) batch (s, rc))). may_recheck s0 c)"
  using assms
proof (induction batch arbitrary: ts s rc)
  case (Cons t batch)
  obtain a f x where t: "t = (a, f, x)" by (cases t)
  obtain s1 rc1 where s1: "sync_artifact E t (s, rc) = (s1, rc1)" by fastforce
  have x: "x \<in> set (releases s0)" using Cons.prems(5) t by simp
  have "bucket s1 = bucket s0"
    using sync_artifact_uploads(2) [of E t s rc] s1 Cons.prems(2) by simp
  moreover have "list_all2 (storage_outcome E s0 (ts @ [t])) (releases s0) (releases s1)"
    "\<forall>c\<in>set rc1. may_recheck s0 c"
    using sync_artifact_releases [OF Cons.prems(1,2) x Cons.prems(3,4), of a f] s1 t by simp_all
  ultimately show ?case
    using Cons.IH [of "ts @ [t]" s1 rc1] Cons.prems(3,5) s1 by simp
qed simp

lemma sync_batch_releases:
  assumes "list_all2 (storage_outcome E s0 ts) (releases s0) (releases s)" "bucket s = bucket s0"
    and "distinct (map rel_catalogId (releases s0))"
    and "\<forall>t\<in>set batch. snd (snd t) \<in> set (releases s0)"
  shows "list_all2 (storage_outcome E s0 (ts @ batch)) (releases s0) (releases (sync_batch E batch s))"
  using fold_sync_artifact_releases [OF assms(1-3), of "[]" batch] assms(4)
  by (cases "fold (sync_artifact E) batch (s, [])") (simp add: sync_batch_def fold_maybeRestore_releases)

lemma fold_sync_batch_releases:
  "list_all2 (storage_outcome E s0 ts) (releases s0) (releases s) \<Longrightarrow> bucket s = bucket s0 \<Longrightarrow>
   distinct (map rel_catalogId (releases s0)) \<Longrightarrow>
   \<forall>t\<in>set (concat bs). snd (snd t) \<in> set (releases s0) \<Longrightarrow>
   list_all2 (storage_outcome E s0 (ts @ concat bs)) (releases s0) (releases (fold (sync_batch E) bs s))"
proof (induction bs arbitrary: ts s)
  case (Cons b bs)
  then show ?case
    using sync_batch_releases [OF Cons.prems(1-3), of b] sync_batch_uploads [OF Cons.prems(2), of E b]
      Cons.IH [of "ts @ b" "sync_batch E b s"] by simp
qed simp


definition demo_sync_db :: db where
  "demo_sync_db = empty_db\<lparr>
     releases := [(demo_release ''r1'' ''1.0.0'' RELEASED)\<lparr>rel_latest := True\<rparr>],
     artifacts := [demo_artifact 5 FILE ''r1'' (Some 2)],
     uploads := [demo_file 2 ''gone'' FileUPloadStatusEnum.UPLOADED]\<rparr>"

lemma demo_sync_schema: "schema_ok demo_sync_db"
  by (simp add: schema_ok_def demo_sync_db_def demo_defs)

lemma storage_sync_uploads_witness:
  "uploads (syncArtifactsStorageStatus demo_env demo_sync_db) =
     [mark_removed (demo_file 2 ''gone'' FileUPloadStatusEnum.UPLOADED)]"
  unfolding storage_sync_uploads [OF demo_sync_schema]
  by (simp add: demo_sync_db_def demo_defs release_by_catalog_def in_bucket_def stat_or_null_eq)


section \<open>What the pass over the pending uploads may change\<close>

definition abandon_rel :: "env \<Rightarrow> nat \<Rightarrow> db \<Rightarrow> FileUploadEntity \<Rightarrow> FileUploadEntity \<Rightarrow> bool" where
  "abandon_rel E now s f f' \<longleftrightarrow>
     f' = f \<or> fu_status f = FileUPloadStatusEnum.PENDING \<and> is_stale E now s f \<and> f' = mark_abandoned f"

definition abandon_inv :: "env \<Rightarrow> nat \<Rightarrow> db \<Rightarrow> db \<Rightarrow> bool" where
  "abandon_inv E now s0 s \<longleftrightarrow>
     list_all2 (abandon_rel E now s0) (uploads s0) (uploads s) \<and> bucket s = bucket s0 \<and>
     releases s = releases s0 \<and> artifacts s = artifacts s0"

lemma is_stale_cong: "bucket s' = bucket s \<Longrightarrow> is_stale E now s' f = is_stale E now s f"
  by (simp add: is_stale_def stat_default_def)

lemma abandon_mark:
  assumes "abandon_inv E now s0 s" "distinct (map fu_objectKey (uploads s0))"
    and f: "f \<in> set (uploads s0)" "fu_status f = FileUPloadStatusEnum.PENDING" "is_stale E now s0 f"
  shows "abandon_inv E now s0 (update_uploads (\<lambda>g. fu_objectKey g = fu_objectKey f) mark_abandoned s)"
proof -
  have "list_all2 (abandon_rel E now s0) (uploads s0)
     (update_where (\<lambda>g. fu_objectKey g = fu_objectKey f) mark_abandoned (uploads s))"
  proof (rule list_all2_update_where)
    show "list_all2 (abandon_rel E now s0) (uploads s0) (uploads s)"
      using assms(1) by (simp add: abandon_inv_def)
    fix x y assume x: "x \<in> set (uploads s0)" and o: "abandon_rel E now s0 x y"
    have k: "fu_objectKey y = fu_objectKey x" using o by (auto simp: abandon_rel_def mark_abandoned_def)
    show "abandon_rel E now s0 x (if fu_objectKey y = fu_objectKey f then mark_abandoned y else y)"
    proof (cases "fu_objectKey y = fu_objectKey f")
      case True
      then have "x = f" using distinct_key_inj [OF assms(2) x f(1)] k by simp
      with True o f show ?thesis by (auto simp: abandon_rel_def mark_abandoned_def)
    qed (use o in simp)
  qed
  with assms(1) show ?thesis by (simp add: abandon_inv_def)
qed

lemma abandon_mark_all:
  "abandon_inv E now s0 s \<Longrightarrow> distinct (map fu_objectKey (uploads s0)) \<Longrightarrow>
   \<forall>f\<in>set fs. f \<in> set (uploads s0) \<and> fu_status f = FileUPloadStatusEnum.PENDING \<and> is_stale E now s0 f \<Longrightarrow>
   abandon_inv E now s0
     (fold (\<lambda>f s. update_uploads (\<lambda>g. fu_objectKey g = fu_objectKey f) mark_abandoned s) fs s)"
  by (induction fs arbitrary: s) (simp_all add: abandon_mark)

lemma abandon_group:
  assumes "abandon_inv E now s0 s" "distinct (map fu_objectKey (uploads s0))"
    and "\<forall>f\<in>set fs. f \<in> set (uploads s0) \<and> fu_status f = FileUPloadStatusEnum.PENDING"
  shows "abandon_inv E now s0 (sync_group E now fs s)"
proof -
  have "is_stale E now s f = is_stale E now s0 f" for f
    using assms(1) by (intro is_stale_cong) (simp add: abandon_inv_def)
  then show ?thesis
    unfolding sync_group_def Let_def using assms
    by (intro abandon_mark_all) (auto simp: abandon_inv_def)
qed

lemma abandon_groups:
  "abandon_inv E now s0 s \<Longrightarrow> distinct (map fu_objectKey (uploads s0)) \<Longrightarrow>
   \<forall>f\<in>set (concat bs). f \<in> set (uploads s0) \<and> fu_status f = FileUPloadStatusEnum.PENDING \<Longrightarrow>
   abandon_inv E now s0 (fold (sync_group E now) bs s)"
  by (induction bs arbitrary: s) (simp_all add: abandon_group)

lemma abandon_pages:
  "abandon_inv E now s0 s \<Longrightarrow> distinct (map fu_objectKey (uploads s0)) \<Longrightarrow>
   abandon_inv E now s0 (sync_pages E now skip s)"
proof (induction E now skip s rule: sync_pages.induct)
  case (1 E now skip s)
  have files: "f \<in> set (uploads s0) \<and> fu_status f = FileUPloadStatusEnum.PENDING"
    if "f \<in> set (next_page now skip s)" for f
  proof -
    have "f \<in> set (uploads s)" "fu_status f = FileUPloadStatusEnum.PENDING"
      using that by (auto simp: next_page_def pending_files_def dest!: in_set_takeD in_set_dropD)
    moreover obtain x where "x \<in> set (uploads s0)" "abandon_rel E now s0 x f"
      using 1(2) calculation(1) unfolding abandon_inv_def by (metis list_all2_conv_all_nth in_set_conv_nth)
    ultimately show ?thesis by (auto simp: abandon_rel_def mark_abandoned_def)
  qed
  then have "abandon_inv E now s0 (sync_page E now (next_page now skip s) s)"
    unfolding sync_page_def using 1(2,3) by (intro abandon_groups) (auto simp: concat_batches)
  with 1 show ?case by (subst sync_pages.simps) (simp add: Let_def)
qed


definition stale_db :: db where
  "stale_db = empty_db\<lparr>clock := 5000,
     uploads := map (\<lambda>i. demo_file i (show_nat i) FileUPloadStatusEnum.PENDING) [1..<13]\<rparr>"

lemma stale_db_schema: "schema_ok stale_db"
  by code_simp


text \<open>
  The pages are cut from the uploads that are still pending, while the rows of the pages before
  have left that set: skipping ten of what is left passes over as many rows. Of twelve
  abandoned uploads one pass writes off ten.
\<close>

lemma pending_sync_skips:
  "map fu_status (uploads (syncUploadedFiles demo_env stale_db)) =
     replicate 2 FileUPloadStatusEnum.PENDING @ replicate 10 FileUPloadStatusEnum.ERROR"
  by code_simp

text \<open>
  A release is restored after the batch that repaired one of its files, before the later batches
  are looked at; a file that a later batch finds missing no longer demotes it, because the
  status compared is the one read at the start, and a second pass does not find it either.
\<close>

definition late_loss_db :: db where
  "late_loss_db = empty_db\<lparr>
     releases := [(demo_release ''r1'' ''1.0.0'' ReleaseStatusEnum.ERROR)\<lparr>rel_releasedAt := Some 0\<rparr>],
     artifacts := map (\<lambda>i. demo_artifact i FILE ''r1'' (Some i)) [1..<12],
     uploads := demo_file 1 (show_nat 1) FileUPloadStatusEnum.REMOVED #
       map (\<lambda>i. demo_file i (show_nat i) FileUPloadStatusEnum.UPLOADED) [2..<12],
     bucket := fold (\<lambda>i st. putObject st ''main'' (show_nat i)
        \<lparr>obj_content = ''x'', obj_contentType = None, obj_lastModified = 0\<rparr>) [1..<11] empty_store\<rparr>"

lemma late_loss_keeps_released:
  "map rel_status (releases (syncArtifactsStorageStatus demo_env late_loss_db)) = [RELEASED] \<and>
   map fu_status (uploads (syncArtifactsStorageStatus demo_env late_loss_db)) =
     replicate 10 FileUPloadStatusEnum.UPLOADED @ [FileUPloadStatusEnum.REMOVED]"
  by code_simp

end
