(* ===== verification/Regulation.thy ===== *)
theory Regulation
  imports File_Upload
begin

text \<open>
  Regulations: \<open>regulation-enforcement.service.ts\<close> decides whether a value complies,
  \<open>utils/junit-parser.service.ts\<close> reads a test report for it, and \<open>regulation-status.service.ts\<close>
  keeps one status per regulation and release.
\<close>

section \<open>The JUnit summary\<close>

record junit_summary =
  js_total :: jsnum
  js_passed :: jsnum
  js_failed :: jsnum
  js_skipped :: jsnum

text \<open>
  \<open>parseInt(testSuite[attr] || '0', 10)\<close>. The parser delivers attributes as strings; the other
  values are converted as \<open>String(v)\<close> would let \<open>parseInt\<close> read them.
\<close>

fun attr_int :: "json \<Rightarrow> jsnum" where
  "attr_int JUndef = Fin 0"
| "attr_int JNull = Fin 0"
| "attr_int (JStr s) = (if s = [] then Fin 0 else js_parseInt s)"
| "attr_int (JNum (Fin q)) = Fin (of_int (if 0 \<le> q then \<lfloor>q\<rfloor> else \<lceil>q\<rceil>))"
| "attr_int (JNum n) = (if n = NaN then Fin 0 else NaN)"
| "attr_int (JBool b) = (if b then NaN else Fin 0)"
| "attr_int _ = NaN"

definition extractSummary :: "(string \<Rightarrow> json result) \<Rightarrow> string \<Rightarrow> junit_summary result" where
  "extractSummary parse xmlContent =
     (if xmlContent = [] then Inl BadRequestException
      else (case parse xmlContent of
          Inl e \<Rightarrow> Inl BadRequestException
        | Inr parsedData \<Rightarrow>
            let testSuite = js_member parsedData ''testsuites'' in
            if \<not> is_object testSuite then Inl BadRequestException
            else
              let totalTests = attr_int (js_member testSuite ''@_tests'');
                  failedTests = attr_int (js_member testSuite ''@_failures'');
                  skippedTests = attr_int (js_member testSuite ''@_skipped'')
              in Inr \<lparr>js_total = totalTests, js_passed = js_sub (js_sub totalTests failedTests) skippedTests,
                     js_failed = failedTests, js_skipped = skippedTests\<rparr>))"

section \<open>Enforcement\<close>

definition artifact_by_id :: "db \<Rightarrow> nat \<Rightarrow> ReleaseArtifactEntity option" where
  "artifact_by_id s i = List.find (\<lambda>a. art_id a = i) (artifacts s)"

text \<open>
  \<open>findOneOrFail\<close> throws when there is no row, and the database rejects an id that is no
  integer. For an artifact without a file the id passed on is \<open>undefined\<close>, which does not
  restrict the query: the first upload is read.
\<close>

definition getJUnitXmlContent :: "env \<Rightarrow> jsnum \<Rightarrow> db \<Rightarrow> string result" where
  "getJUnitXmlContent E n s =
     (case n of
        Fin q \<Rightarrow>
          if 0 \<le> q \<and> of_int \<lfloor>q\<rfloor> = q then
            (case artifact_by_id s (nat \<lfloor>q\<rfloor>) of
               None \<Rightarrow> Inl ErrorException
             | Some a \<Rightarrow>
                 (case art_fileUpload a of
                    Some i \<Rightarrow> getFileStream E i s
                  | None \<Rightarrow> (case uploads s of [] \<Rightarrow> Inl ErrorException
                            | f # _ \<Rightarrow> getObject (bucket s) (BUCKET_NAME E) (fu_objectKey f))))
          else Inl ErrorException
      | _ \<Rightarrow> Inl ErrorException)"

text \<open>\<open>Number(regulation.config)\<close>: the column is \<open>null\<close> or a string.\<close>

definition config_number :: "RegulationEntity \<Rightarrow> jsnum" where
  "config_number r = (case reg_config r of None \<Rightarrow> Fin 0 | Some c \<Rightarrow> js_Number c)"

definition enforce :: "env \<Rightarrow> RegulationEntity \<Rightarrow> string \<Rightarrow> db \<Rightarrow> bool result" where
  "enforce E regulation v s =
     (if reg_typeName regulation = ''Boolean'' then Inr (v = ''true'')
      else if reg_typeName regulation = ''Threshold'' then
        (if js_isNaN v then Inr False else Inr (js_le (config_number regulation) (js_Number v)))
      else if reg_typeName regulation = ''JUnit'' then
        (if js_isNaN v then Inr False
         else (case getJUnitXmlContent E (js_Number v) s of
             Inl e \<Rightarrow> Inl e
           | Inr xmlContent \<Rightarrow>
               (case extractSummary (xml_parse E) xmlContent of
                  Inl e \<Rightarrow> Inl e
                | Inr summary \<Rightarrow>
                    Inr (js_le (config_number regulation)
                           (js_times_100 (js_div (js_passed summary) (js_total summary)))))))
      else Inl ErrorException)"

section \<open>Statuses\<close>

record RegulationStatusDto =
  rsd_value :: "string option"
  rsd_reportDetails :: "string option"
  rsd_isCompliant :: bool
  rsd_version :: "string option"
  rsd_regulation :: "string option"
  rsd_projectId :: "nat option"
  rsd_regulationSnapshot :: "RegulationSnapshot option"

definition regulation_of :: "db \<Rightarrow> RegulationStatusEntity \<Rightarrow> RegulationEntity option" where
  "regulation_of s st =
     (case rst_regulation st of None \<Rightarrow> None | Some i \<Rightarrow> List.find (\<lambda>r. reg_id r = i) (regulations s))"

definition fromRegulationStatusEntity :: "db \<Rightarrow> RegulationStatusEntity \<Rightarrow> RegulationStatusDto" where
  "fromRegulationStatusEntity s st =
     (let reg = regulation_of s st; snap = rst_regulationSnapshot st in
      \<lparr>rsd_value = rst_value st, rsd_reportDetails = rst_reportDetails st, rsd_isCompliant = rst_isCompliant st,
       rsd_version = map_option rel_version (release_by_catalog s (rst_version st)),
       rsd_regulation = (case reg of Some r \<Rightarrow> Some (reg_name r) | None \<Rightarrow> map_option rsn_name snap),
       rsd_projectId = map_option reg_project reg,
       rsd_regulationSnapshot = (if reg = None then snap else None)\<rparr>)"

definition getRegulationAndRelease ::
  "string \<Rightarrow> string \<Rightarrow> nat \<Rightarrow> db \<Rightarrow> (RegulationEntity \<times> ReleaseEntity) result" where
  "getRegulationAndRelease regulation v pid s =
     (let reg = List.find (\<lambda>r. reg_name r = regulation \<and> reg_project r = pid) (regulations s) in
      case find_release s pid v of
        None \<Rightarrow> Inl NotFoundException
      | Some rel \<Rightarrow> (case reg of None \<Rightarrow> Inl NotFoundException | Some r \<Rightarrow> Inr (r, rel)))"

definition createRegulationSnapshot :: "RegulationEntity \<Rightarrow> RegulationSnapshot" where
  "createRegulationSnapshot r =
     \<lparr>rsn_name = (case reg_displayName r of Some d \<Rightarrow> d | None \<Rightarrow> reg_name r),
      rsn_description = reg_description r, rsn_config = reg_config r, rsn_typeId = reg_typeId r\<rparr>"

definition is_version :: "db \<Rightarrow> nat \<Rightarrow> string \<Rightarrow> RegulationStatusEntity \<Rightarrow> bool" where
  "is_version s pid v st =
     (case release_by_catalog s (rst_version st) of None \<Rightarrow> False | Some r \<Rightarrow> is_release pid v r)"

definition status_named :: "db \<Rightarrow> string \<Rightarrow> RegulationStatusEntity \<Rightarrow> bool" where
  "status_named s regulation st =
     ((case rst_regulationSnapshot st of None \<Rightarrow> False | Some sn \<Rightarrow> rsn_name sn = regulation) \<or>
      (case regulation_of s st of None \<Rightarrow> False | Some r \<Rightarrow> reg_name r = regulation))"

definition find_status :: "db \<Rightarrow> nat \<Rightarrow> string \<Rightarrow> string \<Rightarrow> RegulationStatusEntity option" where
  "find_status s pid v regulation =
     List.find (\<lambda>st. is_version s pid v st \<and> status_named s regulation st) (statuses s)"

definition getVersionRegulationStatus :: "string \<Rightarrow> string \<Rightarrow> nat \<Rightarrow> db \<Rightarrow> RegulationStatusDto result" where
  "getVersionRegulationStatus regulation v pid s =
     (case find_status s pid v regulation of
        None \<Rightarrow> Inl NotFoundException
      | Some st \<Rightarrow> Inr (fromRegulationStatusEntity s st))"

text \<open>Rows without a regulation sort last.\<close>

definition status_rank :: "db \<Rightarrow> RegulationStatusEntity \<Rightarrow> nat" where
  "status_rank s st =
     (case regulation_of s st of
        Some r \<Rightarrow> reg_order r
      | None \<Rightarrow> Suc (foldr max (map reg_order (regulations s)) 0))"

definition getVersionRegulationsStatuses :: "nat \<Rightarrow> string \<Rightarrow> db \<Rightarrow> RegulationStatusDto list" where
  "getVersionRegulationsStatuses pid v s =
     map (fromRegulationStatusEntity s)
       (sort_key (status_rank s) (filter (is_version s pid v) (statuses s)))"

definition same_status :: "nat \<Rightarrow> string \<Rightarrow> RegulationStatusEntity \<Rightarrow> bool" where
  "same_status regId catalogId st \<longleftrightarrow> rst_regulation st = Some regId \<and> rst_version st = catalogId"

definition upsert_status ::
  "nat \<Rightarrow> string \<Rightarrow> (RegulationStatusEntity \<Rightarrow> RegulationStatusEntity) \<Rightarrow> RegulationStatusEntity \<Rightarrow> db \<Rightarrow> db" where
  "upsert_status regId catalogId upd new s =
     s\<lparr>statuses := upsert_row (same_status regId catalogId) upd new (statuses s), next_id := Suc (next_id s)\<rparr>"

definition setRegulationStatus ::
  "env \<Rightarrow> string \<Rightarrow> string \<Rightarrow> nat \<Rightarrow> string \<Rightarrow> string option \<Rightarrow> db \<Rightarrow> RegulationStatusDto result \<times> db" where
  "setRegulationStatus E regulation v pid val reportDetails s =
     (case getRegulationAndRelease regulation v pid s of
        Inl e \<Rightarrow> (Inl e, s)
      | Inr (reg, release) \<Rightarrow>
          (case enforce E reg val s of
             Inl e \<Rightarrow> (Inl e, s)
           | Inr isCompliant \<Rightarrow>
               let snap = (if isCompliant then Some (createRegulationSnapshot reg) else None);
                   s1 = upsert_status (reg_id reg) (rel_catalogId release)
                     (\<lambda>st. st\<lparr>rst_value := Some val, rst_reportDetails := reportDetails,
                             rst_isCompliant := isCompliant, rst_regulationSnapshot := snap\<rparr>)
                     \<lparr>rst_id = next_id s, rst_version = rel_catalogId release, rst_regulation = Some (reg_id reg),
                      rst_regulationSnapshot = snap, rst_isCompliant = isCompliant, rst_value = Some val,
                      rst_reportDetails = reportDetails\<rparr> s
               in (getVersionRegulationStatus regulation v pid s1, s1)))"

definition setComplianceStatus ::
  "string \<Rightarrow> string \<Rightarrow> nat \<Rightarrow> bool \<Rightarrow> db \<Rightarrow> RegulationStatusDto result \<times> db" where
  "setComplianceStatus regulation v pid isCompliant s =
     (case getRegulationAndRelease regulation v pid s of
        Inl e \<Rightarrow> (Inl e, s)
      | Inr (reg, release) \<Rightarrow>
          let snap = (if isCompliant then Some (createRegulationSnapshot reg) else None);
              s1 = upsert_status (reg_id reg) (rel_catalogId release)
                (\<lambda>st. st\<lparr>rst_isCompliant := isCompliant, rst_regulationSnapshot := snap\<rparr>)
                \<lparr>rst_id = next_id s, rst_version = rel_catalogId release, rst_regulation = Some (reg_id reg),
                 rst_regulationSnapshot = snap, rst_isCompliant = isCompliant, rst_value = None,
                 rst_reportDetails = None\<rparr> s
          in (getVersionRegulationStatus regulation v pid s1, s1))"

definition deleteVersionRegulationStatus :: "string \<Rightarrow> string \<Rightarrow> nat \<Rightarrow> db \<Rightarrow> unit result \<times> db" where
  "deleteVersionRegulationStatus regulation v pid s =
     (case find_status s pid v regulation of
        None \<Rightarrow> (Inl NotFoundException, s)
      | Some st \<Rightarrow> (Inr (), s\<lparr>statuses := delete_where (\<lambda>x. rst_id x = rst_id st) (statuses s)\<rparr>))"

definition deleteOrphanRegulationStatuses :: "string \<Rightarrow> nat \<Rightarrow> db \<Rightarrow> db" where
  "deleteOrphanRegulationStatuses v pid s =
     s\<lparr>statuses := delete_where (\<lambda>st. is_version s pid v st \<and> rst_regulation st = None \<and>
                                      rst_regulationSnapshot st = None) (statuses s)\<rparr>"

section \<open>What counts as compliant\<close>

lemma getJUnitXmlContent_artifact:
  "artifact_by_id s i = Some a \<Longrightarrow> art_fileUpload a = Some u \<Longrightarrow>
   getJUnitXmlContent E (Fin (of_nat i)) s = getFileStream E u s"
  by (simp add: getJUnitXmlContent_def)

text \<open>
  A test report complies exactly when the share of passed tests reaches the configured
  percentage: with \<open>t > 0\<close> tests of which \<open>f\<close> failed and \<open>k\<close> were skipped, and the threshold \<open>c\<close>,
  when \<open>c * t\<close> is at most \<open>100 * (t - f - k)\<close>. A report without tests
  never complies: its percentage is not a number, or minus infinity.
\<close>

theorem junit_compliance:
  assumes "reg_typeName r = ''JUnit''" "reg_config r = Some (show_nat c)"
    and "artifact_by_id s i = Some a" "art_fileUpload a = Some u" "getFileStream E u s = Inr xml" "xml \<noteq> []"
    and "xml_parse E xml = Inr (JObj [(''testsuites'', JObj [(''@_tests'', JStr (show_nat t)),
           (''@_failures'', JStr (show_nat f)), (''@_skipped'', JStr (show_nat k))])])"
  shows "enforce E r (show_nat i) s =
     Inr (if t = 0 then False else int c * int t \<le> 100 * (int t - int f - int k))"
proof -
  have x: "getJUnitXmlContent E (Fin (of_nat i)) s = Inr xml"
    using getJUnitXmlContent_artifact [OF assms(3,4)] assms(5) by simp
  have summary: "extractSummary (xml_parse E) xml = Inr \<lparr>js_total = Fin (of_nat t),
      js_passed = Fin (of_nat t - of_nat f - of_nat k), js_failed = Fin (of_nat f), js_skipped = Fin (of_nat k)\<rparr>"
    using assms(6,7) by (simp add: extractSummary_def obj_get_def Let_def)
  have e: "enforce E r (show_nat i) s = Inr (js_le (Fin (of_nat c))
      (js_times_100 (js_div_fin (of_nat t - of_nat f - of_nat k) (of_nat t))))"
    using assms(1,2) x summary by (simp add: enforce_def config_number_def)
  show ?thesis
  proof (cases "t = 0")
    case True
    have "- (rat_of_nat f) - of_nat k \<le> 0" by simp
    with True e show ?thesis by (auto simp: js_div_fin_def)
  next
    case False
    let ?p = "rat_of_int (int t - int f - int k)"
    have "rat_of_nat c \<le> ?p / of_nat t * 100 \<longleftrightarrow> rat_of_nat c * of_nat t \<le> ?p * 100"
      using False by (simp add: field_simps)
    also have "\<dots> \<longleftrightarrow> rat_of_int (int c * int t) \<le> rat_of_int (100 * (int t - int f - int k))"
      by (simp add: algebra_simps)
    also have "\<dots> \<longleftrightarrow> int c * int t \<le> 100 * (int t - int f - int k)" by (rule of_int_le_iff)
    finally show ?thesis using False e by (simp add: js_div_fin_def)
  qed
qed

text \<open>
  C0. A value that is no number, or a threshold that is none, never complies with a \<open>Threshold\<close>
  regulation, and decimal numbers are compared as numbers; the type of regulation the service
  does not know is an error, not a refusal.
\<close>

theorem threshold_compliance:
  "reg_typeName r = ''Threshold'' \<Longrightarrow>
     (js_isNaN v \<or> config_number r = NaN \<longrightarrow> enforce E r v s = Inr False) \<and>
     (\<forall>c n. reg_config r = Some (show_nat c) \<longrightarrow> v = show_nat n \<longrightarrow> enforce E r v s = Inr (c \<le> n)) \<and>
     enforce E (r\<lparr>reg_typeName := ''Other''\<rparr>) v s = Inl ErrorException"
  by (auto simp: enforce_def config_number_def)

definition demo_junit_db :: db where
  "demo_junit_db = empty_db\<lparr>artifacts := [demo_artifact 3 FILE ''r1'' (Some 2)],
     uploads := [demo_file 2 ''k'' FileUPloadStatusEnum.UPLOADED],
     bucket := putObject empty_store ''main'' ''k''
        \<lparr>obj_content = ''<x>'', obj_contentType = None, obj_lastModified = 0\<rparr>\<rparr>"

definition demo_regulation :: "string \<Rightarrow> string option \<Rightarrow> RegulationEntity" where
  "demo_regulation ty cfg = \<lparr>reg_id = 9, reg_name = ''tests'', reg_displayName = None, reg_description = None,
     reg_typeId = 1, reg_typeName = ty, reg_project = 1, reg_config = cfg, reg_order = 0\<rparr>"

definition demo_report_env :: env where
  "demo_report_env = demo_env\<lparr>xml_parse := (\<lambda>x. Inr (JObj [(''testsuites'', JObj [(''@_tests'', JStr (show_nat 10)),
     (''@_failures'', JStr (show_nat 1)), (''@_skipped'', JStr (show_nat 1))])]))\<rparr>"

lemma junit_compliance_witness:
  "enforce demo_report_env (demo_regulation ''JUnit'' (Some (show_nat 80))) (show_nat 3) demo_junit_db = Inr True \<and>
   enforce demo_report_env (demo_regulation ''JUnit'' (Some (show_nat 81))) (show_nat 3) demo_junit_db = Inr False"
proof -
  have a: "artifact_by_id demo_junit_db 3 = Some (demo_artifact 3 FILE ''r1'' (Some 2))"
    by (simp add: artifact_by_id_def demo_junit_db_def demo_defs)
  have f: "getFileStream demo_report_env 2 demo_junit_db = Inr ''<x>''"
    by (simp add: getFileStream_def upload_by_id_def getObject_def statObject_def putObject_def
        demo_junit_db_def demo_report_env_def demo_defs)
  note j = junit_compliance [of "demo_regulation ''JUnit'' (Some (show_nat c))" c demo_junit_db 3
      "demo_artifact 3 FILE ''r1'' (Some 2)" 2 demo_report_env "''<x>''" 10 1 1 for c]
  show ?thesis
    using j [of 80] j [of 81] a f by (simp add: demo_regulation_def demo_artifact_def demo_report_env_def)
qed

lemma threshold_compliance_witness:
  "enforce demo_env (demo_regulation ''Threshold'' (Some (show_nat 80))) (show_nat 79) empty_db = Inr False \<and>
   enforce demo_env (demo_regulation ''Threshold'' (Some (show_nat 80))) (show_nat 80) empty_db = Inr True"
  using threshold_compliance [of "demo_regulation ''Threshold'' (Some (show_nat 80))" "show_nat 79" demo_env empty_db]
    threshold_compliance [of "demo_regulation ''Threshold'' (Some (show_nat 80))" "show_nat 80" demo_env empty_db]
  by (simp add: demo_regulation_def)

section \<open>Setting and reading a status\<close>

definition status_key :: "RegulationStatusEntity \<Rightarrow> nat option \<times> string" where
  "status_key st = (rst_regulation st, rst_version st)"

text \<open>
  The unique constraint: one status per regulation and release, as far as the regulation still
  exists.
\<close>

definition statuses_unique :: "db \<Rightarrow> bool" where
  "statuses_unique s \<longleftrightarrow> distinct (map status_key (filter (\<lambda>st. rst_regulation st \<noteq> None) (statuses s)))"

lemma statuses_unique_upsert:
  assumes "statuses_unique s" "rst_regulation new = Some i" "rst_version new = c"
    and "\<And>st. rst_regulation (upd st) = rst_regulation st" "\<And>st. rst_version (upd st) = rst_version st"
  shows "statuses_unique (upsert_status i c upd new s)"
proof -
  let ?F = "filter (\<lambda>st. rst_regulation st \<noteq> None)" and ?P = "same_status i c"
  have u: "?F (update_where ?P upd rows) = update_where ?P upd (?F rows)" for rows
    by (rule filter_update_where) (simp add: assms(4))
  have ex: "(\<exists>st\<in>set (?F rows). ?P st) \<longleftrightarrow> (\<exists>st\<in>set rows. ?P st)" for rows
    by (auto simp: same_status_def)
  have "?F (upsert_row ?P upd new (statuses s)) = upsert_row ?P upd new (?F (statuses s))"
    using ex [of "statuses s"] u assms(2) by (simp add: upsert_row_def)
  moreover have "distinct (map status_key (upsert_row ?P upd new (?F (statuses s))))"
    using assms by (intro distinct_upsert_row) (auto simp: statuses_unique_def status_key_def same_status_def)
  ultimately show ?thesis by (simp add: statuses_unique_def upsert_status_def)
qed

lemma upsert_status_others:
  "rst_regulation new = Some i \<Longrightarrow> rst_version new = c \<Longrightarrow>
   (\<And>st. same_status i c (upd st) = same_status i c st) \<Longrightarrow>
   filter (\<lambda>st. \<not> same_status i c st) (statuses (upsert_status i c upd new s)) =
     filter (\<lambda>st. \<not> same_status i c st) (statuses s)"
proof -
  assume new: "rst_regulation new = Some i" "rst_version new = c"
    and upd: "\<And>st. same_status i c (upd st) = same_status i c st"
  have "filter (\<lambda>st. \<not> same_status i c st) (update_where (same_status i c) upd rows) =
      filter (\<lambda>st. \<not> same_status i c st) rows" for rows
    by (induction rows) (auto simp: upd)
  with new show ?thesis by (simp add: upsert_status_def upsert_row_def same_status_def)
qed

lemma upsert_status_row:
  assumes "rst_regulation new = Some i" "rst_version new = c"
    and "\<And>st. same_status i c (upd st) = same_status i c st" "Q new" "\<And>st. Q (upd st)"
  shows "\<exists>st\<in>set (statuses (upsert_status i c upd new s)). same_status i c st"
    and "\<forall>st\<in>set (statuses (upsert_status i c upd new s)). same_status i c st \<longrightarrow> Q st"
proof -
  have n: "same_status i c new" using assms(1,2) by (simp add: same_status_def)
  show "\<exists>st\<in>set (statuses (upsert_status i c upd new s)). same_status i c st"
    using n assms(3) by (auto simp: upsert_status_def upsert_row_def set_update_where)
  show "\<forall>st\<in>set (statuses (upsert_status i c upd new s)). same_status i c st \<longrightarrow> Q st"
    using assms(3-5) by (auto simp: upsert_status_def upsert_row_def set_update_where)
qed

lemma same_status_upd [simp]:
  "same_status i c (st\<lparr>rst_value := a\<rparr>) = same_status i c st"
  "same_status i c (st\<lparr>rst_reportDetails := a\<rparr>) = same_status i c st"
  "same_status i c (st\<lparr>rst_isCompliant := d\<rparr>) = same_status i c st"
  "same_status i c (st\<lparr>rst_regulationSnapshot := e\<rparr>) = same_status i c st"
  by (simp_all add: same_status_def)

lemma recorded_status:
  fixes details :: "string option"
  assumes "statuses_unique s" "getRegulationAndRelease regulation v pid s = Inr (reg, rel)" "enforce E reg val s = Inr b"
  defines "i \<equiv> reg_id reg" and "c \<equiv> rel_catalogId rel"
  defines "s' \<equiv> snd (setRegulationStatus E regulation v pid val details s)"
  shows "statuses_unique s'"
    "filter (\<lambda>st. \<not> same_status i c st) (statuses s') = filter (\<lambda>st. \<not> same_status i c st) (statuses s)"
    "\<exists>st\<in>set (statuses s'). same_status i c st"
    "\<forall>st\<in>set (statuses s'). same_status i c st \<longrightarrow>
       rst_value st = Some val \<and> rst_reportDetails st = details \<and> rst_isCompliant st = b \<and>
       rst_regulationSnapshot st = (if b then Some (createRegulationSnapshot reg) else None)"
proof -
  let ?snap = "if b then Some (createRegulationSnapshot reg) else None"
  let ?upd = "\<lambda>st. st\<lparr>rst_value := Some val, rst_reportDetails := details, rst_isCompliant := b,
                     rst_regulationSnapshot := ?snap\<rparr>"
  let ?new = "\<lparr>rst_id = next_id s, rst_version = c, rst_regulation = Some i,
               rst_regulationSnapshot = ?snap, rst_isCompliant = b, rst_value = Some val,
               rst_reportDetails = details\<rparr>"
  let ?Q = "\<lambda>st. rst_value st = Some val \<and> rst_reportDetails st = details \<and> rst_isCompliant st = b \<and>
               rst_regulationSnapshot st = ?snap"
  have s': "s' = upsert_status i c ?upd ?new s"
    using assms(2,3) by (simp add: s'_def i_def c_def setRegulationStatus_def Let_def)
  show "statuses_unique s'" unfolding s' using assms(1) by (intro statuses_unique_upsert) simp_all
  show "filter (\<lambda>st. \<not> same_status i c st) (statuses s') = filter (\<lambda>st. \<not> same_status i c st) (statuses s)"
    unfolding s' by (rule upsert_status_others) simp_all
  show "\<exists>st\<in>set (statuses s'). same_status i c st"
    unfolding s' by (rule upsert_status_row(1) [where Q = ?Q]) simp_all
  show "\<forall>st\<in>set (statuses s'). same_status i c st \<longrightarrow> ?Q st"
    unfolding s' by (rule upsert_status_row(2) [where Q = ?Q]) simp_all
qed

text \<open>
  C12. Setting a status either fails and leaves the state alone (unknown release or regulation, or
  an enforcement that throws), or records exactly the verdict: the one row of the regulation and
  the release carries the value, the verdict, and a snapshot of the regulation if and only if it
  complies; the rows of every other regulation or release stay as they were, and there is still
  at most one row per regulation and release.
\<close>

theorem set_status_effect:
  assumes "statuses_unique s" "setRegulationStatus E regulation v pid val details s = (res, s')"
  shows "(case getRegulationAndRelease regulation v pid s of
     Inl e \<Rightarrow> res = Inl e \<and> s' = s
   | Inr (reg, rel) \<Rightarrow>
       (case enforce E reg val s of
          Inl e \<Rightarrow> res = Inl e \<and> s' = s
        | Inr b \<Rightarrow> statuses_unique s' \<and>
            (\<exists>st\<in>set (statuses s'). same_status (reg_id reg) (rel_catalogId rel) st) \<and>
            (\<forall>st\<in>set (statuses s'). same_status (reg_id reg) (rel_catalogId rel) st \<longrightarrow>
               rst_value st = Some val \<and> rst_reportDetails st = details \<and> rst_isCompliant st = b \<and>
               rst_regulationSnapshot st = (if b then Some (createRegulationSnapshot reg) else None)) \<and>
            filter (\<lambda>st. \<not> same_status (reg_id reg) (rel_catalogId rel) st) (statuses s') =
              filter (\<lambda>st. \<not> same_status (reg_id reg) (rel_catalogId rel) st) (statuses s)))"
proof (cases "getRegulationAndRelease regulation v pid s")
  case (Inl e)
  with assms(2) show ?thesis by (simp add: setRegulationStatus_def)
next
  case (Inr p)
  obtain reg rel where p: "p = (reg, rel)" by (cases p)
  show ?thesis
  proof (cases "enforce E reg val s")
    case (Inl e)
    with Inr p assms(2) show ?thesis by (simp add: setRegulationStatus_def)
  next
    case b: (Inr b)
    from recorded_status [OF assms(1) Inr [unfolded p] b, of details] show ?thesis
      using assms(2) Inr p b by simp
  qed
qed

definition demo_status_db :: db where
  "demo_status_db = empty_db\<lparr>releases := [demo_release ''r1'' ''1.0.0'' IN_REVIEW],
     regulations := [demo_regulation ''Boolean'' None]\<rparr>"

lemma set_status_effect_witness:
  "map rst_isCompliant (statuses (snd (setRegulationStatus demo_env ''tests'' ''1.0.0'' 1 ''true'' None demo_status_db)))
     = [True] \<and>
   statuses_unique (snd (setRegulationStatus demo_env ''tests'' ''1.0.0'' 1 ''true'' None demo_status_db))"
proof
  show "map rst_isCompliant (statuses (snd (setRegulationStatus demo_env ''tests'' ''1.0.0'' 1 ''true'' None demo_status_db)))
     = [True]"
    by (simp add: demo_status_db_def demo_defs demo_regulation_def setRegulationStatus_def upsert_row_def
        getRegulationAndRelease_def find_release_def is_release_def enforce_def upsert_status_def Let_def)
  have u: "statuses_unique demo_status_db"
    by (simp add: statuses_unique_def demo_status_db_def demo_defs)
  show "statuses_unique (snd (setRegulationStatus demo_env ''tests'' ''1.0.0'' 1 ''true'' None demo_status_db))"
    using set_status_effect [OF u, of demo_env "''tests''" "''1.0.0''" 1 "''true''" None
        "fst (setRegulationStatus demo_env ''tests'' ''1.0.0'' 1 ''true'' None demo_status_db)"
        "snd (setRegulationStatus demo_env ''tests'' ''1.0.0'' 1 ''true'' None demo_status_db)"]
    by (simp add: demo_status_db_def demo_defs demo_regulation_def
        getRegulationAndRelease_def find_release_def is_release_def enforce_def)
qed



text \<open>
  Without the proviso: the second regulation's display name is the first one's name. Once the
  second complies, deleting the status of the first one deletes the row of the second.
\<close>

definition demo_collision_db :: db where
  "demo_collision_db = demo_status_db\<lparr>
     regulations := [demo_regulation ''Boolean'' None,
       (demo_regulation ''Boolean'' None)\<lparr>reg_id := 8, reg_name := ''lint'', reg_displayName := Some ''tests''\<rparr>]\<rparr>"

lemma delete_status_collision:
  "let s1 = snd (setRegulationStatus demo_env ''lint'' ''1.0.0'' 1 ''true'' None demo_collision_db);
       s2 = snd (setRegulationStatus demo_env ''tests'' ''1.0.0'' 1 ''false'' None s1);
       s3 = snd (deleteVersionRegulationStatus ''tests'' ''1.0.0'' 1 s2)
   in map rst_regulation (statuses s2) = [Some 8, Some 9] \<and> map rst_regulation (statuses s3) = [Some 9]"
  by code_simp

end
