(* ===== verification/Release_Order.thy ===== *)
theory Release_Order
  imports Entities
begin

text \<open>
  The order of the releases of a project: the subscriber that gives a new release its catalog id
  and its place (\<open>database/subscribers/release.subscriber.ts\<close>) and the update of the flag
  \<open>latest\<close> (\<open>updateLatestForProject\<close> of \<open>apps/upload/src/releases.service.ts\<close>). The package
  \<open>semver\<close> is a parameter: which strings are versions, and how two versions compare.
\<close>

section \<open>The subscriber\<close>

definition catalog_id_of :: "db \<Rightarrow> nat \<Rightarrow> string \<Rightarrow> string" where
  "catalog_id_of s pid v =
     show_nat pid @ ''.'' @ (case project_by_id s pid of Some p \<Rightarrow> pj_name p | None \<Rightarrow> ''undefined'') @ ''@'' @ v"

fun insort_by :: "('a \<Rightarrow> 'a \<Rightarrow> int) \<Rightarrow> 'a \<Rightarrow> 'a list \<Rightarrow> 'a list" where
  "insort_by c x [] = [x]"
| "insort_by c x (y # ys) = (if c x y \<le> 0 then x # y # ys else y # insort_by c x ys)"

text \<open>\<open>Array.sort\<close> with a comparison function, which is stable.\<close>

definition sort_by :: "('a \<Rightarrow> 'a \<Rightarrow> int) \<Rightarrow> 'a list \<Rightarrow> 'a list" where
  "sort_by c xs = foldr (insort_by c) xs []"

fun find_index :: "('a \<Rightarrow> bool) \<Rightarrow> 'a list \<Rightarrow> nat option" where
  "find_index P [] = None"
| "find_index P (x # xs) = (if P x then Some 0 else map_option Suc (find_index P xs))"

definition compare_versions :: "env \<Rightarrow> ReleaseEntity \<Rightarrow> ReleaseEntity \<Rightarrow> int" where
  "compare_versions E a b = semver_compare E (rel_version a) (rel_version b)"

definition semver_releases :: "env \<Rightarrow> nat \<Rightarrow> db \<Rightarrow> ReleaseEntity list" where
  "semver_releases E pid s =
     sort_by (compare_versions E)
       (filter (\<lambda>r. semver_valid E (rel_version r))
          (sort_key rel_sortOrder (filter (\<lambda>r. rel_project r = pid) (releases s))))"

definition new_sort_order :: "env \<Rightarrow> ReleaseEntity \<Rightarrow> db \<Rightarrow> int" where
  "new_sort_order E release s =
     (let rs = semver_releases E (rel_project release) s in
      case find_index (\<lambda>r. rel_version r = rel_version release) rs of
        Some i \<Rightarrow> if 0 < i then rel_sortOrder (rs ! (i - 1)) + 1 else 1
      | None \<Rightarrow> 1)"

definition afterInsert :: "env \<Rightarrow> ReleaseEntity \<Rightarrow> db \<Rightarrow> db" where
  "afterInsert E release s =
     (if \<not> semver_valid E (rel_version release) then s
      else
        let n = new_sort_order E release s;
            s1 = update_releases (\<lambda>r. n \<le> rel_sortOrder r) (\<lambda>r. r\<lparr>rel_sortOrder := rel_sortOrder r + 1\<rparr>) s
        in update_releases (\<lambda>r. rel_catalogId r = rel_catalogId release) (\<lambda>r. r\<lparr>rel_sortOrder := n\<rparr>) s1)"

text \<open>The insert of a new entity: \<open>beforeInsert\<close>, the row, \<open>afterInsert\<close>.\<close>

definition insert_release :: "env \<Rightarrow> ReleaseEntity \<Rightarrow> db \<Rightarrow> db" where
  "insert_release E r s =
     (let r1 = r\<lparr>rel_catalogId := catalog_id_of s (rel_project r) (rel_version r), rel_sortOrder := 0\<rparr>
      in afterInsert E r1 (s\<lparr>releases := releases s @ [r1]\<rparr>))"

section \<open>The latest release\<close>

definition max_sort_order :: "ReleaseEntity list \<Rightarrow> ReleaseEntity option" where
  "max_sort_order rs =
     (case rs of [] \<Rightarrow> None
      | r # rs' \<Rightarrow> Some (foldl (\<lambda>a b. if rel_sortOrder a < rel_sortOrder b then b else a) r rs'))"

definition top_released :: "nat \<Rightarrow> db \<Rightarrow> ReleaseEntity option" where
  "top_released pid s =
     max_sort_order (filter (\<lambda>r. rel_project r = pid \<and> rel_status r = RELEASED) (releases s))"

definition updateLatestForProject :: "nat \<Rightarrow> db \<Rightarrow> db" where
  "updateLatestForProject pid s =
     (let top = map_option rel_catalogId (top_released pid s) in
      update_releases (\<lambda>r. rel_project r = pid) (\<lambda>r. r\<lparr>rel_latest := (Some (rel_catalogId r) = top)\<rparr>) s)"

lemma foldl_max_sort_order:
  "foldl (\<lambda>a b. if rel_sortOrder a < rel_sortOrder b then b else a) r rs \<in> insert r (set rs) \<and>
   (\<forall>x\<in>insert r (set rs).
      rel_sortOrder x \<le> rel_sortOrder (foldl (\<lambda>a b. if rel_sortOrder a < rel_sortOrder b then b else a) r rs))"
proof (induction rs arbitrary: r)
  case (Cons x rs)
  show ?case using Cons [of "if rel_sortOrder r < rel_sortOrder x then x else r"] by (auto split: if_splits)
qed simp

lemma max_sort_order_Some:
  "max_sort_order rs = Some t \<Longrightarrow> t \<in> set rs \<and> (\<forall>x\<in>set rs. rel_sortOrder x \<le> rel_sortOrder t)"
  using foldl_max_sort_order by (cases rs) (auto simp: max_sort_order_def)

lemma max_sort_order_None: "max_sort_order rs = None \<longleftrightarrow> rs = []"
  by (cases rs) (simp_all add: max_sort_order_def)

lemma top_released_Some:
  "top_released pid s = Some t \<Longrightarrow>
   t \<in> set (releases s) \<and> rel_project t = pid \<and> rel_status t = RELEASED \<and>
   (\<forall>r\<in>set (releases s). rel_project r = pid \<longrightarrow> rel_status r = RELEASED \<longrightarrow> rel_sortOrder r \<le> rel_sortOrder t)"
  unfolding top_released_def using max_sort_order_Some by fastforce

lemma top_released_None:
  "top_released pid s = None \<longleftrightarrow> (\<forall>r\<in>set (releases s). rel_project r = pid \<longrightarrow> rel_status r \<noteq> RELEASED)"
  by (auto simp: top_released_def max_sort_order_None filter_empty_conv)

lemma releases_updateLatest:
  "releases (updateLatestForProject pid s) =
     map (\<lambda>r. if rel_project r = pid
              then r\<lparr>rel_latest := (Some (rel_catalogId r) = map_option rel_catalogId (top_released pid s))\<rparr> else r)
       (releases s)"
  by (simp add: updateLatestForProject_def Let_def update_where_def)

text \<open>What the update makes of one release.\<close>

definition flagged :: "nat \<Rightarrow> ReleaseEntity option \<Rightarrow> ReleaseEntity \<Rightarrow> ReleaseEntity" where
  "flagged pid top_one r =
     (if rel_project r = pid then r\<lparr>rel_latest := (Some (rel_catalogId r) = map_option rel_catalogId top_one)\<rparr> else r)"

lemma flagged_simps [simp]:
  "rel_project (flagged pid t r) = rel_project r" "rel_status (flagged pid t r) = rel_status r"
  "rel_sortOrder (flagged pid t r) = rel_sortOrder r" "(flagged pid t r)\<lparr>rel_latest := False\<rparr> = r\<lparr>rel_latest := False\<rparr>"
  "rel_project r \<noteq> pid \<Longrightarrow> flagged pid t r = r"
  "rel_project r = pid \<Longrightarrow> rel_latest (flagged pid t r) = (Some (rel_catalogId r) = map_option rel_catalogId t)"
  by (simp_all add: flagged_def)

lemma flagged_rows:
  "map (\<lambda>r. r\<lparr>rel_latest := False\<rparr>) (map (flagged pid t) rs) = map (\<lambda>r. r\<lparr>rel_latest := False\<rparr>) rs"
  "filter (\<lambda>r. rel_project r \<noteq> pid) (map (flagged pid t) rs) = filter (\<lambda>r. rel_project r \<noteq> pid) rs"
  "length (filter (\<lambda>r. rel_project r = pid \<and> rel_latest r) (map (flagged pid t) rs)) =
     length (filter (\<lambda>r. rel_project r = pid \<and> Some (rel_catalogId r) = map_option rel_catalogId t) rs)"
  by (induction rs) auto

lemma updateLatest_flagged:
  "releases (updateLatestForProject pid s) = map (flagged pid (top_released pid s)) (releases s)"
  by (simp add: releases_updateLatest flagged_def [abs_def])

lemma one_top_released:
  assumes "schema_ok s" "top_released pid s = Some t"
  shows "r \<in> set (releases s) \<Longrightarrow> rel_project r = pid \<and> Some (rel_catalogId r) = map_option rel_catalogId (Some t) \<longleftrightarrow> r = t"
    "length (filter (\<lambda>r. rel_project r = pid \<and> Some (rel_catalogId r) = map_option rel_catalogId (Some t)) (releases s)) = 1"
proof -
  note t = top_released_Some [OF assms(2)]
  have d: "distinct (map rel_catalogId (releases s))"
    using assms(1) by (simp add: schema_ok_def)
  show one: "rel_project r = pid \<and> Some (rel_catalogId r) = map_option rel_catalogId (Some t) \<longleftrightarrow> r = t"
    if "r \<in> set (releases s)" for r
    using that t distinct_key_inj [OF d that, of t] by auto
  have "{x. x = t} \<inter> set (releases s) = {t}"
    using t by blast
  then have "length (filter (\<lambda>r. r = t) (releases s)) = 1"
    using distinct_length_filter [of "releases s" "\<lambda>r. r = t"] d by (simp add: distinct_map)
  moreover have "filter (\<lambda>r. rel_project r = pid \<and> Some (rel_catalogId r) = map_option rel_catalogId (Some t)) (releases s) =
      filter (\<lambda>r. r = t) (releases s)"
    by (rule filter_cong [OF refl]) (rule one)
  ultimately show "length (filter (\<lambda>r. rel_project r = pid \<and> Some (rel_catalogId r) = map_option rel_catalogId (Some t)) (releases s)) = 1"
    by simp
qed

text \<open>
  C5. After \<open>updateLatestForProject\<close> at most one release of the project is marked latest. If
  the project has a released release there is exactly one, it is released and no released release of
  the project has a higher sort order; otherwise there is none. Nothing but that flag changes,
  and no release of another project.
\<close>

theorem latest_is_top_released:
  assumes "schema_ok s" "s' = updateLatestForProject pid s"
  shows "(\<forall>r\<in>set (releases s'). rel_project r = pid \<and> rel_latest r \<longrightarrow>
            rel_status r = RELEASED \<and>
            (\<forall>x\<in>set (releases s'). rel_project x = pid \<and> rel_status x = RELEASED \<longrightarrow> rel_sortOrder x \<le> rel_sortOrder r)) \<and>
     length (filter (\<lambda>r. rel_project r = pid \<and> rel_latest r) (releases s')) =
       (if \<exists>r\<in>set (releases s). rel_project r = pid \<and> rel_status r = RELEASED then 1 else 0) \<and>
     map (\<lambda>r. r\<lparr>rel_latest := False\<rparr>) (releases s') = map (\<lambda>r. r\<lparr>rel_latest := False\<rparr>) (releases s) \<and>
     filter (\<lambda>r. rel_project r \<noteq> pid) (releases s') = filter (\<lambda>r. rel_project r \<noteq> pid) (releases s)"
proof -
  note rows = updateLatest_flagged [of pid s]
  have frame: "map (\<lambda>r. r\<lparr>rel_latest := False\<rparr>) (releases s') = map (\<lambda>r. r\<lparr>rel_latest := False\<rparr>) (releases s)"
    "filter (\<lambda>r. rel_project r \<noteq> pid) (releases s') = filter (\<lambda>r. rel_project r \<noteq> pid) (releases s)"
    unfolding assms(2) rows by (rule flagged_rows)+
  show ?thesis
  proof (cases "top_released pid s")
    case None
    have none: "\<not> rel_latest r" if "r \<in> set (releases s')" "rel_project r = pid" for r
    proof -
      have "r \<in> flagged pid None ` set (releases s)"
        using that(1) by (simp add: assms(2) rows None)
      then obtain x where "r = flagged pid None x"
        by blast
      then show ?thesis
        using that(2) by simp
    qed
    then have "filter (\<lambda>r. rel_project r = pid \<and> rel_latest r) (releases s') = []"
      by (simp add: filter_empty_conv)
    moreover have "\<not> (\<exists>r\<in>set (releases s). rel_project r = pid \<and> rel_status r = RELEASED)"
      using None top_released_None [of pid s] by blast
    ultimately show ?thesis
      using frame none by auto
  next
    case (Some t)
    note t = top_released_Some [OF Some] and one = one_top_released [OF assms(1) Some]
    have "\<exists>r\<in>set (releases s). rel_project r = pid \<and> rel_status r = RELEASED"
      using t by blast
    moreover have "length (filter (\<lambda>r. rel_project r = pid \<and> rel_latest r) (releases s')) = 1"
      unfolding assms(2) rows flagged_rows(3) Some by (rule one(2))
    moreover have "rel_status r = RELEASED \<and> (\<forall>x\<in>set (releases s'). rel_project x = pid \<and> rel_status x = RELEASED \<longrightarrow>
          rel_sortOrder x \<le> rel_sortOrder r)"
      if r: "r \<in> set (releases s')" "rel_project r = pid \<and> rel_latest r" for r
    proof -
      have "r \<in> flagged pid (top_released pid s) ` set (releases s)"
        using r(1) by (simp add: assms(2) rows)
      then obtain r0 where r0: "r0 \<in> set (releases s)" "r = flagged pid (Some t) r0"
        by (auto simp: Some)
      then have "r0 = t"
        using r(2) one(1) [OF r0(1)] flagged_simps(6) [of r0 pid "Some t"] by simp
      then show ?thesis
        using t r0(2) by (auto simp: assms(2) rows)
    qed
    ultimately show ?thesis
      using frame by simp
  qed
qed

definition demo_two_releases :: db where
  "demo_two_releases = empty_db\<lparr>releases :=
     [(demo_release ''a'' ''1'' RELEASED)\<lparr>rel_latest := True\<rparr>,
      (demo_release ''b'' ''2'' RELEASED)\<lparr>rel_sortOrder := 2\<rparr>]\<rparr>"

lemma latest_is_top_released_witness:
  "length (filter (\<lambda>r. rel_project r = 1 \<and> rel_latest r) (releases (updateLatestForProject 1 demo_two_releases))) = 1"
proof -
  have "schema_ok demo_two_releases"
    by (simp add: schema_ok_def demo_two_releases_def demo_defs release_key_def)
  from latest_is_top_released [OF this refl, of 1] show ?thesis
    by (simp add: demo_two_releases_def demo_defs)
qed

section \<open>The place of a new release\<close>

text \<open>
  What the subscriber relies on: \<open>semver.compare\<close> is antisymmetric and transitive on valid
  versions, and two releases of the project whose versions compare equal have the same
  version, that is, versions do not differ in their build metadata alone.
\<close>

definition semver_linear :: "env \<Rightarrow> string set \<Rightarrow> bool" where
  "semver_linear E V \<longleftrightarrow>
     (\<forall>a\<in>V. \<forall>b\<in>V. (semver_compare E a b < 0 \<longleftrightarrow> 0 < semver_compare E b a) \<and>
        (semver_compare E a b = 0 \<longleftrightarrow> a = b) \<and>
        (\<forall>c\<in>V. semver_compare E a b < 0 \<longrightarrow> semver_compare E b c < 0 \<longrightarrow> semver_compare E a c < 0))"

definition order_ok :: "env \<Rightarrow> db \<Rightarrow> bool" where
  "order_ok E s \<longleftrightarrow>
     (\<forall>x\<in>set (releases s). semver_valid E (rel_version x) \<longrightarrow> 1 \<le> rel_sortOrder x \<and>
        (\<forall>y\<in>set (releases s). rel_project y = rel_project x \<longrightarrow> semver_valid E (rel_version y) \<longrightarrow>
           compare_versions E x y < 0 \<longrightarrow> rel_sortOrder x < rel_sortOrder y))"

lemma mset_insort_by [simp]: "mset (insort_by c x xs) = add_mset x (mset xs)"
  by (induction xs) auto

lemma mset_sort_by [simp]: "mset (sort_by c xs) = mset xs"
  unfolding sort_by_def by (induction xs) auto

lemma set_sort_by [simp]: "set (sort_by c xs) = set xs"
  by (metis mset_sort_by set_mset_mset)

lemma set_insort_by [simp]: "set (insort_by c x xs) = insert x (set xs)"
  by (metis mset_insort_by set_mset_mset set_mset_add_mset_insert)

lemma sorted_insort_by:
  assumes tot: "\<And>a b. a \<in> A \<Longrightarrow> b \<in> A \<Longrightarrow> c a b \<le> 0 \<or> c b a \<le> 0"
    and trans: "\<And>a b d. a \<in> A \<Longrightarrow> b \<in> A \<Longrightarrow> d \<in> A \<Longrightarrow> c a b \<le> 0 \<Longrightarrow> c b d \<le> 0 \<Longrightarrow> c a d \<le> 0"
    and x: "x \<in> A"
  shows "set xs \<subseteq> A \<Longrightarrow> sorted_wrt (\<lambda>a b. c a b \<le> 0) xs \<Longrightarrow> sorted_wrt (\<lambda>a b. c a b \<le> 0) (insort_by c x xs)"
proof (induction xs)
  case (Cons y ys)
  have y: "y \<in> A" "\<And>z. z \<in> set ys \<Longrightarrow> z \<in> A \<and> c y z \<le> 0" using Cons.prems by auto
  show ?case
  proof (cases "c x y \<le> 0")
    case True
    then have "c x z \<le> 0" if "z \<in> set ys" for z using trans [OF x y(1)] y(2) [OF that] by blast
    with True Cons.prems show ?thesis by simp
  next
    case False
    then have "c y x \<le> 0" using tot [OF x y(1)] by blast
    moreover have "sorted_wrt (\<lambda>a b. c a b \<le> 0) (insort_by c x ys)" using Cons by simp
    ultimately show ?thesis using False y(2) by simp
  qed
qed simp

lemma sorted_sort_by:
  assumes tot: "\<And>a b. a \<in> A \<Longrightarrow> b \<in> A \<Longrightarrow> c a b \<le> 0 \<or> c b a \<le> 0"
    and trans: "\<And>a b d. a \<in> A \<Longrightarrow> b \<in> A \<Longrightarrow> d \<in> A \<Longrightarrow> c a b \<le> 0 \<Longrightarrow> c b d \<le> 0 \<Longrightarrow> c a d \<le> 0"
  shows "set xs \<subseteq> A \<Longrightarrow> sorted_wrt (\<lambda>a b. c a b \<le> 0) (sort_by c xs)"
proof (induction xs)
  case (Cons x xs)
  have "sort_by c (x # xs) = insort_by c x (sort_by c xs)" by (simp add: sort_by_def)
  with Cons show ?case by (simp add: sorted_insort_by [of A c, OF tot trans])
qed (simp add: sort_by_def)

lemma find_index_Some:
  "find_index P xs = Some i \<Longrightarrow> i < length xs \<and> P (xs ! i) \<and> (\<forall>j<i. \<not> P (xs ! j))"
proof (induction xs arbitrary: i)
  case (Cons x xs)
  show ?case
  proof (cases "P x")
    case False
    then obtain k where k: "find_index P xs = Some k" "i = Suc k" using Cons.prems by auto
    with Cons.IH [OF k(1)] False show ?thesis by (auto simp: nth_Cons split: nat.splits)
  qed (use Cons.prems in simp)
qed simp

lemma find_index_ex: "\<exists>x\<in>set xs. P x \<Longrightarrow> \<exists>i. find_index P xs = Some i"
  by (induction xs) auto

lemma set_semver_releases:
  "set (semver_releases E pid s) =
     {r \<in> set (releases s). rel_project r = pid \<and> semver_valid E (rel_version r)}"
  by (auto simp: semver_releases_def)

lemma new_sort_order_place:
  assumes lin: "semver_linear E (rel_version ` {x \<in> set (releases s). rel_project x = rel_project r \<and> semver_valid E (rel_version x)})"
    and uniq: "distinct (map release_key (releases s))" and r: "r \<in> set (releases s)" "semver_valid E (rel_version r)"
    and inv: "\<And>x y. x \<in> set (releases s) \<Longrightarrow> y \<in> set (releases s) \<Longrightarrow> x \<noteq> r \<Longrightarrow> y \<noteq> r \<Longrightarrow>
       rel_project x = rel_project r \<Longrightarrow> rel_project y = rel_project r \<Longrightarrow> semver_valid E (rel_version x) \<Longrightarrow>
       semver_valid E (rel_version y) \<Longrightarrow> compare_versions E x y < 0 \<Longrightarrow> rel_sortOrder x < rel_sortOrder y"
    and pos: "\<And>x. x \<in> set (releases s) \<Longrightarrow> x \<noteq> r \<Longrightarrow> semver_valid E (rel_version x) \<Longrightarrow> 1 \<le> rel_sortOrder x"
  shows "1 \<le> new_sort_order E r s \<and>
    (\<forall>x\<in>set (releases s). x \<noteq> r \<longrightarrow> rel_project x = rel_project r \<longrightarrow> semver_valid E (rel_version x) \<longrightarrow>
       (compare_versions E x r < 0 \<longrightarrow> rel_sortOrder x < new_sort_order E r s) \<and>
       (compare_versions E r x < 0 \<longrightarrow> new_sort_order E r s \<le> rel_sortOrder x))"
proof -
  let ?c = "compare_versions E" and ?sl = "semver_releases E (rel_project r) s"
  let ?A = "{x \<in> set (releases s). rel_project x = rel_project r \<and> semver_valid E (rel_version x)}"
  have A: "set ?sl = ?A" by (rule set_semver_releases)
  have L: "(?c a b < 0 \<longleftrightarrow> 0 < ?c b a)" "(?c a b = 0 \<longleftrightarrow> rel_version a = rel_version b)" if "a \<in> ?A" "b \<in> ?A" for a b
    using lin that unfolding semver_linear_def compare_versions_def by blast+
  have T: "?c a d < 0" if "a \<in> ?A" "b \<in> ?A" "d \<in> ?A" "?c a b < 0" "?c b d < 0" for a b d
    using lin that unfolding semver_linear_def compare_versions_def by blast
  have same: "a = b" if "a \<in> ?A" "b \<in> ?A" "rel_version a = rel_version b" for a b
    using distinct_key_inj [OF uniq, of a b] that by (simp add: release_key_def)
  have tot: "?c a b \<le> 0 \<or> ?c b a \<le> 0" if "a \<in> ?A" "b \<in> ?A" for a b using L(1) [OF that] by linarith
  have trans: "?c a d \<le> 0" if a: "a \<in> ?A" "b \<in> ?A" "d \<in> ?A" and le: "?c a b \<le> 0" "?c b d \<le> 0" for a b d
  proof (cases "a = b \<or> b = d")
    case False
    then have "?c a b \<noteq> 0" "?c b d \<noteq> 0" using L(2) same a by blast+
    with T [OF a] le show ?thesis by force
  qed (use le in blast)
  have sorted: "sorted_wrt (\<lambda>a b. ?c a b \<le> 0) ?sl"
    unfolding semver_releases_def by (rule sorted_sort_by [where A = ?A, OF tot trans]) auto
  have rA: "r \<in> ?A" using r by simp
  then obtain i where i: "find_index (\<lambda>x. rel_version x = rel_version r) ?sl = Some i"
    using find_index_ex [of ?sl "\<lambda>x. rel_version x = rel_version r"] A by blast
  have il: "i < length ?sl" "rel_version (?sl ! i) = rel_version r" "\<forall>j<i. rel_version (?sl ! j) \<noteq> rel_version r"
    using find_index_Some [OF i] by auto
  have nthA: "?sl ! j \<in> ?A" if "j < length ?sl" for j using that A nth_mem by blast
  have ri: "?sl ! i = r" using same [OF nthA [OF il(1)] rA] il(2) by simp
  have before: "\<exists>j<i. ?sl ! j = x" if x: "x \<in> ?A" "?c x r < 0" for x
  proof -
    obtain j where j: "j < length ?sl" "?sl ! j = x" using x(1) A by (metis in_set_conv_nth)
    have "j \<noteq> i" using x(2) j(2) ri L(2) [OF rA rA] by auto
    moreover have "\<not> i < j"
      using sorted_wrt_nth_less [OF sorted, of i j] j ri x L(1) [OF x(1) rA] by auto
    ultimately show ?thesis using j(2) by (intro exI [of _ j]) simp
  qed
  show ?thesis
  proof (cases "i = 0")
    case True
    then have n: "new_sort_order E r s = 1" by (simp add: new_sort_order_def Let_def i)
    show ?thesis using n pos before True by auto
  next
    case False
    define p where "p = ?sl ! (i - 1)"
    have n: "new_sort_order E r s = rel_sortOrder p + 1"
      using False by (simp add: new_sort_order_def Let_def i p_def)
    have pA: "p \<in> ?A" unfolding p_def using il(1) by (intro nthA) simp
    have pv: "rel_version p \<noteq> rel_version r" using il(3) False by (simp add: p_def)
    then have pr: "p \<noteq> r" by auto
    have "?c p r \<le> 0" using sorted_wrt_nth_less [OF sorted, of "i - 1" i] il(1) False ri by (simp add: p_def)
    then have plt: "?c p r < 0" using L(2) [OF pA rA] pv by linarith
    have "rel_sortOrder x < new_sort_order E r s" if x: "x \<in> ?A" "x \<noteq> r" "?c x r < 0" for x
    proof -
      obtain j where j: "j < i" "?sl ! j = x" using before [OF x(1,3)] by blast
      have "j = i - 1 \<or> j < i - 1" using j(1) by linarith
      then show ?thesis
      proof
        assume "j < i - 1"
        then have "?c x p \<le> 0" using sorted_wrt_nth_less [OF sorted, of j "i - 1"] j(2) il(1) by (simp add: p_def)
        then show ?thesis
          using inv [of x p] same [OF x(1) pA] L(2) [OF x(1) pA] x pA pr n by (cases "x = p") force+
      qed (use j(2) n in \<open>simp add: p_def\<close>)
    qed
    moreover have "new_sort_order E r s \<le> rel_sortOrder x" if x: "x \<in> ?A" "x \<noteq> r" "?c r x < 0" for x
      using T [OF pA rA x(1) plt x(3)] inv [of p x] pA x pr n by force
    ultimately show ?thesis using n pos [of p] pA pr by auto
  qed
qed

lemma releases_insert_release:
  assumes "catalog_id_of s (rel_project r) (rel_version r) \<notin> set (map rel_catalogId (releases s))"
    and "semver_valid E (rel_version r)"
  shows "releases (insert_release E r s) =
     (let r1 = r\<lparr>rel_catalogId := catalog_id_of s (rel_project r) (rel_version r), rel_sortOrder := 0\<rparr>;
          n = new_sort_order E r1 (s\<lparr>releases := releases s @ [r1]\<rparr>)
      in map (\<lambda>x. if n \<le> rel_sortOrder x then x\<lparr>rel_sortOrder := rel_sortOrder x + 1\<rparr> else x) (releases s) @
         [r1\<lparr>rel_sortOrder := n\<rparr>])"
proof -
  have "update_where (\<lambda>x. rel_catalogId x = c) f (update_where P (\<lambda>r. r\<lparr>rel_sortOrder := rel_sortOrder r + 1\<rparr>) rows) =
      update_where P (\<lambda>r. r\<lparr>rel_sortOrder := rel_sortOrder r + 1\<rparr>) rows"
    if "c \<notin> set (map rel_catalogId rows)" for c f P and rows :: "ReleaseEntity list"
    by (rule update_where_none) (use that in \<open>auto simp: set_update_where split: if_splits\<close>)
  with assms show ?thesis
    by (simp add: insert_release_def afterInsert_def Let_def) (simp add: update_where_def)
qed

text \<open>Making room at a place, and a release put there that all others of its project agree with.\<close>

definition shift_from :: "int \<Rightarrow> ReleaseEntity \<Rightarrow> ReleaseEntity" where
  "shift_from n x = (if n \<le> rel_sortOrder x then x\<lparr>rel_sortOrder := rel_sortOrder x + 1\<rparr> else x)"

lemma shift_from_simps [simp]:
  "rel_version (shift_from n x) = rel_version x" "rel_project (shift_from n x) = rel_project x"
  "rel_sortOrder (shift_from n x) < rel_sortOrder (shift_from n y) \<longleftrightarrow> rel_sortOrder x < rel_sortOrder y"
  "n < rel_sortOrder (shift_from n x) \<longleftrightarrow> n \<le> rel_sortOrder x" "rel_sortOrder (shift_from n x) < n \<longleftrightarrow> rel_sortOrder x < n"
  by (auto simp: shift_from_def)

lemma placed_in_order:
  assumes "order_ok E s" "compare_versions E r1 r1 = 0" "1 \<le> n"
    and place: "\<And>x. x \<in> set (releases s) \<Longrightarrow> rel_project x = rel_project r1 \<Longrightarrow> semver_valid E (rel_version x) \<Longrightarrow>
      (compare_versions E x r1 < 0 \<longrightarrow> rel_sortOrder x < n) \<and> (compare_versions E r1 x < 0 \<longrightarrow> n \<le> rel_sortOrder x)"
    and rows: "releases s' = map (shift_from n) (releases s) @ [r1\<lparr>rel_sortOrder := n\<rparr>]"
  shows "order_ok E s'"
proof -
  have old: "1 \<le> rel_sortOrder x" if "x \<in> set (releases s)" "semver_valid E (rel_version x)" for x
    using assms(1) that by (auto simp: order_ok_def)
  have less: "rel_sortOrder x < rel_sortOrder y" if "x \<in> set (releases s)" "y \<in> set (releases s)" "rel_project y = rel_project x"
    "semver_valid E (rel_version x)" "semver_valid E (rel_version y)" "compare_versions E x y < 0" for x y
    using assms(1) that by (auto simp: order_ok_def)
  have cmp: "compare_versions E (shift_from n x) y = compare_versions E x y" "compare_versions E x (shift_from n y) = compare_versions E x y"
    "compare_versions E (r1\<lparr>rel_sortOrder := n\<rparr>) y = compare_versions E r1 y" "compare_versions E x (r1\<lparr>rel_sortOrder := n\<rparr>) = compare_versions E x r1" for x y
    by (simp_all add: compare_versions_def)
  have "1 \<le> rel_sortOrder (shift_from n x)" if "x \<in> set (releases s)" "semver_valid E (rel_version x)" for x
    using old [OF that] by (simp add: shift_from_def)
  then show ?thesis
    using assms(2,3) place less unfolding order_ok_def rows by (auto simp: cmp)
qed

text \<open>
  C4. The insert of a release keeps the order of every project: if the valid versions of each
  project are ordered by \<open>sort_order\<close> (and start at 1) before, they are after, with the new
  release at its place, provided its version and catalog id are new.
\<close>

theorem insert_keeps_version_order:
  assumes "order_ok E s" "schema_ok s" "semver_valid E (rel_version r)"
    and fresh: "find_release s (rel_project r) (rel_version r) = None"
      "release_by_catalog s (catalog_id_of s (rel_project r) (rel_version r)) = None"
    and lin: "semver_linear E (insert (rel_version r) (rel_version `
        {x \<in> set (releases s). rel_project x = rel_project r \<and> semver_valid E (rel_version x)}))"
  shows "order_ok E (insert_release E r s) \<and>
     length (releases (insert_release E r s)) = Suc (length (releases s))"
proof -
  define r1 where "r1 = r\<lparr>rel_catalogId := catalog_id_of s (rel_project r) (rel_version r), rel_sortOrder := 0\<rparr>"
  define s1 where "s1 = s\<lparr>releases := releases s @ [r1]\<rparr>"
  define n where "n = new_sort_order E r1 s1"
  have cat: "catalog_id_of s (rel_project r) (rel_version r) \<notin> set (map rel_catalogId (releases s))"
    using fresh(2) by (auto simp: release_by_catalog_def find_None_conv)
  have rows: "releases (insert_release E r s) = map (shift_from n) (releases s) @ [r1\<lparr>rel_sortOrder := n\<rparr>]"
    using releases_insert_release [OF cat assms(3)]
    by (simp add: Let_def shift_from_def [abs_def] n_def s1_def r1_def)
  have new: "r1 \<notin> set (releases s)" "release_key r1 \<notin> set (map release_key (releases s))"
    using cat fresh(1)
    by (auto simp: r1_def find_release_def find_None_conv is_release_def release_key_def)
  have "{x \<in> set (releases s1). rel_project x = rel_project r1 \<and> semver_valid E (rel_version x)} =
      insert r1 {x \<in> set (releases s). rel_project x = rel_project r \<and> semver_valid E (rel_version x)}"
    using assms(3) by (auto simp: s1_def r1_def)
  then have lin1: "semver_linear E (rel_version ` {x \<in> set (releases s1). rel_project x = rel_project r1 \<and> semver_valid E (rel_version x)})"
    using lin by (simp add: r1_def)
  have "distinct (map release_key (releases s1))"
    using assms(2) new by (simp add: s1_def schema_ok_def)
  then have place: "1 \<le> n \<and> (\<forall>x\<in>set (releases s1). x \<noteq> r1 \<longrightarrow> rel_project x = rel_project r1 \<longrightarrow> semver_valid E (rel_version x) \<longrightarrow>
       (compare_versions E x r1 < 0 \<longrightarrow> rel_sortOrder x < n) \<and> (compare_versions E r1 x < 0 \<longrightarrow> n \<le> rel_sortOrder x))"
    unfolding n_def using lin1
    by (intro new_sort_order_place) (use assms(1,3) in \<open>auto simp: order_ok_def s1_def r1_def\<close>)
  have "compare_versions E r1 r1 = 0"
    using lin unfolding semver_linear_def compare_versions_def by (simp add: r1_def)
  then have "order_ok E (insert_release E r s)"
    using place new(1) by (intro placed_in_order [OF assms(1) _ _ _ rows]) (auto simp: s1_def)
  then show ?thesis
    by (simp add: rows)
qed

definition demo_ordered_releases :: db where
  "demo_ordered_releases = empty_db\<lparr>releases :=
     [demo_release ''a'' ''1'' RELEASED, (demo_release ''b'' ''333'' RELEASED)\<lparr>rel_sortOrder := 2\<rparr>]\<rparr>"

lemma insert_keeps_version_order_witness:
  "order_ok demo_env (insert_release demo_env (demo_release ''x'' ''22'' DRAFT) demo_ordered_releases) \<and>
   map rel_sortOrder (releases (insert_release demo_env (demo_release ''x'' ''22'' DRAFT) demo_ordered_releases)) = [1, 3, 2]"
proof
  have "order_ok demo_env (insert_release demo_env (demo_release ''x'' ''22'' DRAFT) demo_ordered_releases) \<and>
     length (releases (insert_release demo_env (demo_release ''x'' ''22'' DRAFT) demo_ordered_releases)) =
       Suc (length (releases demo_ordered_releases))"
  proof (rule insert_keeps_version_order)
    show "order_ok demo_env demo_ordered_releases"
      by (simp add: order_ok_def demo_ordered_releases_def demo_defs compare_versions_def)
    show "schema_ok demo_ordered_releases"
      by (simp add: schema_ok_def demo_ordered_releases_def demo_defs release_key_def)
    have "{x \<in> set (releases demo_ordered_releases). rel_project x = 1 \<and> rel_version x \<noteq> []} =
        set (releases demo_ordered_releases)"
      by (auto simp: demo_ordered_releases_def demo_defs)
    moreover have "rel_version ` set (releases demo_ordered_releases) = {''1'', ''333''}"
      by (simp add: demo_ordered_releases_def demo_defs)
    ultimately show "semver_linear demo_env (insert (rel_version (demo_release ''x'' ''22'' DRAFT)) (rel_version `
        {x \<in> set (releases demo_ordered_releases). rel_project x = rel_project (demo_release ''x'' ''22'' DRAFT) \<and>
           semver_valid demo_env (rel_version x)}))"
      by (simp add: demo_defs semver_linear_def)
  qed (simp_all add: demo_ordered_releases_def demo_defs find_release_def is_release_def release_by_catalog_def
      catalog_id_of_def show_nat.simps digit_char_def)
  then show "order_ok demo_env (insert_release demo_env (demo_release ''x'' ''22'' DRAFT) demo_ordered_releases)" by blast
  show "map rel_sortOrder (releases (insert_release demo_env (demo_release ''x'' ''22'' DRAFT) demo_ordered_releases)) = [1, 3, 2]"
    by code_simp
qed

end
