(* ===== verification/Release_State.thy ===== *)
theory Release_State
  imports Regulation Release_Order Storage_Sync Project_Access
begin

text \<open>
  The state of a release (\<open>apps/upload/src/releases.service.ts\<close>): what clients are shown of it
  (\<open>dto/upload/dto/release.dto.ts\<close>, \<open>release-artifact.dto.ts\<close>), who may edit it, its total size,
  the events about it, and \<open>refreshReleaseState\<close>, which moves a release between \<open>IN_REVIEW\<close>,
  \<open>RELEASED\<close> and \<open>ERROR\<close> as its regulations, files and dependencies require.
\<close>

section \<open>Who may edit a release\<close>

text \<open>
  Without a user in the request context the look-up of its roles is a \<open>TypeError\<close>.
\<close>

definition checkReadonlyReleasePermission ::
  "JwtPayload option \<Rightarrow> ReleaseStatusEnum option \<Rightarrow> unit result" where
  "checkReadonlyReleasePermission user status =
     (if status = Some RELEASED \<or> status = Some ReleaseStatusEnum.ERROR then
        (case user of
           None \<Rightarrow> Inl ErrorException
         | Some u \<Rightarrow> if hasRole u (api_role_value EDIT_RELEASED_RELEASE) then Inr () else Inl ForbiddenException)
      else Inr ())"

definition user_can_edit :: "JwtPayload option \<Rightarrow> bool" where
  "user_can_edit user =
     (case user of None \<Rightarrow> False | Some u \<Rightarrow> hasRole u (api_role_value EDIT_RELEASED_RELEASE))"

section \<open>What clients are shown\<close>

record ReleaseDto =
  rd_id :: string
  rd_version :: string
  rd_projectName :: "string option"
  rd_projectId :: nat
  rd_name :: string
  rd_releaseNotes :: string
  rd_metadata :: metadata
  rd_status :: ReleaseStatusEnum
  rd_requiredRegulationsCount :: nat
  rd_compliantRegulationsCount :: nat
  rd_latest :: bool
  rd_releasedAt :: "nat option"
  rd_createdBy :: "string option"
  rd_updatedBy :: "string option"
  rd_isImported :: bool
  rd_readonly :: bool

definition or_empty :: "string option \<Rightarrow> string" where
  "or_empty x = (case x of None \<Rightarrow> [] | Some v \<Rightarrow> v)"

definition ReleaseDto_fromEntity :: "db \<Rightarrow> ReleaseEntity \<Rightarrow> bool \<Rightarrow> ReleaseDto" where
  "ReleaseDto_fromEntity s r userCanEditImported =
     \<lparr>rd_id = rel_catalogId r, rd_version = rel_version r,
      rd_projectName = map_option pj_name (project_by_id s (rel_project r)), rd_projectId = rel_project r,
      rd_name = or_empty (rel_name r), rd_releaseNotes = or_empty (rel_releaseNotes r),
      rd_metadata = rel_metadata r, rd_status = rel_status r,
      rd_requiredRegulationsCount = rel_requiredRegulationsCount r,
      rd_compliantRegulationsCount = rel_compliantRegulationsCount r, rd_latest = rel_latest r,
      rd_releasedAt = rel_releasedAt r, rd_createdBy = rel_createdBy r, rd_updatedBy = rel_updatedBy r,
      rd_isImported = rel_isImported r,
      rd_readonly = ((rel_status r = RELEASED \<or> rel_status r = ReleaseStatusEnum.ERROR) \<and> \<not> userCanEditImported)\<rparr>"

text \<open>A size that is \<open>null\<close> in the table is read as 0 by the column's transformer.\<close>

record ReleaseArtifactDto =
  rad_id :: nat
  rad_artifactName :: string
  rad_type :: ArtifactTypeEnum
  rad_metadata :: metadata
  rad_isInstallationFile :: bool
  rad_dockerImageUrl :: "string option"
  rad_uploadId :: "nat option"
  rad_status :: "FileUPloadStatusEnum option"
  rad_size :: "nat option"
  rad_progress :: nat
  rad_error :: "string option"
  rad_sha256 :: "string option"
  rad_arguments :: "string option"
  rad_isExecutable :: bool
  rad_enableSbomScan :: bool
  rad_sbomScanId :: "string option"
  rad_packageVersion :: "string option"

definition size_of_upload :: "FileUploadEntity \<Rightarrow> nat" where
  "size_of_upload f = (case fu_size f of None \<Rightarrow> 0 | Some n \<Rightarrow> n)"

definition ReleaseArtifactDto_fromEntity :: "db \<Rightarrow> ReleaseArtifactEntity \<Rightarrow> ReleaseArtifactDto" where
  "ReleaseArtifactDto_fromEntity s a =
     (let fu = artifact_upload s a;
          isDockerUrlOnly = (art_type a = DOCKER_IMAGE \<and> fu = None);
          isPackageArtifact = (art_type a = RPM \<or> art_type a = DEB);
          ready = (isDockerUrlOnly \<or> isPackageArtifact)
      in \<lparr>rad_id = art_id a, rad_artifactName = or_empty (art_artifactName a), rad_type = art_type a,
          rad_metadata = art_metadata a, rad_isInstallationFile = art_isInstallationFile a,
          rad_dockerImageUrl = art_dockerImageUrl a, rad_uploadId = map_option fu_id fu,
          rad_status = (if ready then Some FileUPloadStatusEnum.UPLOADED else map_option fu_status fu),
          rad_size = map_option size_of_upload fu,
          rad_progress = (if ready then 100 else (case fu of None \<Rightarrow> 0 | Some f \<Rightarrow> fu_progress f)),
          rad_error = (case fu of None \<Rightarrow> None | Some f \<Rightarrow> fu_error f),
          rad_sha256 = (case fu of None \<Rightarrow> None | Some f \<Rightarrow> fu_sha256 f),
          rad_arguments = art_arguments a, rad_isExecutable = art_isExecutable a,
          rad_enableSbomScan = art_enableSbomScan a, rad_sbomScanId = art_sbomScanId a,
          rad_packageVersion = art_packageVersion a\<rparr>)"

record ReleasePolicyDto =
  rpd_id :: string
  rpd_name :: string
  rpd_description :: "string option"
  rpd_isActive :: bool
  rpd_isPush :: bool
  rpd_rule :: json

record DetailedReleaseDto = ReleaseDto +
  drd_artifacts :: "ReleaseArtifactDto list"
  drd_dependencies :: "ReleaseDto list"
  drd_policies :: "ReleasePolicyDto list"

definition rule_by_id :: "db \<Rightarrow> string \<Rightarrow> RuleEntity option" where
  "rule_by_id s i = List.find (\<lambda>r. rul_id r = i) (rules s)"

definition policies_of :: "db \<Rightarrow> string \<Rightarrow> ReleasePolicyDto list" where
  "policies_of s c =
     concat (map (\<lambda>rr. case rule_by_id s (rr_rule rr) of
          None \<Rightarrow> []
        | Some u \<Rightarrow> [\<lparr>rpd_id = rul_id u, rpd_name = rul_name u, rpd_description = rul_description u,
                     rpd_isActive = rul_isActive u, rpd_isPush = rul_isPush u, rpd_rule = rul_rule u\<rparr>])
        (filter (\<lambda>rr. rr_release rr = c) (ruleReleases s)))"

definition DetailedReleaseDto_fromEntity :: "db \<Rightarrow> ReleaseEntity \<Rightarrow> bool \<Rightarrow> DetailedReleaseDto" where
  "DetailedReleaseDto_fromEntity s r userCanEditImported =
     ReleaseDto.extend (ReleaseDto_fromEntity s r userCanEditImported)
       (DetailedReleaseDto.fields
          (map (ReleaseArtifactDto_fromEntity s) (artifacts_of s (rel_catalogId r)))
          (map (\<lambda>d. ReleaseDto_fromEntity s d userCanEditImported) (dependencies_of s (rel_catalogId r)))
          (policies_of s (rel_catalogId r)))"

definition MinimalReleaseDto_fromReleaseDto :: "ReleaseDto \<Rightarrow> MinimalReleaseDto" where
  "MinimalReleaseDto_fromReleaseDto d =
     \<lparr>min_id = rd_id d, min_version = rd_version d, min_name = rd_name d,
      min_requiredRegulationsCount = rd_requiredRegulationsCount d,
      min_compliantRegulationsCount = rd_compliantRegulationsCount d\<rparr>"

section \<open>Reading releases\<close>

record ReleaseParams =
  rp_projectIdentifier :: "ident option"
  rp_projectId :: "nat option"
  rp_version :: string

definition getReleaseEntity :: "ReleaseParams \<Rightarrow> db \<Rightarrow> ReleaseEntity option" where
  "getReleaseEntity params s =
     List.find (\<lambda>r. opt_matches (rp_projectId params) (rel_project r) \<and> rel_version r = rp_version params) (releases s)"

text \<open>The identifier of a message decides the project id, which later calls read from the message.\<close>

definition resolve_project :: "ReleaseParams \<Rightarrow> db \<Rightarrow> ReleaseParams result" where
  "resolve_project params s =
     (case rp_projectIdentifier params of
        Some (IdStr n) \<Rightarrow>
          (case project_by_name s n of
             None \<Rightarrow> Inl NotFoundException
           | Some p \<Rightarrow> Inr (params\<lparr>rp_projectId := Some (pj_id p)\<rparr>))
      | Some (IdNum i) \<Rightarrow> Inr (params\<lparr>rp_projectId := Some i\<rparr>)
      | None \<Rightarrow> Inr params)"

definition getRelease :: "JwtPayload option \<Rightarrow> ReleaseParams \<Rightarrow> db \<Rightarrow> DetailedReleaseDto result" where
  "getRelease user params s =
     (case resolve_project params s of
        Inl e \<Rightarrow> Inl e
      | Inr params' \<Rightarrow>
          (case getReleaseEntity params' s of
             None \<Rightarrow> Inl NotFoundException
           | Some r \<Rightarrow> Inr (DetailedReleaseDto_fromEntity s r (user_can_edit user))))"

definition getReleases :: "JwtPayload option \<Rightarrow> ident \<Rightarrow> db \<Rightarrow> ReleaseDto list" where
  "getReleases user i s =
     map (\<lambda>r. ReleaseDto_fromEntity s r (user_can_edit user))
       (rev (sort_key rel_sortOrder
         (filter (\<lambda>r. case i of IdNum n \<Rightarrow> rel_project r = n
            | IdStr n \<Rightarrow> map_option pj_name (project_by_id s (rel_project r)) = Some n) (releases s))))"

section \<open>The total size\<close>

definition sum_sizes :: "db \<Rightarrow> string \<Rightarrow> nat" where
  "sum_sizes s c =
     sum_list (map (\<lambda>a. case artifact_upload s a of None \<Rightarrow> 0 | Some f \<Rightarrow> size_of_upload f) (artifacts_of s c))"

text \<open>\<open>Number.isFinite(n) ? n : 0\<close>.\<close>

definition finite_or_0 :: "jsnum \<Rightarrow> rat" where
  "finite_or_0 n = (case n of Fin q \<Rightarrow> q | _ \<Rightarrow> 0)"

definition installation_size :: "metadata \<Rightarrow> rat" where
  "installation_size m = finite_or_0 (js_to_Number (obj_get m ''installationSize''))"

definition total_size_metadata :: "db \<Rightarrow> ReleaseEntity \<Rightarrow> metadata" where
  "total_size_metadata s r =
     alist_put ''totalSize''
       (JNum (Fin (installation_size (rel_metadata r) + of_nat (sum_sizes s (rel_catalogId r))))) (rel_metadata r)"

definition updateTotalSize :: "nat \<Rightarrow> string \<Rightarrow> db \<Rightarrow> db" where
  "updateTotalSize pid v s =
     (case find_release s pid v of
        None \<Rightarrow> s
      | Some r \<Rightarrow> update_releases (is_release pid v) (\<lambda>x. x\<lparr>rel_metadata := total_size_metadata s r\<rparr>) s)"

section \<open>Events\<close>

text \<open>
  The loop over the releases, newest first: the first draft or release in review before the
  newest released one is the upcoming release.
\<close>

fun latest_and_upcoming ::
  "ReleaseDto list \<Rightarrow> MinimalReleaseDto option \<Rightarrow> MinimalReleaseDto option \<times> MinimalReleaseDto option" where
  "latest_and_upcoming [] up = (None, up)"
| "latest_and_upcoming (r # rs) up =
     (if (rd_status r = DRAFT \<or> rd_status r = IN_REVIEW) \<and> up = None
      then latest_and_upcoming rs (Some (MinimalReleaseDto_fromReleaseDto r))
      else if rd_status r = RELEASED then (Some (MinimalReleaseDto_fromReleaseDto r), up)
      else latest_and_upcoming rs up)"

definition getLatestAndUpcomingReleases :: "JwtPayload option \<Rightarrow> nat \<Rightarrow> db \<Rightarrow> ProjectReleasesChangedEvent" where
  "getLatestAndUpcomingReleases user pid s =
     (let (latest, up) = latest_and_upcoming (getReleases user (IdNum pid) s) None in
      \<lparr>pce_projectId = pid, pce_latestRelease = latest, pce_upcomingRelease = up\<rparr>)"

definition sendProjectReleasesChangedEvent ::
  "JwtPayload option \<Rightarrow> nat \<Rightarrow> string \<Rightarrow> ReleaseEventType option \<Rightarrow> db \<Rightarrow> db" where
  "sendProjectReleasesChangedEvent user pid catalogId event s =
     (let s1 = emit_message (PROJECT_RELEASES_CHANGED (getLatestAndUpcomingReleases user pid s)) s in
      case event of None \<Rightarrow> s1 | Some e \<Rightarrow> emit_message (RELEASE_CHANGED_EVENT catalogId e) s1)"

section \<open>The state of a release\<close>

definition project_regulations :: "nat \<Rightarrow> db \<Rightarrow> RegulationEntity list" where
  "project_regulations pid s = filter (\<lambda>r. reg_project r = pid) (regulations s)"

definition regulation_compliant :: "RegulationStatusDto list \<Rightarrow> RegulationEntity \<Rightarrow> bool" where
  "regulation_compliant sts reg =
     (case List.find (\<lambda>d. rsd_regulation d = Some (reg_name reg)) sts of
        None \<Rightarrow> False | Some d \<Rightarrow> rsd_isCompliant d)"

definition installation_artifacts :: "db \<Rightarrow> string \<Rightarrow> ReleaseArtifactEntity list" where
  "installation_artifacts s c = filter art_isInstallationFile (artifacts_of s c)"

definition file_ids :: "db \<Rightarrow> ReleaseArtifactEntity list \<Rightarrow> nat list" where
  "file_ids s arts = List.map_filter (\<lambda>a. map_option fu_id (artifact_upload s a)) (filter (\<lambda>a. art_type a = FILE) arts)"

definition dependencies_released :: "db \<Rightarrow> string \<Rightarrow> bool" where
  "dependencies_released s c \<longleftrightarrow>
     dependencies_of s c \<noteq> [] \<and> list_all (\<lambda>d. rel_status d = RELEASED) (dependencies_of s c)"

definition files_ready :: "db \<Rightarrow> string \<Rightarrow> bool" where
  "files_ready s c \<longleftrightarrow>
     (let inst = installation_artifacts s c in
      inst \<noteq> [] \<and>
      (if filter (\<lambda>a. art_type a = FILE) inst \<noteq> [] then areFilesUploaded (file_ids s inst) s
       else list_ex (\<lambda>a. art_type a = DOCKER_IMAGE \<or> art_type a = RPM \<or> art_type a = DEB) inst))"

text \<open>
  The three writes that can follow, each with the calls it starts: the flag \<open>latest\<close>, the
  releases that depend on this one, and in every case the event.
\<close>

definition dependent_tasks :: "ReleaseEntity list \<Rightarrow> task list" where
  "dependent_tasks ds = map (\<lambda>d. RefreshReleaseState (rel_project d) (rel_version d)) ds"

definition set_status :: "ReleaseStatusEnum \<Rightarrow> nat \<Rightarrow> ReleaseEntity \<Rightarrow> ReleaseEntity" where
  "set_status st now r =
     (if st = RELEASED
      then r\<lparr>rel_status := RELEASED, rel_releasedAt := Some (case rel_releasedAt r of None \<Rightarrow> now | Some t \<Rightarrow> t)\<rparr>
      else if st = IN_REVIEW then r\<lparr>rel_status := IN_REVIEW, rel_releasedAt := None\<rparr>
      else r\<lparr>rel_status := st\<rparr>)"

definition change_release_status ::
  "nat \<Rightarrow> string \<Rightarrow> ReleaseStatusEnum \<Rightarrow> (ReleaseEntity \<Rightarrow> bool) \<Rightarrow> ReleaseEntity list \<Rightarrow>
   db \<Rightarrow> ReleaseEventType option \<times> db" where
  "change_release_status pid v st P dependents s =
     (let Q = (\<lambda>r. is_release pid v r \<and> P r);
          s1 = update_releases Q (set_status st (clock s)) s
      in if 0 < affected Q (releases s)
         then (Some (StatusEvent st), add_tasks (UpdateLatestForProject pid # dependent_tasks dependents) s1)
         else (None, s1))"

definition refresh_decide ::
  "nat \<Rightarrow> string \<Rightarrow> ReleaseEntity \<Rightarrow> ReleaseEntity list \<Rightarrow> bool \<Rightarrow> bool \<Rightarrow> bool \<Rightarrow> bool \<Rightarrow> db \<Rightarrow>
   ReleaseEventType option \<times> db" where
  "refresh_decide pid v release dependents compliant depsReleased fileUploaded storageMissing s =
     (if (\<not> compliant \<or> (\<not> depsReleased \<and> \<not> fileUploaded)) \<and> rel_status release = RELEASED then
        (if storageMissing
         then change_release_status pid v ReleaseStatusEnum.ERROR (\<lambda>r. rel_status r = RELEASED) dependents s
         else change_release_status pid v IN_REVIEW (\<lambda>r. rel_status r = RELEASED) dependents s)
      else if compliant \<and> rel_status release = IN_REVIEW \<and> (depsReleased \<or> fileUploaded) then
        change_release_status pid v RELEASED (\<lambda>r. True) dependents s
      else (None, s))"

definition refreshReleaseState :: "env \<Rightarrow> nat \<Rightarrow> string \<Rightarrow> db \<Rightarrow> db" where
  "refreshReleaseState E pid v s =
     (case find_release s pid v of
        None \<Rightarrow> s
      | Some release \<Rightarrow>
          if rel_status release = ReleaseStatusEnum.ERROR \<or> rel_status release = ARCHIVED then s
          else
            let c = rel_catalogId release;
                regs = project_regulations pid s;
                sts = getVersionRegulationsStatuses pid v s;
                compliant = list_all (regulation_compliant sts) regs;
                numCompliant = length (filter (regulation_compliant sts) regs);
                s1 = update_releases (\<lambda>r. is_release pid v r \<and> rel_status r \<noteq> RELEASED)
                       (\<lambda>r. r\<lparr>rel_requiredRegulationsCount := length regs,
                              rel_compliantRegulationsCount := numCompliant\<rparr>) s;
                depsReleased = dependencies_released s c;
                ids = file_ids s (installation_artifacts s c);
                (storageMissing, s2) = (if ids \<noteq> [] then syncAndCheckMissingFiles E ids s1 else (False, s1));
                fileUploaded = files_ready s2 c;
                (changeStatus, s3) =
                  refresh_decide pid v release (dependents_of s c) compliant depsReleased fileUploaded storageMissing s2
            in add_tasks [SendProjectReleasesChangedEvent pid c changeStatus] s3)"

section \<open>The read-only flag and the guard\<close>


section \<open>The total size is what it says\<close>

lemma alist_put_idem [simp]: "alist_put k v (alist_put k v m) = alist_put k v m"
  by (induction k v m rule: alist_put.induct) auto

lemma installation_size_put [simp]:
  "installation_size (alist_put ''totalSize'' v m) = installation_size m"
  by (simp add: installation_size_def)

lemma artifact_upload_update_releases [simp]: "artifact_upload (update_releases P f s) a = artifact_upload s a"
  by (cases "art_fileUpload a") (simp_all add: artifact_upload_def upload_by_id_def)

lemma is_release_upd [simp]:
  "is_release pid v (r\<lparr>rel_metadata := m\<rparr>) = is_release pid v r"
  "is_release pid v (r\<lparr>rel_status := st\<rparr>) = is_release pid v r"
  "is_release pid v (r\<lparr>rel_releasedAt := t\<rparr>) = is_release pid v r"
  "is_release pid v (r\<lparr>rel_requiredRegulationsCount := n\<rparr>) = is_release pid v r"
  "is_release pid v (r\<lparr>rel_compliantRegulationsCount := n\<rparr>) = is_release pid v r"
  by (simp_all add: is_release_def)

lemma sum_sizes_update_releases [simp]: "sum_sizes (update_releases P f s) c = sum_sizes s c"
  by (simp add: sum_sizes_def artifacts_of_def)

lemma find_release_update:
  "(\<And>r. rel_project (f r) = rel_project r) \<Longrightarrow> (\<And>r. rel_version (f r) = rel_version r) \<Longrightarrow>
   find_release (update_releases P f s) pid v = map_option (\<lambda>r. if P r then f r else r) (find_release s pid v)"
  by (simp add: find_release_def find_update_where is_release_def)

text \<open>
  \<open>updateTotalSize\<close> stores in the metadata of the release, under \<open>totalSize\<close>, the number the
  author gave as \<open>installationSize\<close> (0 when it is no finite number) plus the sizes of the
  files of its artifacts, leaves every other key alone, touches no other release, and running
  it again changes nothing.
\<close>

theorem total_size_spec:
  assumes "find_release s pid v = Some r" "s' = updateTotalSize pid v s"
  shows "(\<exists>r'. find_release s' pid v = Some r' \<and>
     obj_get (rel_metadata r') ''totalSize'' =
       JNum (Fin (finite_or_0 (js_to_Number (obj_get (rel_metadata r) ''installationSize'')) +
                  of_nat (sum_sizes s (rel_catalogId r)))) \<and>
     (\<forall>k. k \<noteq> ''totalSize'' \<longrightarrow> obj_get (rel_metadata r') k = obj_get (rel_metadata r) k) \<and>
     r'\<lparr>rel_metadata := rel_metadata r\<rparr> = r) \<and>
   filter (\<lambda>x. \<not> is_release pid v x) (releases s') = filter (\<lambda>x. \<not> is_release pid v x) (releases s) \<and>
   updateTotalSize pid v s' = s'"
proof -
  let ?m = "total_size_metadata s r"
  have r: "is_release pid v r" using find_release_SomeD [OF assms(1)] by (simp add: is_release_def)
  have s': "s' = update_releases (is_release pid v) (\<lambda>x. x\<lparr>rel_metadata := ?m\<rparr>) s"
    using assms by (simp add: updateTotalSize_def)
  have f': "find_release s' pid v = Some (r\<lparr>rel_metadata := ?m\<rparr>)"
    unfolding s' using assms(1) r by (simp add: find_release_update)
  have others: "filter (\<lambda>x. \<not> is_release pid v x) (releases s') = filter (\<lambda>x. \<not> is_release pid v x) (releases s)"
    unfolding s' update_releases_simps by (rule filter_not_update_where) simp
  have "total_size_metadata s' (r\<lparr>rel_metadata := ?m\<rparr>) = ?m"
    by (simp add: total_size_metadata_def s')
  then have "updateTotalSize pid v s' = update_releases (is_release pid v) (\<lambda>x. x\<lparr>rel_metadata := ?m\<rparr>) s'"
    by (simp add: updateTotalSize_def f')
  also have "\<dots> = s'"
    unfolding s' update_releases_def by (simp add: update_where_compose)
  finally have again: "updateTotalSize pid v s' = s'" .
  show ?thesis
  proof (intro conjI exI)
    show "find_release s' pid v = Some (r\<lparr>rel_metadata := ?m\<rparr>)" by (rule f')
  qed (use others again in \<open>simp_all add: total_size_metadata_def installation_size_def\<close>)
qed

definition demo_sized :: db where
  "demo_sized = empty_db\<lparr>releases :=
       [(demo_release ''a'' ''1'' DRAFT)\<lparr>rel_metadata := [(''installationSize'', JNum (Fin 10))]\<rparr>],
     artifacts := [demo_artifact 1 FILE ''a'' (Some 1)],
     uploads := [(demo_file 1 ''k'' FileUPloadStatusEnum.UPLOADED)\<lparr>fu_size := Some 5\<rparr>]\<rparr>"

lemma total_size_spec_witness:
  "\<exists>r'. find_release (updateTotalSize 1 ''1'' demo_sized) 1 ''1'' = Some r' \<and>
     obj_get (rel_metadata r') ''totalSize'' = JNum (Fin 15)"
proof -
  have f: "find_release demo_sized 1 ''1'' = Some (hd (releases demo_sized))"
    by (simp add: demo_sized_def demo_defs find_release_def is_release_def)
  have z: "sum_sizes demo_sized (rel_catalogId (hd (releases demo_sized))) = 5"
    by (simp add: demo_sized_def demo_defs sum_sizes_def artifacts_of_def artifact_upload_def upload_by_id_def size_of_upload_def)
  have i: "finite_or_0 (js_to_Number (obj_get (rel_metadata (hd (releases demo_sized))) ''installationSize'')) = 10"
    by (simp add: demo_sized_def demo_defs finite_or_0_def obj_get_def)
  from total_size_spec [OF f refl] show ?thesis unfolding z i by auto
qed

section \<open>The event names the right releases\<close>

lemma latest_and_upcoming_eq:
  "latest_and_upcoming rs up =
     (map_option MinimalReleaseDto_fromReleaseDto (List.find (\<lambda>r. rd_status r = RELEASED) rs),
      (case up of Some u \<Rightarrow> Some u
       | None \<Rightarrow> map_option MinimalReleaseDto_fromReleaseDto
           (List.find (\<lambda>r. rd_status r = DRAFT \<or> rd_status r = IN_REVIEW)
              (takeWhile (\<lambda>r. rd_status r \<noteq> RELEASED) rs))))"
  by (induction rs up rule: latest_and_upcoming.induct) (auto split: option.splits)

text \<open>
  The event about a project names the newest released release, and as the upcoming one the
  newest draft or release in review that is newer than it (or the newest one at all, when nothing
  is released).
\<close>

theorem changed_event_spec:
  "getLatestAndUpcomingReleases user pid s =
     (let rs = getReleases user (IdNum pid) s;
          newer = takeWhile (\<lambda>r. rd_status r \<noteq> RELEASED) rs
      in \<lparr>pce_projectId = pid,
          pce_latestRelease = map_option MinimalReleaseDto_fromReleaseDto (List.find (\<lambda>r. rd_status r = RELEASED) rs),
          pce_upcomingRelease = map_option MinimalReleaseDto_fromReleaseDto
            (List.find (\<lambda>r. rd_status r \<in> {DRAFT, IN_REVIEW}) newer)\<rparr>)"
  by (simp add: getLatestAndUpcomingReleases_def latest_and_upcoming_eq Let_def)

end
