(* ===== verification/Release_Lifecycle.thy ===== *)
theory Release_Lifecycle
  imports Release_State
begin

text \<open>
  The life cycle of a release: the state machine \<open>refreshReleaseState\<close> implements, the calls it
  starts and leaves pending, and what holds once they have all run.
\<close>

section \<open>The state machine\<close>

text \<open>
  The abstract specification: a release is ready when all regulations of its project comply and
  its dependencies are released or its files are there. A ready release in review is released;
  a released one that is not ready goes back to review, or to \<open>ERROR\<close> when a file is missing
  from the bucket; drafts, and the two terminal states, stay.
\<close>

definition target_status :: "bool \<Rightarrow> bool \<Rightarrow> ReleaseStatusEnum \<Rightarrow> ReleaseStatusEnum" where
  "target_status ready missing st =
     (if st = RELEASED \<and> \<not> ready then (if missing then ReleaseStatusEnum.ERROR else IN_REVIEW)
      else if st = IN_REVIEW \<and> ready then RELEASED else st)"

definition regulations_compliant :: "db \<Rightarrow> nat \<Rightarrow> string \<Rightarrow> bool" where
  "regulations_compliant s pid v =
     list_all (regulation_compliant (getVersionRegulationsStatuses pid v s)) (project_regulations pid s)"

definition compliant_count :: "db \<Rightarrow> nat \<Rightarrow> string \<Rightarrow> nat" where
  "compliant_count s pid v =
     length (filter (regulation_compliant (getVersionRegulationsStatuses pid v s)) (project_regulations pid s))"

definition release_ready :: "db \<Rightarrow> ReleaseEntity \<Rightarrow> bool" where
  "release_ready s r \<longleftrightarrow>
     regulations_compliant s (rel_project r) (rel_version r) \<and>
     (dependencies_released s (rel_catalogId r) \<or> files_ready s (rel_catalogId r))"

text \<open>The uploads as the check against the bucket leaves them, and whether it found one missing.\<close>

definition checked_ids :: "db \<Rightarrow> string \<Rightarrow> nat list" where
  "checked_ids s c = file_ids s (installation_artifacts s c)"

definition file_missing :: "env \<Rightarrow> db \<Rightarrow> string \<Rightarrow> bool" where
  "file_missing E s c = list_ex (missing_ids E (checked_ids s c) s) (uploads s)"

definition with_checked_files :: "env \<Rightarrow> string \<Rightarrow> db \<Rightarrow> db" where
  "with_checked_files E c s =
     update_uploads (\<lambda>g. missing_ids E (checked_ids s c) s g \<and> fu_status g \<noteq> FileUPloadStatusEnum.REMOVED)
       mark_removed s"

definition refreshed_row :: "env \<Rightarrow> db \<Rightarrow> ReleaseEntity \<Rightarrow> ReleaseEntity" where
  "refreshed_row E s r =
     (let pid = rel_project r; v = rel_version r; c = rel_catalogId r;
          new = target_status (release_ready (with_checked_files E c s) r) (file_missing E s c) (rel_status r);
          r1 = (if rel_status r = RELEASED then r
                else r\<lparr>rel_requiredRegulationsCount := length (project_regulations pid s),
                       rel_compliantRegulationsCount := compliant_count s pid v\<rparr>)
      in if new = rel_status r then r1 else set_status new (clock s) r1)"

definition refresh_tasks :: "env \<Rightarrow> db \<Rightarrow> ReleaseEntity \<Rightarrow> task list" where
  "refresh_tasks E s r =
     (let new = rel_status (refreshed_row E s r) in
      (if new = rel_status r then []
       else UpdateLatestForProject (rel_project r) # dependent_tasks (dependents_of s (rel_catalogId r))) @
      [SendProjectReleasesChangedEvent (rel_project r) (rel_catalogId r)
         (if new = rel_status r then None else Some (StatusEvent new))])"

lemma update_one:
  assumes "\<And>x. x \<in> set rows \<Longrightarrow> is_release pid v x = (x = r)" "is_release pid v r1"
  shows "update_where (\<lambda>x. is_release pid v x \<and> C x) f (map (\<lambda>x. if x = r then r1 else x) rows) =
     map (\<lambda>x. if x = r then (if C r1 then f r1 else r1) else x) rows"
  unfolding update_where_def map_map by (rule map_cong [OF refl]) (use assms in auto)

lemma affected_one:
  assumes "\<And>x. x \<in> set rows \<Longrightarrow> is_release pid v x = (x = r)" "is_release pid v r1" "r \<in> set rows" "C r1"
  shows "0 < affected (\<lambda>x. is_release pid v x \<and> C x) (map (\<lambda>x. if x = r then r1 else x) rows)"
  unfolding affected_pos using assms(2-4) by (intro bexI [of _ r1]) (auto simp: image_iff intro: bexI [of _ r])

lemma is_release_unique:
  "schema_ok s \<Longrightarrow> find_release s pid v = Some r \<Longrightarrow> x \<in> set (releases s) \<Longrightarrow> is_release pid v x = (x = r)"
  using distinct_key_inj [of release_key "releases s" x r] find_release_SomeD [of s pid v r]
  by (auto simp: schema_ok_def is_release_def release_key_def)

lemma missing_ids_update_releases [simp]:
  "missing_ids E ids (update_releases P f s) = missing_ids E ids s"
  by (simp add: missing_ids_def [abs_def] in_bucket_def)

lemma files_ready_cong:
  "artifacts s' = artifacts s \<Longrightarrow> uploads s' = uploads s \<Longrightarrow> files_ready s' c = files_ready s c"
proof -
  assume a: "artifacts s' = artifacts s" "uploads s' = uploads s"
  have "artifact_upload s' = artifact_upload s"
    unfolding artifact_upload_def upload_by_id_def a ..
  then show ?thesis
    unfolding files_ready_def installation_artifacts_def artifacts_of_def file_ids_def areFilesUploaded_def a by simp
qed

lemma set_status_simps [simp]:
  "rel_status (set_status st n r) = st" "rel_project (set_status st n r) = rel_project r"
  "rel_version (set_status st n r) = rel_version r" "rel_catalogId (set_status st n r) = rel_catalogId r"
  "is_release pid v (set_status st n r) = is_release pid v r"
  by (auto simp: set_status_def is_release_def)

lemma refreshed_row_simps [simp]:
  "rel_project (refreshed_row E s r) = rel_project r" "rel_version (refreshed_row E s r) = rel_version r"
  "rel_catalogId (refreshed_row E s r) = rel_catalogId r"
  by (auto simp: refreshed_row_def Let_def)

lemma rel_status_refreshed_row:
  "rel_status (refreshed_row E s r) =
     target_status (release_ready (with_checked_files E (rel_catalogId r) s) r) (file_missing E s (rel_catalogId r)) (rel_status r)"
  by (auto simp: refreshed_row_def Let_def)

lemma change_release_status_eq:
  assumes rows: "\<And>x. x \<in> set rows \<Longrightarrow> is_release pid v x = (x = r)" "r \<in> set rows"
    and s: "releases s = map (\<lambda>x. if x = r then r1 else x) rows" "is_release pid v r1" "P r1"
  shows "change_release_status pid v st P ds s =
     (Some (StatusEvent st), add_tasks (UpdateLatestForProject pid # dependent_tasks ds)
        (s\<lparr>releases := map (\<lambda>x. if x = r then set_status st (clock s) r1 else x) rows\<rparr>))"
  using update_one [OF rows(1) s(2), where C = P and f = "set_status st (clock s)"]
    affected_one [OF rows(1) s(2) rows(2), where C = P] s
  by (simp add: change_release_status_def Let_def update_releases_def)

lemma statuses_cong:
  assumes "releases s' = releases s" "regulations s' = regulations s" "statuses s' = statuses s"
  shows "getVersionRegulationsStatuses pid v s' = getVersionRegulationsStatuses pid v s"
proof -
  have 1: "regulation_of s' = regulation_of s" "release_by_catalog s' = release_by_catalog s"
    unfolding regulation_of_def release_by_catalog_def assms by (rule refl)+
  have 2: "is_version s' pid v = is_version s pid v" "status_rank s' = status_rank s"
      "fromRegulationStatusEntity s' = fromRegulationStatusEntity s"
    unfolding is_version_def status_rank_def fromRegulationStatusEntity_def 1 assms by (rule refl)+
  show ?thesis unfolding getVersionRegulationsStatuses_def 2 assms ..
qed

lemma compliant_with_files [simp]:
  "regulations_compliant (update_uploads Q f s) pid v = regulations_compliant s pid v"
  using statuses_cong [of "update_uploads Q f s" s pid v]
  by (simp add: regulations_compliant_def project_regulations_def)

lemma dependencies_released_uploads [simp]:
  "dependencies_released (update_uploads Q f s) c = dependencies_released s c"
  by (simp add: dependencies_released_def dependencies_of_def)

lemma refresh_eq:
  assumes ok: "schema_ok s" and r: "find_release s pid v = Some r"
    and nt: "rel_status r \<noteq> ReleaseStatusEnum.ERROR" "rel_status r \<noteq> ARCHIVED"
  shows "refreshReleaseState E pid v s =
     add_tasks (refresh_tasks E s r)
       ((with_checked_files E (rel_catalogId r) s)
          \<lparr>releases := map (\<lambda>x. if x = r then refreshed_row E s r else x) (releases s)\<rparr>)"
proof -
  let ?c = "rel_catalogId r"
  have rp: "rel_project r = pid" "rel_version r = v" "r \<in> set (releases s)"
    using find_release_SomeD [OF r] by auto
  note uniq = is_release_unique [OF ok r]
  define r1 where "r1 = (if rel_status r = RELEASED then r
     else r\<lparr>rel_requiredRegulationsCount := length (project_regulations pid s),
            rel_compliantRegulationsCount := compliant_count s pid v\<rparr>)"
  define s1 where "s1 = update_releases (\<lambda>x. is_release pid v x \<and> rel_status x \<noteq> RELEASED)
     (\<lambda>r. r\<lparr>rel_requiredRegulationsCount := length (project_regulations pid s),
            rel_compliantRegulationsCount := compliant_count s pid v\<rparr>) s"
  have r1: "is_release pid v r1" "rel_status r1 = rel_status r"
    using rp by (auto simp: r1_def is_release_def)
  have rows1: "releases s1 = map (\<lambda>x. if x = r then r1 else x) (releases s)"
    using update_one [where rows = "releases s" and r = r and ?r1.0 = r and C = "\<lambda>x. rel_status x \<noteq> RELEASED", OF uniq]
      uniq [OF rp(3)] by (simp add: s1_def r1_def)
  let ?Q = "\<lambda>g. missing_ids E (checked_ids s ?c) s g \<and> fu_status g \<noteq> FileUPloadStatusEnum.REMOVED"
  define s2 where "s2 = update_uploads ?Q mark_removed s1"
  have sync: "(if checked_ids s ?c \<noteq> [] then syncAndCheckMissingFiles E (checked_ids s ?c) s1 else (False, s1)) =
      (file_missing E s ?c, s2)"
  proof -
    have d: "distinct (map fu_id (uploads s1))" using ok by (simp add: s1_def schema_ok_def)
    have e: "checked_ids s ?c = [] \<Longrightarrow> syncAndCheckMissingFiles E (checked_ids s ?c) s1 = (False, s1)"
      by (simp add: syncAndCheckMissingFiles_def)
    have m: "missing_ids E ids s1 = missing_ids E ids s" for ids by (simp add: s1_def)
    have "syncAndCheckMissingFiles E (checked_ids s ?c) s1 = (file_missing E s ?c, s2)"
      unfolding syncAndCheckMissingFiles_eq [OF d] m by (simp add: file_missing_def s1_def s2_def)
    with e show ?thesis by (cases "checked_ids s ?c = []") simp_all
  qed
  have fr: "files_ready s2 ?c = files_ready (with_checked_files E ?c s) ?c"
    by (rule files_ready_cong) (simp_all add: s2_def s1_def with_checked_files_def)
  define ready where "ready = release_ready (with_checked_files E ?c s) r"
  have ready: "ready \<longleftrightarrow> regulations_compliant s pid v \<and> (dependencies_released s ?c \<or> files_ready s2 ?c)"
    using rp by (simp add: ready_def release_ready_def fr) (simp add: with_checked_files_def)
  have rows2: "releases s2 = map (\<lambda>x. if x = r then r1 else x) (releases s)" and clock2: "clock s2 = clock s"
    by (simp_all add: s2_def rows1) (simp add: s1_def)
  note change = change_release_status_eq [OF uniq rp(3) rows2 r1(1)]
  let ?new = "target_status ready (file_missing E s ?c) (rel_status r)"
  have dec: "refresh_decide pid v r (dependents_of s ?c) (regulations_compliant s pid v)
      (dependencies_released s ?c) (files_ready s2 ?c) (file_missing E s ?c) s2 =
    (if ?new = rel_status r then (None, s2)
     else (Some (StatusEvent ?new),
       add_tasks (UpdateLatestForProject pid # dependent_tasks (dependents_of s ?c))
        (s2\<lparr>releases := map (\<lambda>x. if x = r then set_status ?new (clock s) r1 else x) (releases s)\<rparr>)))"
    using ready r1(2) nt by (auto simp: refresh_decide_def target_status_def change clock2)
  have row: "refreshed_row E s r = (if ?new = rel_status r then r1 else set_status ?new (clock s) r1)"
    using rp by (simp add: refreshed_row_def Let_def r1_def ready_def)
  have tsk: "refresh_tasks E s r =
     (if ?new = rel_status r then [] else UpdateLatestForProject pid # dependent_tasks (dependents_of s ?c)) @
     [SendProjectReleasesChangedEvent pid ?c (if ?new = rel_status r then None else Some (StatusEvent ?new))]"
    using rp r1(2) by (simp add: refresh_tasks_def row)
  have "refreshReleaseState E pid v s =
    (case (if checked_ids s ?c \<noteq> [] then syncAndCheckMissingFiles E (checked_ids s ?c) s1 else (False, s1)) of
       (miss, t) \<Rightarrow>
         (case refresh_decide pid v r (dependents_of s ?c) (regulations_compliant s pid v)
            (dependencies_released s ?c) (files_ready t ?c) miss t of
          (changeStatus, t') \<Rightarrow> add_tasks [SendProjectReleasesChangedEvent pid ?c changeStatus] t'))"
    using nt by (simp add: refreshReleaseState_def r Let_def s1_def checked_ids_def
        regulations_compliant_def compliant_count_def)
  also have "\<dots> = add_tasks (refresh_tasks E s r) (s2\<lparr>releases := map (\<lambda>x. if x = r then refreshed_row E s r else x) (releases s)\<rparr>)"
    unfolding sync prod.case dec tsk row using rows2 by (auto simp: add_tasks_def)
  also have "s2\<lparr>releases := map (\<lambda>x. if x = r then refreshed_row E s r else x) (releases s)\<rparr> =
      (with_checked_files E ?c s)\<lparr>releases := map (\<lambda>x. if x = r then refreshed_row E s r else x) (releases s)\<rparr>"
    by (simp add: s2_def s1_def with_checked_files_def update_uploads_def update_releases_def)
  finally show ?thesis .
qed

text \<open>
  C2. \<open>refreshReleaseState\<close> implements the state machine: a release in \<open>ERROR\<close> or \<open>ARCHIVED\<close> is left
  alone, with the whole state; any other one moves to its target, decided by the regulations, the
  dependencies and the files as the bucket has them now; \<open>releasedAt\<close> is set when the release is
  released for the first time and cleared when it goes back to review; and every other release
  stays exactly as it was.
\<close>

theorem refresh_implements_state_machine:
  assumes "schema_ok s" "find_release s pid v = Some r" "s' = refreshReleaseState E pid v s"
  shows "if rel_status r \<in> {ReleaseStatusEnum.ERROR, ARCHIVED} then s' = s
   else (let ready = release_ready (with_checked_files E (rel_catalogId r) s) r;
             new = target_status ready (file_missing E s (rel_catalogId r)) (rel_status r)
         in \<exists>r'. find_release s' pid v = Some r' \<and> rel_status r' = new \<and>
            rel_releasedAt r' =
              (if new = rel_status r then rel_releasedAt r
               else if new = RELEASED then Some (case rel_releasedAt r of None \<Rightarrow> clock s | Some t \<Rightarrow> t)
               else if new = IN_REVIEW then None else rel_releasedAt r) \<and>
            releases s' = map (\<lambda>x. if x = r then r' else x) (releases s) \<and>
            tasks s' = tasks s @ refresh_tasks E s r)"
proof (cases "rel_status r \<in> {ReleaseStatusEnum.ERROR, ARCHIVED}")
  case True
  then show ?thesis using assms by (auto simp: refreshReleaseState_def)
next
  case False
  let ?r' = "refreshed_row E s r"
  have s': "s' = add_tasks (refresh_tasks E s r) ((with_checked_files E (rel_catalogId r) s)
      \<lparr>releases := map (\<lambda>x. if x = r then ?r' else x) (releases s)\<rparr>)"
    using False assms by (simp add: refresh_eq)
  have "List.find (is_release pid v) (map (\<lambda>x. if x = r then ?r' else x) rows) =
      map_option (\<lambda>x. if x = r then ?r' else x) (List.find (is_release pid v) rows)" for rows
    by (induction rows) (auto simp: is_release_def)
  then have f: "find_release s' pid v = Some ?r'"
    using assms(2) by (simp add: s' find_release_def)
  have at: "rel_releasedAt ?r' =
     (if rel_status ?r' = rel_status r then rel_releasedAt r
      else if rel_status ?r' = RELEASED then Some (case rel_releasedAt r of None \<Rightarrow> clock s | Some t \<Rightarrow> t)
      else if rel_status ?r' = IN_REVIEW then None else rel_releasedAt r)"
    by (simp add: refreshed_row_def set_status_def Let_def)
  have rel: "releases s' = map (\<lambda>x. if x = r then ?r' else x) (releases s)" "tasks s' = tasks s @ refresh_tasks E s r"
    by (simp_all add: s' with_checked_files_def)
  from False f at rel show ?thesis unfolding Let_def rel_status_refreshed_row [symmetric] by auto
qed

definition demo_review :: db where
  "demo_review = empty_db\<lparr>releases := [demo_release ''a'' ''1'' IN_REVIEW], clock := 7,
     artifacts := [(demo_artifact 1 DOCKER_IMAGE ''a'' None)\<lparr>art_dockerImageUrl := Some ''u''\<rparr>]\<rparr>"

lemma refresh_implements_state_machine_witness:
  "\<exists>r'. find_release (refreshReleaseState demo_env 1 ''1'' demo_review) 1 ''1'' = Some r' \<and>
     rel_status r' = RELEASED \<and> rel_releasedAt r' = Some 7"
proof -
  have f: "find_release demo_review 1 ''1'' = Some (demo_release ''a'' ''1'' IN_REVIEW)" by code_simp
  have ok: "schema_ok demo_review" by code_simp
  have t: "target_status
      (release_ready (with_checked_files demo_env ''a'' demo_review) (demo_release ''a'' ''1'' IN_REVIEW))
      (file_missing demo_env demo_review ''a'') IN_REVIEW = RELEASED" by code_simp
  have p: "rel_catalogId (demo_release ''a'' ''1'' IN_REVIEW) = ''a''"
      "rel_status (demo_release ''a'' ''1'' IN_REVIEW) = IN_REVIEW"
      "rel_releasedAt (demo_release ''a'' ''1'' IN_REVIEW) = None" "clock demo_review = 7"
    by code_simp+
  from refresh_implements_state_machine [OF ok f refl, of demo_env] show ?thesis
    unfolding Let_def p t by auto
qed

section \<open>Pending calls\<close>

fun run_lifecycle_task :: "env \<Rightarrow> JwtPayload option \<Rightarrow> task \<Rightarrow> db \<Rightarrow> db" where
  "run_lifecycle_task E user (UpdateLatestForProject pid) s = updateLatestForProject pid s"
| "run_lifecycle_task E user (RefreshReleaseState pid v) s = refreshReleaseState E pid v s"
| "run_lifecycle_task E user (SendProjectReleasesChangedEvent pid c e) s =
     sendProjectReleasesChangedEvent user pid c e s"
| "run_lifecycle_task E user _ s = s"

fun lifecycle_task :: "task \<Rightarrow> bool" where
  "lifecycle_task (UpdateLatestForProject _) = True"
| "lifecycle_task (RefreshReleaseState _ _) = True"
| "lifecycle_task (SendProjectReleasesChangedEvent _ _ _) = True"
| "lifecycle_task _ = False"

definition take_task :: "task \<Rightarrow> db \<Rightarrow> db" where
  "take_task t s = s\<lparr>tasks := remove1 t (tasks s)\<rparr>"

text \<open>One of the pending calls runs; which one is not determined.\<close>

inductive lifecycle_step :: "env \<Rightarrow> JwtPayload option \<Rightarrow> db \<Rightarrow> db \<Rightarrow> bool" for E user where
  run: "t \<in> set (tasks s) \<Longrightarrow> lifecycle_task t \<Longrightarrow>
        lifecycle_step E user s (run_lifecycle_task E user t (take_task t s))"

inductive_cases lifecycle_stepE: "lifecycle_step E user s s'"

inductive_simps lifecycle_step_iff: "lifecycle_step E user s s'"

end
