(* ===== verification/Release_Cascade.thy ===== *)
theory Release_Cascade
  imports Release_Lifecycle
begin

text \<open>
  What the pending calls add up to: with an acyclic dependency graph they come to an end in
  whatever order they run, and then every release is in the state its regulations, files and
  dependencies call for, and the flag \<open>latest\<close> is right.
\<close>

section \<open>Consistency of a release\<close>

definition consistent :: "db \<Rightarrow> ReleaseEntity \<Rightarrow> bool" where
  "consistent s r \<longleftrightarrow>
     (rel_status r = RELEASED \<longrightarrow> release_ready s r) \<and> (rel_status r = IN_REVIEW \<longrightarrow> \<not> release_ready s r)"

definition latest_ok :: "db \<Rightarrow> nat \<Rightarrow> bool" where
  "latest_ok s pid \<longleftrightarrow>
     (\<forall>r\<in>set (releases s). rel_project r = pid \<longrightarrow>
        rel_latest r = (Some (rel_catalogId r) = map_option rel_catalogId (top_released pid s)))"

text \<open>Releases rewritten row by row, keeping who they are.\<close>

definition keeps_identity :: "(ReleaseEntity \<Rightarrow> ReleaseEntity) \<Rightarrow> bool" where
  "keeps_identity g \<longleftrightarrow>
     (\<forall>r. rel_catalogId (g r) = rel_catalogId r \<and> rel_project (g r) = rel_project r \<and> rel_version (g r) = rel_version r)"

definition same_context :: "db \<Rightarrow> db \<Rightarrow> bool" where
  "same_context s' s \<longleftrightarrow>
     regulations s' = regulations s \<and> statuses s' = statuses s \<and> artifacts s' = artifacts s \<and>
     release_dependencies s' = release_dependencies s"

lemma find_map_key:
  "(\<And>r. P (g r) = P r) \<Longrightarrow> List.find P (map g rows) = map_option g (List.find P rows)"
  by (induction rows) auto

lemma filter_map_key: "(\<And>r. P (g r) = P r) \<Longrightarrow> filter P (map g rows) = map g (filter P rows)"
  by (induction rows) auto

lemma statuses_map:
  assumes "keeps_identity g" "releases s' = map g (releases s)" "same_context s' s"
  shows "getVersionRegulationsStatuses pid v s' = getVersionRegulationsStatuses pid v s"
proof -
  have g: "\<And>r. rel_catalogId (g r) = rel_catalogId r" "\<And>r. rel_version (g r) = rel_version r"
    "\<And>pid v r. is_release pid v (g r) = is_release pid v r"
    using assms(1) by (auto simp: keeps_identity_def is_release_def)
  have c: "regulations s' = regulations s" "statuses s' = statuses s"
    using assms(3) by (simp_all add: same_context_def)
  have r: "regulation_of s' = regulation_of s" unfolding regulation_of_def c ..
  have b: "release_by_catalog s' k = map_option g (release_by_catalog s k)" for k
    using g(1) by (simp add: release_by_catalog_def assms(2) find_map_key)
  have "is_version s' pid v st = is_version s pid v st" for st
    using g(3) by (simp add: is_version_def b option.case_eq_if option.map_sel)
  then have v: "is_version s' pid v = is_version s pid v" by (rule ext)
  have "fromRegulationStatusEntity s' st = fromRegulationStatusEntity s st" for st
    unfolding fromRegulationStatusEntity_def r b using g(2) by (simp add: option.map_comp comp_def)
  then have d: "fromRegulationStatusEntity s' = fromRegulationStatusEntity s" by (rule ext)
  have k: "status_rank s' = status_rank s" unfolding status_rank_def r c ..
  show ?thesis unfolding getVersionRegulationsStatuses_def k c v d ..
qed

lemma dependencies_map:
  assumes "keeps_identity g" "releases s' = map g (releases s)" "release_dependencies s' = release_dependencies s"
  shows "dependencies_of s' c = map g (dependencies_of s c)" "dependents_of s' c = map g (dependents_of s c)"
  using assms(1) unfolding dependencies_of_def dependents_of_def assms(2,3)
  by (auto simp: keeps_identity_def intro!: filter_map_key)

text \<open>
  Readiness of \<open>x\<close> carries over when the statuses of its dependencies and the uploads of its
  files do.
\<close>

lemma release_ready_map:
  assumes g: "keeps_identity g" "releases s' = map g (releases s)" "same_context s' s"
    and deps: "\<And>d. d \<in> set (dependencies_of s (rel_catalogId x)) \<Longrightarrow> (rel_status (g d) = RELEASED) = (rel_status d = RELEASED)"
    and files: "files_ready s' (rel_catalogId x) = files_ready s (rel_catalogId x)"
    and x': "rel_catalogId x' = rel_catalogId x" "rel_project x' = rel_project x" "rel_version x' = rel_version x"
  shows "release_ready s' x' = release_ready s x"
proof -
  have "dependencies_of s' (rel_catalogId x) = map g (dependencies_of s (rel_catalogId x))"
    using dependencies_map(1) [OF g(1,2)] g(3) by (simp add: same_context_def)
  then have "dependencies_released s' (rel_catalogId x) = dependencies_released s (rel_catalogId x)"
    using deps by (auto simp: dependencies_released_def list_all_iff)
  moreover have "regulations_compliant s' pid v = regulations_compliant s pid v" for pid v
    using statuses_map [OF g] g(3) by (simp add: regulations_compliant_def project_regulations_def same_context_def)
  ultimately show ?thesis using files x' by (simp add: release_ready_def)
qed

section \<open>The files of different releases are different\<close>

definition uploads_owned :: "db \<Rightarrow> bool" where
  "uploads_owned s \<longleftrightarrow>
     (\<forall>a\<in>set (artifacts s). \<forall>b\<in>set (artifacts s).
        art_fileUpload a \<noteq> None \<longrightarrow> art_fileUpload a = art_fileUpload b \<longrightarrow> art_release a = art_release b)"

lemma set_map_filter: "set (List.map_filter f xs) = {y. \<exists>x\<in>set xs. f x = Some y}"
  by (induction xs) (auto simp: List.map_filter_simps split: option.splits)

lemma checked_ids_owner:
  "i \<in> set (checked_ids s c) \<Longrightarrow> \<exists>a\<in>set (artifacts s). art_release a = c \<and> art_fileUpload a = Some i"
  by (auto simp: checked_ids_def file_ids_def set_map_filter installation_artifacts_def artifacts_of_def
      dest: artifact_upload_SomeD)

lemma artifact_upload_with_checked:
  "artifact_upload (with_checked_files E c s) a =
     map_option (\<lambda>g. if missing_ids E (checked_ids s c) s g \<and> fu_status g \<noteq> FileUPloadStatusEnum.REMOVED
                     then mark_removed g else g) (artifact_upload s a)"
proof (cases "art_fileUpload a")
  case (Some i)
  have "upload_by_id (with_checked_files E c s) i =
     map_option (\<lambda>g. if missing_ids E (checked_ids s c) s g \<and> fu_status g \<noteq> FileUPloadStatusEnum.REMOVED
                     then mark_removed g else g) (upload_by_id s i)"
    unfolding upload_by_id_def with_checked_files_def update_uploads_simps by (rule find_update_where) simp
  with Some show ?thesis by (simp add: artifact_upload_def)
qed (simp add: artifact_upload_def)

lemma file_ids_with_checked: "file_ids (with_checked_files E c s) arts = file_ids s arts"
proof -
  have "map_option fu_id (artifact_upload (with_checked_files E c s) a) = map_option fu_id (artifact_upload s a)" for a
    unfolding artifact_upload_with_checked option.map_comp by (rule map_option_cong [OF refl]) simp
  then show ?thesis by (simp add: file_ids_def)
qed

lemma installation_artifacts_with_checked [simp]:
  "installation_artifacts (with_checked_files E c s) d = installation_artifacts s d"
  by (simp add: installation_artifacts_def artifacts_of_def with_checked_files_def)

lemma files_ready_other:
  assumes "uploads_owned s" "d \<noteq> c"
  shows "files_ready (with_checked_files E c s) d = files_ready s d"
proof -
  let ?Q = "\<lambda>g. missing_ids E (checked_ids s c) s g \<and> fu_status g \<noteq> FileUPloadStatusEnum.REMOVED"
  let ?ids = "checked_ids s d"
  have disj: "i \<notin> set (checked_ids s c)" if "i \<in> set ?ids" for i
    using checked_ids_owner [of i s d] checked_ids_owner [of i s c] that assms
    unfolding uploads_owned_def by fastforce
  have "filter (\<lambda>f. fu_id f \<in> set ?ids \<and> fu_status f = FileUPloadStatusEnum.UPLOADED) (update_where ?Q mark_removed rows) =
        filter (\<lambda>f. fu_id f \<in> set ?ids \<and> fu_status f = FileUPloadStatusEnum.UPLOADED) rows" for rows
    by (induction rows) (auto simp: missing_ids_def dest: disj)
  then have "areFilesUploaded ?ids (with_checked_files E c s) = areFilesUploaded ?ids s"
    by (simp add: areFilesUploaded_def with_checked_files_def)
  then show ?thesis by (simp add: files_ready_def file_ids_with_checked checked_ids_def)
qed

section \<open>One call at a time\<close>

text \<open>
  The invariant: a release that is not consistent has a pending refresh, a project whose flag is
  wrong has a pending update. \<open>T\<close> is the set of pending calls.
\<close>

definition covered :: "task set \<Rightarrow> db \<Rightarrow> bool" where
  "covered T s \<longleftrightarrow>
     (\<forall>x\<in>set (releases s). consistent s x \<or> RefreshReleaseState (rel_project x) (rel_version x) \<in> T) \<and>
     (\<forall>pid. latest_ok s pid \<or> UpdateLatestForProject pid \<in> T)"

definition lifecycle_ok :: "db \<Rightarrow> bool" where
  "lifecycle_ok s \<longleftrightarrow> schema_ok s \<and> uploads_owned s \<and> acyclic (set (release_dependencies s))"

lemma max_sort_order_map:
  "(\<And>x. rel_sortOrder (g x) = rel_sortOrder x) \<Longrightarrow> max_sort_order (map g rs) = map_option g (max_sort_order rs)"
proof (cases rs)
  case (Cons r rs')
  assume g: "\<And>x. rel_sortOrder (g x) = rel_sortOrder x"
  have "foldl (\<lambda>a b. if rel_sortOrder a < rel_sortOrder b then b else a) (g r) (map g rs') =
      g (foldl (\<lambda>a b. if rel_sortOrder a < rel_sortOrder b then b else a) r rs')"
  proof (induction rs' arbitrary: r)
    case (Cons x rs')
    show ?case using Cons [of x] Cons [of r] by (simp add: g)
  qed simp
  with Cons show ?thesis by (simp add: max_sort_order_def)
qed (simp add: max_sort_order_def)

lemma latest_ok_map:
  assumes g: "releases s' = map g (releases s)" "keeps_identity g" "\<And>x. rel_sortOrder (g x) = rel_sortOrder x"
      "\<And>x. rel_latest (g x) = rel_latest x"
    and st: "\<And>x. x \<in> set (releases s) \<Longrightarrow> rel_project x = pid \<Longrightarrow> (rel_status (g x) = RELEASED) = (rel_status x = RELEASED)"
  shows "latest_ok s' pid = latest_ok s pid"
proof -
  have k: "\<And>x. rel_catalogId (g x) = rel_catalogId x" "\<And>x. rel_project (g x) = rel_project x"
    using g(2) by (auto simp: keeps_identity_def)
  have "filter (\<lambda>r. rel_project r = pid \<and> rel_status r = RELEASED) (map g rows) =
      map g (filter (\<lambda>r. rel_project r = pid \<and> rel_status r = RELEASED) rows)"
    if "set rows \<subseteq> set (releases s)" for rows
    using that by (induction rows) (auto simp: k st)
  then have "top_released pid s' = map_option g (top_released pid s)"
    by (simp add: top_released_def g(1) max_sort_order_map g(3))
  then have "map_option rel_catalogId (top_released pid s') = map_option rel_catalogId (top_released pid s)"
    using k(1) by (simp add: option.map_comp comp_def)
  then show ?thesis by (simp add: latest_ok_def g(1,4) k)
qed

lemma release_ready_same:
  assumes "releases s' = releases s" "same_context s' s" "uploads s' = uploads s"
  shows "release_ready s' x = release_ready s x"
proof (rule release_ready_map [where g = "\<lambda>r. r"])
  show "files_ready s' (rel_catalogId x) = files_ready s (rel_catalogId x)"
    by (rule files_ready_cong) (use assms in \<open>simp_all add: same_context_def\<close>)
qed (use assms in \<open>simp_all add: keeps_identity_def\<close>)

lemma covered_same:
  assumes s: "releases s' = releases s" "same_context s' s" "uploads s' = uploads s"
  shows "covered T s' = covered T s"
proof -
  have "consistent s' x = consistent s x" for x
    unfolding consistent_def release_ready_same [OF s] ..
  moreover have "latest_ok s' pid = latest_ok s pid" for pid
    by (rule latest_ok_map [where g = "\<lambda>r. r"]) (use s in \<open>simp_all add: keeps_identity_def\<close>)
  ultimately show ?thesis by (simp add: covered_def s)
qed

lemma covered_mono: "covered T s \<Longrightarrow> T \<subseteq> T' \<Longrightarrow> covered T' s"
  unfolding covered_def by blast

text \<open>The row \<open>refreshReleaseState\<close> leaves.\<close>

lemma refreshed_row_frame [simp]:
  "rel_sortOrder (refreshed_row E s r) = rel_sortOrder r" "rel_latest (refreshed_row E s r) = rel_latest r"
  by (auto simp: refreshed_row_def Let_def set_status_def)

lemma dependents_pending:
  "rel_status (refreshed_row E s r) \<noteq> rel_status r \<Longrightarrow> x \<in> set (dependents_of s (rel_catalogId r)) \<Longrightarrow>
   RefreshReleaseState (rel_project x) (rel_version x) \<in> set (refresh_tasks E s r)"
  by (auto simp: refresh_tasks_def Let_def dependent_tasks_def)

lemma latest_pending:
  "rel_status (refreshed_row E s r) \<noteq> rel_status r \<Longrightarrow> UpdateLatestForProject (rel_project r) \<in> set (refresh_tasks E s r)"
  by (simp add: refresh_tasks_def Let_def)

lemma target_consistent:
  "(target_status ready miss st = RELEASED \<longrightarrow> ready) \<and> (target_status ready miss st = IN_REVIEW \<longrightarrow> \<not> ready)"
  by (auto simp: target_status_def)

lemma covered_refresh:
  assumes ok: "lifecycle_ok s" and r: "find_release s pid v = Some r"
    and cov: "covered T s" "T \<subseteq> insert (RefreshReleaseState pid v) T'"
    and s': "s' = refreshReleaseState E pid v s"
  shows "covered (T' \<union> set (if rel_status r = ReleaseStatusEnum.ERROR \<or> rel_status r = ARCHIVED then [] else refresh_tasks E s r)) s'"
proof (cases "rel_status r = ReleaseStatusEnum.ERROR \<or> rel_status r = ARCHIVED")
  case True
  then have "s' = s" by (auto simp: s' refreshReleaseState_def r)
  moreover have "consistent s x \<or> RefreshReleaseState (rel_project x) (rel_version x) \<in> T'" if "x \<in> set (releases s)" for x
    using cov that is_release_unique [OF _ r that] ok True
    by (auto simp: covered_def lifecycle_ok_def is_release_def consistent_def)
  ultimately show ?thesis using cov True by (auto simp: covered_def)
next
  case False
  let ?c = "rel_catalogId r" and ?N = "set (refresh_tasks E s r)"
  have sch: "schema_ok s" and own: "uploads_owned s" and acyc: "acyclic (set (release_dependencies s))"
    using ok by (auto simp: lifecycle_ok_def)
  have rp: "r \<in> set (releases s)" "rel_project r = pid" "rel_version r = v" using find_release_SomeD [OF r] by auto
  define g where "g x = (if x = r then refreshed_row E s r else x)" for x
  have eq: "s' = add_tasks (refresh_tasks E s r) ((with_checked_files E ?c s)\<lparr>releases := map g (releases s)\<rparr>)"
    unfolding s' using refresh_eq [OF sch r] False by (simp add: g_def [abs_def])
  have g: "keeps_identity g" "releases s' = map g (releases s)" "same_context s' s" "uploads s' = uploads (with_checked_files E ?c s)"
    by (simp_all add: keeps_identity_def g_def eq same_context_def with_checked_files_def)
  have ctx: "same_context s' (with_checked_files E ?c s)" "releases s' = map g (releases (with_checked_files E ?c s))"
    using g(2,3) by (simp_all add: same_context_def with_checked_files_def)
  have files: "files_ready s' k = files_ready (with_checked_files E ?c s) k" for k
    by (rule files_ready_cong) (use g(4) ctx(1) in \<open>simp_all add: same_context_def\<close>)
  have "consistent s' (g x) \<or> RefreshReleaseState (rel_project x) (rel_version x) \<in> T' \<union> ?N" if x: "x \<in> set (releases s)" for x
  proof (cases "x = r")
    case True
    have "(?c, ?c) \<notin> set (release_dependencies s)" using acyc by (auto simp: acyclic_def)
    then have "release_ready s' (refreshed_row E s r) = release_ready (with_checked_files E ?c s) r"
      by (intro release_ready_map [OF g(1) ctx(2,1)])
        (auto simp: files g_def dependencies_of_def with_checked_files_def)
    then show ?thesis
      using target_consistent [of "release_ready (with_checked_files E ?c s) r" "file_missing E s ?c" "rel_status r"] True
      by (auto simp: consistent_def g_def rel_status_refreshed_row)
  next
    case xr: False
    have key: "RefreshReleaseState (rel_project x) (rel_version x) \<noteq> RefreshReleaseState pid v"
      using is_release_unique [OF sch r x] xr by (auto simp: is_release_def)
    show ?thesis
    proof (cases "consistent s x")
      case cons: True
      show ?thesis
      proof (cases "rel_status (refreshed_row E s r) \<noteq> rel_status r \<and> x \<in> set (dependents_of s ?c)")
        case True
        then show ?thesis using dependents_pending by blast
      next
        case no: False
        have "rel_catalogId x \<noteq> ?c"
          using distinct_key_inj [of rel_catalogId "releases s" x r] sch x rp(1) xr by (auto simp: schema_ok_def)
        then have "files_ready s' (rel_catalogId x) = files_ready s (rel_catalogId x)"
          using files files_ready_other [OF own] by simp
        moreover have "rel_status (g d) = RELEASED \<longleftrightarrow> rel_status d = RELEASED"
          if "d \<in> set (dependencies_of s (rel_catalogId x))" for d
          using that no x by (auto simp: g_def dependencies_of_def dependents_of_def)
        ultimately have "release_ready s' x = release_ready s x"
          by (intro release_ready_map [OF g(1-3)]) auto
        then show ?thesis using cons xr by (simp add: consistent_def g_def)
      qed
    next
      case False
      then have "RefreshReleaseState (rel_project x) (rel_version x) \<in> T" using cov(1) x by (auto simp: covered_def)
      then show ?thesis using cov(2) key by blast
    qed
  qed
  moreover have "latest_ok s' p \<or> UpdateLatestForProject p \<in> T' \<union> ?N" for p
  proof (cases "rel_status (refreshed_row E s r) \<noteq> rel_status r \<and> p = pid")
    case True
    then show ?thesis using latest_pending [of E s r] rp by simp
  next
    case False
    have "latest_ok s' p = latest_ok s p"
      by (rule latest_ok_map [OF g(2,1)]) (use False rp in \<open>auto simp: g_def\<close>)
    then show ?thesis using cov by (auto simp: covered_def)
  qed
  ultimately show ?thesis using False g(1) by (auto simp: covered_def g(2) keeps_identity_def)
qed

lemma covered_update_latest:
  assumes cov: "covered T s" "T \<subseteq> insert (UpdateLatestForProject pid) T'" and s': "s' = updateLatestForProject pid s"
  shows "covered T' s'"
proof -
  define g where "g r = (if rel_project r = pid
     then r\<lparr>rel_latest := (Some (rel_catalogId r) = map_option rel_catalogId (top_released pid s))\<rparr> else r)" for r :: ReleaseEntity
  have rel: "releases s' = map g (releases s)" by (simp add: s' releases_updateLatest g_def [abs_def])
  have g: "keeps_identity g" "rel_status (g x) = rel_status x" "rel_sortOrder (g x) = rel_sortOrder x" for x
    by (simp_all add: keeps_identity_def g_def)
  have k: "rel_catalogId (g x) = rel_catalogId x" "rel_project (g x) = rel_project x" "rel_version (g x) = rel_version x" for x
    using g(1) by (simp_all add: keeps_identity_def)
  have ctx: "same_context s' s" "uploads s' = uploads s"
    by (simp_all add: s' updateLatestForProject_def Let_def same_context_def)
  have "files_ready s' c = files_ready s c" for c
    by (rule files_ready_cong) (use ctx in \<open>simp_all add: same_context_def\<close>)
  then have "release_ready s' (g x) = release_ready s x" for x
    by (intro release_ready_map [OF g(1) rel ctx(1)]) (simp_all add: g(2) k)
  then have "consistent s' (g x) = consistent s x" for x by (simp add: consistent_def g(2))
  moreover have "latest_ok s' p \<or> UpdateLatestForProject p \<in> T'" for p
  proof (cases "p = pid")
    case True
    have "filter (\<lambda>r. rel_project r = pid \<and> rel_status r = RELEASED) (map g rows) =
        map g (filter (\<lambda>r. rel_project r = pid \<and> rel_status r = RELEASED) rows)" for rows
      by (induction rows) (auto simp: k g(2))
    then have "map_option rel_catalogId (top_released pid s') = map_option rel_catalogId (top_released pid s)"
      by (simp add: top_released_def rel max_sort_order_map g(3) option.map_comp comp_def k)
    then have "latest_ok s' pid" by (auto simp: latest_ok_def rel k) (auto simp: g_def)
    with True show ?thesis by simp
  next
    case False
    have "rel_latest (g x) = rel_latest x" if "rel_project x = p" for x using that False by (simp add: g_def)
    moreover have "filter (\<lambda>r. rel_project r = p \<and> rel_status r = RELEASED) (map g rows) =
        map g (filter (\<lambda>r. rel_project r = p \<and> rel_status r = RELEASED) rows)" for rows
      by (induction rows) (auto simp: k g(2))
    then have "map_option rel_catalogId (top_released p s') = map_option rel_catalogId (top_released p s)"
      by (simp add: top_released_def rel max_sort_order_map g(3) option.map_comp comp_def k)
    ultimately have "latest_ok s' p = latest_ok s p" by (auto simp: latest_ok_def rel k)
    then show ?thesis using cov False by (auto simp: covered_def)
  qed
  ultimately show ?thesis using cov by (auto simp: covered_def rel k)
qed

section \<open>All of them\<close>

lemma take_task_simps [simp]:
  "releases (take_task t s) = releases s" "uploads (take_task t s) = uploads s"
  "release_dependencies (take_task t s) = release_dependencies s" "artifacts (take_task t s) = artifacts s"
  "tasks (take_task t s) = remove1 t (tasks s)"
  "same_context (take_task t s) s" "find_release (take_task t s) = find_release s"
  by (simp_all add: take_task_def same_context_def find_release_def [abs_def])

lemma lifecycle_ok_take [simp]: "lifecycle_ok (take_task t s) = lifecycle_ok s"
  by (simp add: lifecycle_ok_def schema_ok_def uploads_owned_def)

lemma lifecycle_ok_map:
  assumes "lifecycle_ok s" "releases s' = map g (releases s)" "keeps_identity g" "same_context s' s"
    and "map fu_id (uploads s') = map fu_id (uploads s)" "map fu_objectKey (uploads s') = map fu_objectKey (uploads s)"
  shows "lifecycle_ok s'"
proof -
  have "map rel_catalogId (releases s') = map rel_catalogId (releases s)"
    "map release_key (releases s') = map release_key (releases s)"
    using assms(2,3) by (simp_all add: keeps_identity_def release_key_def)
  with assms(1,4-6) show ?thesis by (auto simp: lifecycle_ok_def schema_ok_def uploads_owned_def same_context_def)
qed

text \<open>Every call rewrites the releases row by row; a refresh is the only one that starts calls.\<close>

definition started :: "env \<Rightarrow> db \<Rightarrow> task \<Rightarrow> task list" where
  "started E s t =
     (case t of
        RefreshReleaseState pid v \<Rightarrow>
          (case find_release s pid v of
             None \<Rightarrow> []
           | Some r \<Rightarrow> if rel_status r = ReleaseStatusEnum.ERROR \<or> rel_status r = ARCHIVED then [] else refresh_tasks E s r)
      | _ \<Rightarrow> [])"

definition rewritten :: "db \<Rightarrow> db \<Rightarrow> bool" where
  "rewritten s s' \<longleftrightarrow>
     (\<exists>g. keeps_identity g \<and> releases s' = map g (releases s)) \<and> same_context s' s \<and>
     map fu_id (uploads s') = map fu_id (uploads s) \<and> map fu_objectKey (uploads s') = map fu_objectKey (uploads s)"

lemma rewritten_refl: "rewritten s s"
  by (auto simp: rewritten_def same_context_def keeps_identity_def intro!: exI [of _ "\<lambda>r. r"])

lemma run_rewritten:
  assumes "lifecycle_ok s"
  shows "rewritten s (run_lifecycle_task E user t s) \<and>
     tasks (run_lifecycle_task E user t s) = tasks s @ started E s t"
proof (cases t)
  case (UpdateLatestForProject pid)
  have "keeps_identity (\<lambda>r. if rel_project r = pid
     then r\<lparr>rel_latest := (Some (rel_catalogId r) = map_option rel_catalogId (top_released pid s))\<rparr> else r)"
    by (simp add: keeps_identity_def)
  with UpdateLatestForProject show ?thesis
    using releases_updateLatest [of pid s]
    by (auto simp: rewritten_def started_def updateLatestForProject_def Let_def same_context_def)
next
  case (RefreshReleaseState pid v)
  show ?thesis
  proof (cases "find_release s pid v")
    case None
    with RefreshReleaseState show ?thesis by (simp add: refreshReleaseState_def started_def rewritten_refl)
  next
    case (Some r)
    show ?thesis
    proof (cases "rel_status r = ReleaseStatusEnum.ERROR \<or> rel_status r = ARCHIVED")
      case True
      with Some RefreshReleaseState show ?thesis
        by (auto simp: refreshReleaseState_def started_def rewritten_refl)
    next
      case False
      have "keeps_identity (\<lambda>x. if x = r then refreshed_row E s r else x)" by (simp add: keeps_identity_def)
      moreover have "refreshReleaseState E pid v s =
        add_tasks (refresh_tasks E s r)
          ((with_checked_files E (rel_catalogId r) s)\<lparr>releases := map (\<lambda>x. if x = r then refreshed_row E s r else x) (releases s)\<rparr>)"
        using assms False by (intro refresh_eq [OF _ Some]) (auto simp: lifecycle_ok_def)
      ultimately show ?thesis
        using RefreshReleaseState Some False
        by (auto simp: rewritten_def started_def same_context_def with_checked_files_def map_update_where)
    qed
  qed
next
  case (SendProjectReleasesChangedEvent pid c e)
  have "keeps_identity (\<lambda>r. r)" by (simp add: keeps_identity_def)
  then show ?thesis using SendProjectReleasesChangedEvent
    by (auto simp: rewritten_def started_def sendProjectReleasesChangedEvent_def Let_def same_context_def
        split: option.splits intro!: exI [of _ "\<lambda>r. r"])
qed (simp_all add: rewritten_refl started_def)

lemma covered_run:
  assumes ok: "lifecycle_ok s" and t: "lifecycle_task t" and cov: "covered T s" "T \<subseteq> insert t T'"
  shows "covered (T' \<union> set (started E s t)) (run_lifecycle_task E user t s)"
proof (cases t)
  case (UpdateLatestForProject pid)
  then show ?thesis using covered_update_latest [OF cov(1), of pid T'] cov(2) by (simp add: started_def)
next
  case (RefreshReleaseState pid v)
  show ?thesis
  proof (cases "find_release s pid v")
    case None
    then have "RefreshReleaseState (rel_project x) (rel_version x) \<noteq> RefreshReleaseState pid v"
      if "x \<in> set (releases s)" for x
      using that by (auto simp: find_release_def find_None_conv is_release_def)
    then show ?thesis using None RefreshReleaseState cov
      by (fastforce simp: covered_def started_def refreshReleaseState_def)
  next
    case (Some r)
    then show ?thesis
      using covered_refresh [OF ok Some cov(1) _ refl] cov(2) RefreshReleaseState by (simp add: started_def)
  qed
next
  case (SendProjectReleasesChangedEvent pid c e)
  let ?s' = "sendProjectReleasesChangedEvent user pid c e s"
  have "releases ?s' = releases s" "same_context ?s' s" "uploads ?s' = uploads s"
    by (simp_all add: sendProjectReleasesChangedEvent_def Let_def same_context_def split: option.splits)
  then have "covered T ?s'" using covered_same cov(1) by blast
  then have "covered T' ?s'" using cov(2) SendProjectReleasesChangedEvent by (auto simp: covered_def)
  then show ?thesis using SendProjectReleasesChangedEvent by (simp add: started_def)
qed (use t in auto)

lemma step_preserves:
  assumes "lifecycle_step E user s s'" "lifecycle_ok s" "covered (set (tasks s)) s"
  shows "lifecycle_ok s' \<and> covered (set (tasks s')) s'"
proof -
  obtain t where t: "t \<in> set (tasks s)" "lifecycle_task t" "s' = run_lifecycle_task E user t (take_task t s)"
    using assms(1) by (blast elim: lifecycle_stepE)
  let ?s0 = "take_task t s"
  have ok: "lifecycle_ok ?s0" using assms(2) by simp
  have run: "rewritten ?s0 s'" "tasks s' = remove1 t (tasks s) @ started E ?s0 t"
    using run_rewritten [OF ok, of E user t] by (simp_all add: t(3))
  have "covered (set (tasks s)) ?s0" using assms(3) by (subst covered_same) simp_all
  moreover have "set (tasks s) \<subseteq> insert t (set (remove1 t (tasks s)))"
    using in_set_remove1 by fastforce
  ultimately have "covered (set (remove1 t (tasks s)) \<union> set (started E ?s0 t)) s'"
    unfolding t(3) by (rule covered_run [OF ok t(2)])
  moreover have "lifecycle_ok s'" using run(1) lifecycle_ok_map [OF ok] by (auto simp: rewritten_def)
  ultimately show ?thesis by (simp add: run(2))
qed

definition quiescent :: "db \<Rightarrow> bool" where
  "quiescent s \<longleftrightarrow> list_all (\<lambda>t. \<not> lifecycle_task t) (tasks s)"

lemma steps_preserve:
  assumes "(lifecycle_step E user)\<^sup>*\<^sup>* s s'" "lifecycle_ok s" "covered (set (tasks s)) s"
  shows "lifecycle_ok s' \<and> covered (set (tasks s')) s'"
  using assms(1)
proof (induction rule: rtranclp_induct)
  case base
  show ?case using assms by blast
next
  case (step y z)
  then show ?case using step_preserves [OF step.hyps(2)] by blast
qed

lemma quiescent_consistent:
  assumes "lifecycle_ok s" "covered (set (tasks s)) s" "(lifecycle_step E user)\<^sup>*\<^sup>* s s'" "quiescent s'"
  shows "(\<forall>r\<in>set (releases s'). consistent s' r) \<and> (\<forall>pid. latest_ok s' pid)"
proof -
  have "covered (set (tasks s')) s'" using steps_preserve assms by blast
  moreover have "RefreshReleaseState p v \<notin> set (tasks s')" "UpdateLatestForProject p \<notin> set (tasks s')" for p v
    using assms(4) by (auto simp: quiescent_def list_all_iff)
  ultimately show ?thesis unfolding covered_def by blast
qed

text \<open>
  C1. Once the pending calls have run, in whatever order, the state is right: if every release
  that was not consistent had a pending refresh and every project with a wrong \<open>latest\<close> flag a
  pending update, then in every quiescent state the calls lead to, a released release is
  ready, one in review is not, and the flag \<open>latest\<close> marks the released release with
  the highest sort order of each project. The dependencies are acyclic and no upload
  belongs to two releases.
\<close>

theorem quiescent_state_correct:
  assumes "lifecycle_ok s" "covered (set (tasks s)) s" "(lifecycle_step E user)\<^sup>*\<^sup>* s s'" "quiescent s'"
  shows "\<forall>r\<in>set (releases s').
     (rel_status r = RELEASED \<longrightarrow> release_ready s' r) \<and> (rel_status r = IN_REVIEW \<longrightarrow> \<not> release_ready s' r) \<and>
     rel_latest r = (Some (rel_catalogId r) = map_option rel_catalogId (top_released (rel_project r) s'))"
  using quiescent_consistent [OF assms] by (auto simp: consistent_def latest_ok_def)

section \<open>They come to an end\<close>

text \<open>
  The rank of a release is the number of releases that depend on it, directly or not. A refresh
  starts refreshes of releases of a smaller rank only.
\<close>

definition rank :: "(string \<times> string) set \<Rightarrow> string \<Rightarrow> nat" where
  "rank D c = card {x. (x, c) \<in> D\<^sup>+}"

definition task_rank :: "db \<Rightarrow> task \<Rightarrow> nat" where
  "task_rank s t =
     (case t of
        RefreshReleaseState pid v \<Rightarrow>
          (case find_release s pid v of None \<Rightarrow> 0 | Some r \<Rightarrow> Suc (rank (set (release_dependencies s)) (rel_catalogId r)))
      | _ \<Rightarrow> 0)"

lemma rank_less:
  assumes "acyclic D" "finite D" "(d, c) \<in> D"
  shows "rank D d < rank D c"
  unfolding rank_def
proof (rule psubset_card_mono)
  have "{x. (x, c) \<in> D\<^sup>+} \<subseteq> Domain D" by (auto dest: tranclD)
  then show "finite {x. (x, c) \<in> D\<^sup>+}" using assms(2) finite_Domain finite_subset by blast
  have "(d, d) \<notin> D\<^sup>+" using assms(1) by (simp add: acyclic_def)
  moreover have "(x, c) \<in> D\<^sup>+" if "(x, d) \<in> D\<^sup>+" for x using that assms(3) by (rule trancl_into_trancl)
  ultimately show "{x. (x, d) \<in> D\<^sup>+} \<subset> {x. (x, c) \<in> D\<^sup>+}" using assms(3) by blast
qed

definition pending_ranks :: "db \<Rightarrow> nat multiset" where
  "pending_ranks s = mset (map (task_rank s) (tasks s))"

lemma find_release_rewritten:
  assumes "keeps_identity g" "releases s' = map g (releases s)"
  shows "find_release s' pid v = map_option g (find_release s pid v)"
  using assms by (simp add: find_release_def find_map_key is_release_def keeps_identity_def)

lemma task_rank_rewritten: "rewritten s s' \<Longrightarrow> task_rank s' t = task_rank s t"
proof -
  assume "rewritten s s'"
  then obtain g where g: "keeps_identity g" "releases s' = map g (releases s)"
    and d: "release_dependencies s' = release_dependencies s"
    by (auto simp: rewritten_def same_context_def)
  have "rel_catalogId (g r) = rel_catalogId r" for r using g(1) by (simp add: keeps_identity_def)
  then show ?thesis
    using find_release_rewritten [OF g] d by (auto simp: task_rank_def split: task.splits option.splits)
qed

lemma started_smaller:
  assumes ok: "lifecycle_ok s" and u: "u \<in> set (started E s t)"
  shows "task_rank s u < task_rank s t"
proof -
  obtain pid v where t: "t = RefreshReleaseState pid v"
    using u by (cases t) (auto simp: started_def)
  obtain r where r: "find_release s pid v = Some r"
    using u by (cases "find_release s pid v") (auto simp: started_def t)
  have u: "u \<in> set (refresh_tasks E s r)"
    using u r by (auto simp: started_def t split: if_splits)
  have D: "acyclic (set (release_dependencies s))" using ok by (simp add: lifecycle_ok_def)
  have "task_rank s u \<le> rank (set (release_dependencies s)) (rel_catalogId r)"
  proof (cases "\<exists>d\<in>set (dependents_of s (rel_catalogId r)). u = RefreshReleaseState (rel_project d) (rel_version d)")
    case True
    then obtain d where d: "d \<in> set (releases s)" "(rel_catalogId d, rel_catalogId r) \<in> set (release_dependencies s)"
      "u = RefreshReleaseState (rel_project d) (rel_version d)"
      by (auto simp: dependents_of_def)
    have "find_release s (rel_project d) (rel_version d) = Some d"
      by (rule find_release_unique [OF _ d(1)]) (use ok in \<open>simp add: lifecycle_ok_def schema_ok_def\<close>)
    then show ?thesis using rank_less [OF D _ d(2)] d(3) by (simp add: task_rank_def)
  next
    case False
    then show ?thesis using u by (auto simp: refresh_tasks_def Let_def dependent_tasks_def task_rank_def split: if_splits)
  qed
  then show ?thesis by (simp add: task_rank_def t r)
qed

lemma step_decreases:
  assumes "lifecycle_step E user s s'" "lifecycle_ok s"
  shows "(pending_ranks s', pending_ranks s) \<in> mult less_than"
proof -
  obtain t where t: "t \<in> set (tasks s)" "s' = run_lifecycle_task E user t (take_task t s)"
    using assms(1) by (blast elim: lifecycle_stepE)
  let ?s0 = "take_task t s"
  have ok: "lifecycle_ok ?s0" using assms(2) by simp
  have run: "rewritten ?s0 s'" "tasks s' = remove1 t (tasks s) @ started E ?s0 t"
    using run_rewritten [OF ok, of E user t] by (simp_all add: t(2))
  have r0: "task_rank ?s0 = task_rank s" unfolding task_rank_def [abs_def] take_task_simps ..
  have rk: "task_rank s' = task_rank s" using task_rank_rewritten [OF run(1)] r0 by (simp add: fun_eq_iff)
  have "pending_ranks s = image_mset (task_rank s) (mset (remove1 t (tasks s))) + {#task_rank s t#}"
    using t(1) by (simp add: pending_ranks_def flip: image_mset_add_mset)
  moreover have "pending_ranks s' =
      image_mset (task_rank s) (mset (remove1 t (tasks s))) + image_mset (task_rank s) (mset (started E ?s0 t))"
    by (simp add: pending_ranks_def run(2) rk)
  moreover have "\<forall>k\<in>#image_mset (task_rank s) (mset (started E ?s0 t)). \<exists>j\<in>#{#task_rank s t#}. (k, j) \<in> less_than"
    using started_smaller [OF ok, of _ E t] by (auto simp: r0)
  ultimately show ?thesis by (metis one_step_implies_mult empty_not_add_mset)
qed

lemma step_ok: "lifecycle_step E user s s' \<Longrightarrow> lifecycle_ok s \<Longrightarrow> lifecycle_ok s'"
proof -
  assume "lifecycle_step E user s s'" "lifecycle_ok s"
  then obtain t where t: "s' = run_lifecycle_task E user t (take_task t s)" "lifecycle_ok (take_task t s)"
    by (auto elim!: lifecycle_stepE)
  show ?thesis using run_rewritten [OF t(2), of E user t] lifecycle_ok_map [OF t(2)]
    by (auto simp: t(1) rewritten_def)
qed

lemma reaches_quiescence:
  assumes "lifecycle_ok s"
  shows "\<exists>s'. (lifecycle_step E user)\<^sup>*\<^sup>* s s' \<and> quiescent s'"
  using assms
proof (induction "pending_ranks s" arbitrary: s rule: wf_induct_rule [OF wf_mult [OF wf_less_than]])
  case 1
  show ?case
  proof (cases "quiescent s")
    case False
    then obtain t where "t \<in> set (tasks s)" "lifecycle_task t" by (auto simp: quiescent_def list_all_iff)
    then have st: "lifecycle_step E user s (run_lifecycle_task E user t (take_task t s))" (is "lifecycle_step E user s ?s1")
      by (rule lifecycle_step.run)
    from 1(1) [OF step_decreases [OF st 1(2)] step_ok [OF st 1(2)]] obtain s' where
      "(lifecycle_step E user)\<^sup>*\<^sup>* ?s1 s'" "quiescent s'" by blast
    then show ?thesis using st by (blast intro: converse_rtranclp_into_rtranclp)
  qed blast
qed

text \<open>
  C3. The pending calls come to an end, although a refresh starts refreshes of its dependents: with
  acyclic dependencies no sequence of them is infinite, and a quiescent state is reached.
\<close>

theorem cascade_terminates:
  assumes "lifecycle_ok s"
  shows "(\<nexists>f. f 0 = s \<and> (\<forall>i. lifecycle_step E user (f i) (f (Suc i)))) \<and>
     (\<exists>s'. (lifecycle_step E user)\<^sup>*\<^sup>* s s' \<and> quiescent s')"
proof
  show "\<nexists>f. f 0 = s \<and> (\<forall>i. lifecycle_step E user (f i) (f (Suc i)))"
  proof
    assume "\<exists>f. f 0 = s \<and> (\<forall>i. lifecycle_step E user (f i) (f (Suc i)))"
    then obtain f where f: "f 0 = s" "\<And>i. lifecycle_step E user (f i) (f (Suc i))" by blast
    have "lifecycle_ok (f i)" for i
      using assms f(1) by (induction i) (auto intro: step_ok [OF f(2)])
    then have "\<exists>h. \<forall>i. (h (Suc i), h i) \<in> mult less_than"
      using step_decreases [OF f(2)] by (intro exI [of _ "\<lambda>i. pending_ranks (f i)"]) blast
    then show False using wf_mult [OF wf_less_than] unfolding wf_iff_no_infinite_down_chain by blast
  qed
next
  show "\<exists>s'. (lifecycle_step E user)\<^sup>*\<^sup>* s s' \<and> quiescent s'" by (rule reaches_quiescence [OF assms])
qed

text \<open>A release whose dependency has just been released, and what becomes of both.\<close>

definition demo_chain :: db where
  "demo_chain = empty_db\<lparr>
     releases := [demo_release ''a'' ''1'' IN_REVIEW,
       (demo_release ''b'' ''2'' IN_REVIEW)\<lparr>rel_sortOrder := 2\<rparr>],
     release_dependencies := [(''b'', ''a'')],
     artifacts := [(demo_artifact 1 DOCKER_IMAGE ''a'' None)\<lparr>art_dockerImageUrl := Some ''u''\<rparr>],
     tasks := [RefreshReleaseState 1 ''1'']\<rparr>"

lemma lifecycle_ok_demo: "lifecycle_ok demo_chain"
proof -
  have "acyclic {(''b'', ''a'')}"
    by (rule acyclic_insert [THEN iffD2]) (auto simp: acyclic_def)
  then show ?thesis
    by (simp add: lifecycle_ok_def demo_chain_def demo_defs schema_ok_def release_key_def uploads_owned_def)
qed

lemma cascade_terminates_witness: "\<exists>s'. (lifecycle_step demo_env None)\<^sup>*\<^sup>* demo_chain s' \<and> quiescent s'"
  using cascade_terminates [OF lifecycle_ok_demo, of demo_env None] by blast

lemma lifecycle_step_run:
  "t \<in> set (tasks s) \<Longrightarrow> lifecycle_task t \<Longrightarrow> s' = run_lifecycle_task E user t (take_task t s) \<Longrightarrow>
   (lifecycle_step E user)\<^sup>*\<^sup>* s' s'' \<Longrightarrow> (lifecycle_step E user)\<^sup>*\<^sup>* s s''"
  using lifecycle_step.run by (blast intro: converse_rtranclp_into_rtranclp)

fun run_first :: "nat \<Rightarrow> env \<Rightarrow> JwtPayload option \<Rightarrow> db \<Rightarrow> db" where
  "run_first 0 E user s = s"
| "run_first (Suc n) E user s =
     (case filter lifecycle_task (tasks s) of
        [] \<Rightarrow> s
      | t # _ \<Rightarrow> run_first n E user (run_lifecycle_task E user t (take_task t s)))"

lemma run_first_steps: "(lifecycle_step E user)\<^sup>*\<^sup>* s (run_first n E user s)"
proof (induction n arbitrary: s)
  case (Suc n)
  show ?case
  proof (cases "filter lifecycle_task (tasks s)")
    case (Cons t ts)
    then have "t \<in> set (tasks s)" "lifecycle_task t" by (auto simp: filter_eq_Cons_iff)
    then show ?thesis using Suc Cons by (simp add: lifecycle_step_run)
  qed simp
qed simp

lemma quiescent_state_correct_witness:
  "map rel_status (releases (run_first 10 demo_env None demo_chain)) = [RELEASED, RELEASED] \<and>
   list_all (\<lambda>r. rel_latest r = (Some (rel_catalogId r) = map_option rel_catalogId
        (top_released (rel_project r) (run_first 10 demo_env None demo_chain))))
     (releases (run_first 10 demo_env None demo_chain))"
proof
  have q: "quiescent (run_first 10 demo_env None demo_chain)" by code_simp
  have top: "top_released pid demo_chain = None" for pid
    by (simp add: top_released_None demo_chain_def demo_defs)
  have "latest_ok demo_chain pid" for pid
    unfolding latest_ok_def top by (simp add: demo_chain_def demo_defs)
  moreover have "\<forall>x\<in>set (releases demo_chain).
      consistent demo_chain x \<or> RefreshReleaseState (rel_project x) (rel_version x) \<in> set (tasks demo_chain)"
    by code_simp
  ultimately have "covered (set (tasks demo_chain)) demo_chain" by (simp add: covered_def)
  from quiescent_state_correct [OF lifecycle_ok_demo this run_first_steps q]
  show "list_all (\<lambda>r. rel_latest r = (Some (rel_catalogId r) = map_option rel_catalogId
        (top_released (rel_project r) (run_first 10 demo_env None demo_chain))))
     (releases (run_first 10 demo_env None demo_chain))" unfolding list_all_iff by blast
  show "map rel_status (releases (run_first 10 demo_env None demo_chain)) = [RELEASED, RELEASED]" by code_simp
qed

end
