(* ===== verification/Release_Artifacts.thy ===== *)
theory Release_Artifacts
  imports Release_State
begin

text \<open>
  The artifacts of a release (\<open>apps/upload/src/releases.service.ts\<close>): adding one, deleting one,
  changing its properties, its download URL, and what happens when a file of a release arrives
  in the bucket or disappears from it.
\<close>

section \<open>Adding an artifact\<close>

record SetReleaseArtifactDto =
  sa_projectId :: nat
  sa_version :: string
  sa_artifactName :: string
  sa_type :: ArtifactTypeEnum
  sa_isInstallationFile :: bool
  sa_dockerImageUrl :: "string option"
  sa_metadata :: "metadata option"
  sa_isExecutable :: "bool option"
  sa_arguments :: "string option"
  sa_enableSbomScan :: "bool option"
  sa_packageVersion :: "string option"

record SetReleaseArtifactResDto =
  sar_artifactId :: nat
  sar_uploadUrl :: "string option"

definition with_default :: "'a \<Rightarrow> 'a option \<Rightarrow> 'a" where
  "with_default d x = (case x of None \<Rightarrow> d | Some y \<Rightarrow> y)"

definition or_old :: "'a option \<Rightarrow> 'a option \<Rightarrow> 'a option" where
  "or_old x old = (case x of None \<Rightarrow> old | Some y \<Rightarrow> Some y)"

text \<open>The row an insert creates; a column the entity leaves undefined gets its default.\<close>

definition new_artifact :: "nat \<Rightarrow> string \<Rightarrow> nat option \<Rightarrow> SetReleaseArtifactDto \<Rightarrow> ReleaseArtifactEntity" where
  "new_artifact i c fu dto =
     \<lparr>art_id = i, art_artifactName = Some (sa_artifactName dto), art_type = sa_type dto,
      art_dockerImageUrl = (if sa_type dto = DOCKER_IMAGE then sa_dockerImageUrl dto else None),
      art_isInstallationFile = sa_isInstallationFile dto, art_metadata = with_default [] (sa_metadata dto),
      art_release = c, art_fileUpload = fu, art_isExecutable = with_default False (sa_isExecutable dto),
      art_arguments = sa_arguments dto, art_sbomScanId = None,
      art_enableSbomScan = with_default True (sa_enableSbomScan dto), art_sbomReportPath = None,
      art_packageVersion = (if sa_type dto = RPM \<or> sa_type dto = DEB then sa_packageVersion dto else None)\<rparr>"

text \<open>The row an upsert rewrites: the columns the entity defines.\<close>

definition patch_artifact :: "SetReleaseArtifactDto \<Rightarrow> ReleaseArtifactEntity \<Rightarrow> ReleaseArtifactEntity" where
  "patch_artifact dto a =
     a\<lparr>art_artifactName := Some (sa_artifactName dto), art_type := sa_type dto,
       art_isInstallationFile := sa_isInstallationFile dto,
       art_metadata := with_default (art_metadata a) (sa_metadata dto),
       art_isExecutable := with_default (art_isExecutable a) (sa_isExecutable dto),
       art_arguments := or_old (sa_arguments dto) (art_arguments a),
       art_enableSbomScan := with_default True (sa_enableSbomScan dto),
       art_packageVersion :=
         (if sa_type dto = RPM \<or> sa_type dto = DEB
          then or_old (sa_packageVersion dto) (art_packageVersion a) else art_packageVersion a)\<rparr>"

text \<open>The \<open>CHECK\<close> of the table, and the conflict target of each kind of artifact.\<close>

definition artifact_check :: "ReleaseArtifactEntity \<Rightarrow> bool" where
  "artifact_check a \<longleftrightarrow>
     (art_fileUpload a \<noteq> None \<and> art_type a = FILE) \<or>
     (art_dockerImageUrl a \<noteq> None \<and> art_type a = DOCKER_IMAGE) \<or>
     (art_packageVersion a \<noteq> None \<and> (art_type a = RPM \<or> art_type a = DEB))"

definition artifact_conflict :: "ReleaseArtifactEntity \<Rightarrow> ReleaseArtifactEntity \<Rightarrow> bool" where
  "artifact_conflict new a \<longleftrightarrow>
     art_release a = art_release new \<and>
     (case art_type new of
        FILE \<Rightarrow> art_type a = FILE \<and> art_fileUpload a \<noteq> None \<and> art_fileUpload a = art_fileUpload new
      | DOCKER_IMAGE \<Rightarrow>
          art_type a = DOCKER_IMAGE \<and> art_dockerImageUrl a \<noteq> None \<and>
          art_dockerImageUrl a = art_dockerImageUrl new
      | _ \<Rightarrow> art_type a = art_type new \<and> art_artifactName a = art_artifactName new \<and>
             art_fileUpload a = None \<and> art_dockerImageUrl a = None)"

definition upload_taken :: "ReleaseArtifactEntity \<Rightarrow> db \<Rightarrow> bool" where
  "upload_taken new s \<longleftrightarrow>
     art_fileUpload new \<noteq> None \<and> list_ex (\<lambda>a. art_fileUpload a = art_fileUpload new) (artifacts s)"

definition upsert_artifact :: "string \<Rightarrow> nat option \<Rightarrow> SetReleaseArtifactDto \<Rightarrow> db \<Rightarrow> nat result \<times> db" where
  "upsert_artifact c fu dto s =
     (let new = new_artifact (next_id s) c fu dto in
      if \<not> artifact_check new then (Inl ErrorException, s)
      else (case List.find (artifact_conflict new) (artifacts s) of
          Some a \<Rightarrow> (Inr (art_id a), update_artifacts (artifact_conflict new) (patch_artifact dto) s)
        | None \<Rightarrow>
            if upload_taken new s then (Inl ErrorException, s)
            else (Inr (next_id s), s\<lparr>artifacts := artifacts s @ [new], next_id := Suc (next_id s)\<rparr>)))"

definition artifact_upload_dto :: "SetReleaseArtifactDto \<Rightarrow> CreateFileUploadUrlDto" where
  "artifact_upload_dto dto =
     \<lparr>cf_userId = ''release'', cf_fileName = sa_artifactName dto,
      cf_objectKey = Some (show_nat (sa_projectId dto) @ ''/'' @ sa_version dto),
      cf_enableSbomScan = Some (with_default True (sa_enableSbomScan dto))\<rparr>"

definition artifact_saved_tasks :: "SetReleaseArtifactDto \<Rightarrow> nat \<Rightarrow> task list" where
  "artifact_saved_tasks dto i =
     (if sa_type dto = DOCKER_IMAGE then
        RefreshReleaseState (sa_projectId dto) (sa_version dto) #
        (if sa_enableSbomScan dto \<noteq> Some False
         then [TriggerDockerSbomScan (or_empty (sa_dockerImageUrl dto)) i] else [])
      else if sa_type dto = RPM \<or> sa_type dto = DEB
      then [RefreshReleaseState (sa_projectId dto) (sa_version dto)]
      else [])"

definition setReleaseArtifact ::
  "env \<Rightarrow> JwtPayload option \<Rightarrow> SetReleaseArtifactDto \<Rightarrow> db \<Rightarrow> SetReleaseArtifactResDto result \<times> db" where
  "setReleaseArtifact E user dto s =
     (case find_release s (sa_projectId dto) (sa_version dto) of
        None \<Rightarrow> (Inl NotFoundException, s)
      | Some release \<Rightarrow>
          (case checkReadonlyReleasePermission user (Some (rel_status release)) of
             Inl e \<Rightarrow> (Inl e, s)
           | Inr _ \<Rightarrow>
               (case (if sa_type dto = FILE
                      then (case createFileUploadUrl E (artifact_upload_dto dto) s of
                          (Inl e, s1) \<Rightarrow> (Inl e, s1)
                        | (Inr up, s1) \<Rightarrow> (Inr (Some (fd_id up), Some (fd_url up)), s1))
                      else (Inr (None, None), s)) of
                  (Inl e, s1) \<Rightarrow> (Inl e, s1)
                | (Inr (fu, url), s1) \<Rightarrow>
                    (case upsert_artifact (rel_catalogId release) fu dto s1 of
                       (Inl e, s2) \<Rightarrow> (Inl e, s2)
                     | (Inr i, s2) \<Rightarrow>
                         (Inr \<lparr>sar_artifactId = i, sar_uploadUrl = url\<rparr>,
                          add_tasks (artifact_saved_tasks dto i)
                            (updateTotalSize (sa_projectId dto) (sa_version dto) s2))))))"

section \<open>Files that come and go\<close>

text \<open>Without an object key the query is not restricted and finds the first release there is.\<close>

definition release_of_key :: "db \<Rightarrow> string option \<Rightarrow> ReleaseEntity option" where
  "release_of_key s k =
     (case k of
        None \<Rightarrow> List.find (\<lambda>r. True) (releases s)
      | Some key \<Rightarrow>
          List.find (\<lambda>r. list_ex (\<lambda>a. case artifact_upload s a of None \<Rightarrow> False | Some f \<Rightarrow> fu_objectKey f = key)
                      (artifacts_of s (rel_catalogId r))) (releases s))"

definition on_file_event :: "string option \<Rightarrow> db \<Rightarrow> db" where
  "on_file_event k s =
     (case release_of_key s k of
        None \<Rightarrow> s
      | Some release \<Rightarrow>
          add_tasks (RefreshReleaseState (rel_project release) (rel_version release) #
             (if rel_status release = ReleaseStatusEnum.ERROR
              then [MaybeRestoreReleasedStatus (rel_catalogId release)] else []))
            (updateTotalSize (rel_project release) (rel_version release) s))"

definition onFileCreate :: "string option \<Rightarrow> db \<Rightarrow> db" where
  "onFileCreate k s = on_file_event k s"

definition onFileDelete :: "string option \<Rightarrow> db \<Rightarrow> db" where
  "onFileDelete k s = on_file_event k s"

section \<open>Deleting and changing an artifact\<close>

text \<open>Of the file of an artifact only the id is selected, so \<open>onFileDelete\<close> is called without a key.\<close>

definition find_artifact :: "db \<Rightarrow> nat \<Rightarrow> string \<Rightarrow> nat \<Rightarrow> (ReleaseArtifactEntity \<times> ReleaseEntity) option" where
  "find_artifact s pid v i =
     (case List.find (\<lambda>a. art_id a = i \<and>
        (case release_by_catalog s (art_release a) of None \<Rightarrow> False | Some r \<Rightarrow> is_release pid v r)) (artifacts s) of
        None \<Rightarrow> None
      | Some a \<Rightarrow> map_option (\<lambda>r. (a, r)) (release_by_catalog s (art_release a)))"

definition delete_artifact_row :: "nat \<Rightarrow> db \<Rightarrow> db" where
  "delete_artifact_row i s = s\<lparr>artifacts := delete_where (\<lambda>a. art_id a = i) (artifacts s)\<rparr>"

definition request_scan_delete :: "ReleaseArtifactEntity \<Rightarrow> db \<Rightarrow> db" where
  "request_scan_delete a s =
     (case art_sbomScanId a of None \<Rightarrow> s | Some i \<Rightarrow> if i = [] then s else triggerSbomScanDelete i s)"

definition deleteReleaseArtifact ::
  "env \<Rightarrow> JwtPayload option \<Rightarrow> nat \<Rightarrow> string \<Rightarrow> nat \<Rightarrow> bool \<Rightarrow> db \<Rightarrow> unit result \<times> db" where
  "deleteReleaseArtifact E user pid v i skipPermissionCheck s =
     (case find_artifact s pid v i of
        None \<Rightarrow> (Inl NotFoundException, s)
      | Some (a, release) \<Rightarrow>
          (case (if skipPermissionCheck then Inr ()
                 else checkReadonlyReleasePermission user (Some (rel_status release))) of
             Inl e \<Rightarrow> (Inl e, s)
           | Inr _ \<Rightarrow>
               if art_type a = FILE then
                 (case artifact_upload s a of
                    None \<Rightarrow> (Inl ErrorException, s)
                  | Some f \<Rightarrow>
                      (case removeFile E (fu_id f) s of
                         (Inl e, s1) \<Rightarrow> (Inl e, s1)
                       | (Inr _, s1) \<Rightarrow>
                           (Inr (), request_scan_delete a
                              (add_tasks [DeleteItemRow (fu_id f)] (delete_artifact_row i s1)))))
               else
                 (Inr (), request_scan_delete a (delete_artifact_row i
                    (case artifact_upload s a of None \<Rightarrow> s | Some f \<Rightarrow> onFileDelete None s)))))"

record UpdateFilePropertiesDto =
  up_projectId :: nat
  up_id :: "nat option"
  up_arguments :: "string option"
  up_isExecutable :: "bool option"
  up_isInstallationFile :: "bool option"
  up_metadata :: "metadata option"

definition updateFileMetadata ::
  "JwtPayload option \<Rightarrow> UpdateFilePropertiesDto \<Rightarrow> db \<Rightarrow> nat result \<times> db" where
  "updateFileMetadata user dto s =
     (case List.find (\<lambda>a. opt_matches (up_id dto) (art_id a)) (artifacts s) of
        None \<Rightarrow> (Inl NotFoundException, s)
      | Some a \<Rightarrow>
          (case checkReadonlyReleasePermission user (map_option rel_status (release_by_catalog s (art_release a))) of
             Inl e \<Rightarrow> (Inl e, s)
           | Inr _ \<Rightarrow>
               (Inr (affected (\<lambda>x. opt_matches (up_id dto) (art_id x)) (artifacts s)),
                update_artifacts (\<lambda>x. opt_matches (up_id dto) (art_id x))
                  (\<lambda>x. x\<lparr>art_isExecutable := with_default (art_isExecutable x) (up_isExecutable dto),
                        art_isInstallationFile := with_default (art_isInstallationFile x) (up_isInstallationFile dto),
                        art_arguments := or_old (up_arguments dto) (art_arguments x),
                        art_metadata := with_default (art_metadata x) (up_metadata dto)\<rparr>) s)))"

text \<open>An artifact without a file has no \<open>fileUpload.id\<close>: a \<open>TypeError\<close>.\<close>

definition getArtifactDownloadUrl :: "env \<Rightarrow> nat \<Rightarrow> string \<Rightarrow> string \<Rightarrow> db \<Rightarrow> (nat \<times> string) result" where
  "getArtifactDownloadUrl E pid v fileName s =
     (case List.find (\<lambda>a. art_artifactName a = Some fileName \<and>
        (case release_by_catalog s (art_release a) of None \<Rightarrow> False | Some r \<Rightarrow> is_release pid v r)) (artifacts s) of
        None \<Rightarrow> Inl NotFoundException
      | Some a \<Rightarrow>
          (case artifact_upload s a of
             None \<Rightarrow> Inl ErrorException
           | Some f \<Rightarrow>
               (case getFileDownloadUrl E (fu_id f) s of
                  Inl e \<Rightarrow> Inl e | Inr url \<Rightarrow> Inr (art_id a, url))))"

section \<open>One artifact per file, image and package\<close>

text \<open>
  The unique indexes of the table as a key, and the invariant: rows that satisfy the \<open>CHECK\<close>,
  one per key, id and upload. Only files have an upload, and packages have no image.
\<close>

definition artifact_wf :: "ReleaseArtifactEntity \<Rightarrow> bool" where
  "artifact_wf a \<longleftrightarrow>
     artifact_check a \<and> (art_type a \<noteq> FILE \<longrightarrow> art_fileUpload a = None) \<and>
     (art_type a = RPM \<or> art_type a = DEB \<longrightarrow> art_dockerImageUrl a = None)"

definition artifact_key ::
  "ReleaseArtifactEntity \<Rightarrow> string \<times> ArtifactTypeEnum \<times> nat option \<times> string option \<times> string option" where
  "artifact_key a =
     (art_release a, art_type a,
      (case art_type a of
         FILE \<Rightarrow> (art_fileUpload a, None, None)
       | DOCKER_IMAGE \<Rightarrow> (None, art_dockerImageUrl a, None)
       | _ \<Rightarrow> (None, None, art_artifactName a)))"

definition upload_once :: "ReleaseArtifactEntity list \<Rightarrow> bool" where
  "upload_once rows \<longleftrightarrow>
     (\<forall>a\<in>set rows. \<forall>b\<in>set rows. art_fileUpload a = art_fileUpload b \<longrightarrow> art_fileUpload a = None \<or> art_id a = art_id b)"

lemma upload_once_map:
  "(\<And>x. art_id (g x) = art_id x) \<Longrightarrow> (\<And>x. art_fileUpload (g x) = art_fileUpload x) \<Longrightarrow>
   upload_once (map g rows) = upload_once rows"
  by (simp add: upload_once_def)

lemma upload_once_snoc:
  "upload_once rows \<Longrightarrow> art_fileUpload n = None \<or> (\<forall>a\<in>set rows. art_fileUpload a \<noteq> art_fileUpload n) \<Longrightarrow>
   upload_once (rows @ [n])"
  unfolding upload_once_def by (simp add: ball_Un) metis

definition artifacts_ok :: "db \<Rightarrow> bool" where
  "artifacts_ok s \<longleftrightarrow>
     list_all artifact_wf (artifacts s) \<and> distinct (map artifact_key (artifacts s)) \<and>
     distinct (map art_id (artifacts s)) \<and> list_all (\<lambda>a. art_id a < next_id s) (artifacts s) \<and>
     upload_once (artifacts s)"

lemma conflict_is_key:
  "artifact_wf a \<Longrightarrow> artifact_wf new \<Longrightarrow> artifact_conflict new a \<longleftrightarrow> artifact_key a = artifact_key new"
  by (cases "art_type new"; cases "art_type a")
    (auto simp: artifact_conflict_def artifact_key_def artifact_wf_def artifact_check_def)

lemma new_artifact_wf:
  "artifact_check (new_artifact i c fu dto) \<Longrightarrow> (sa_type dto \<noteq> FILE \<longrightarrow> fu = None) \<Longrightarrow> artifact_wf (new_artifact i c fu dto)"
  by (auto simp: artifact_wf_def new_artifact_def)

lemma patch_artifact_simps [simp]:
  "art_id (patch_artifact dto a) = art_id a" "art_release (patch_artifact dto a) = art_release a"
  "art_fileUpload (patch_artifact dto a) = art_fileUpload a"
  "art_dockerImageUrl (patch_artifact dto a) = art_dockerImageUrl a"
  "art_type (patch_artifact dto a) = sa_type dto" "art_artifactName (patch_artifact dto a) = Some (sa_artifactName dto)"
  "art_isInstallationFile (patch_artifact dto a) = sa_isInstallationFile dto"
  by (simp_all add: patch_artifact_def)

lemma patch_keeps:
  assumes "artifact_wf a" "artifact_wf (new_artifact i c fu dto)" "artifact_conflict (new_artifact i c fu dto) a"
  shows "artifact_wf (patch_artifact dto a) \<and> artifact_key (patch_artifact dto a) = artifact_key a"
  using assms
  by (cases "sa_type dto")
    (auto simp: artifact_conflict_def artifact_key_def artifact_wf_def artifact_check_def new_artifact_def
      patch_artifact_def or_old_def split: option.splits)

lemma upsert_artifact_spec:
  assumes ok: "artifacts_ok s" and fu: "sa_type dto \<noteq> FILE \<longrightarrow> fu = None"
    and u: "upsert_artifact c fu dto s = (Inr i, s')"
  shows "artifacts_ok s' \<and>
     (\<exists>a\<in>set (artifacts s'). art_id a = i \<and> artifact_key a = artifact_key (new_artifact (next_id s) c fu dto) \<and>
        art_release a = c \<and> art_artifactName a = Some (sa_artifactName dto) \<and>
        art_isInstallationFile a = sa_isInstallationFile dto) \<and>
     filter (\<lambda>a. art_id a \<noteq> i) (artifacts s') = filter (\<lambda>a. art_id a \<noteq> i) (artifacts s) \<and>
     s' = s\<lparr>artifacts := artifacts s', next_id := next_id s'\<rparr>"
proof -
  let ?new = "new_artifact (next_id s) c fu dto"
  have chk: "artifact_check ?new" using u by (auto simp: upsert_artifact_def Let_def split: if_splits)
  have wf: "artifact_wf ?new" by (rule new_artifact_wf [OF chk fu])
  have wfs: "artifact_wf a" if "a \<in> set (artifacts s)" for a using ok that by (auto simp: artifacts_ok_def list_all_iff)
  note key = conflict_is_key [OF wfs wf]
  have newf: "art_release ?new = c" "art_artifactName ?new = Some (sa_artifactName dto)" "art_id ?new = next_id s"
    "art_isInstallationFile ?new = sa_isInstallationFile dto"
    by (simp_all add: new_artifact_def)
  show ?thesis
  proof (cases "List.find (artifact_conflict ?new) (artifacts s)")
    case (Some a)
    have a: "a \<in> set (artifacts s)" "artifact_conflict ?new a" using find_SomeD [OF Some] by auto
    have only: "artifact_conflict ?new x \<longleftrightarrow> x = a" if "x \<in> set (artifacts s)" for x
      using key [OF that] key [OF a(1)] a that distinct_key_inj [of artifact_key "artifacts s" x a] ok
      by (auto simp: artifacts_ok_def)
    have s': "i = art_id a" "s' = update_artifacts (artifact_conflict ?new) (patch_artifact dto) s"
      using u chk Some by (simp_all add: upsert_artifact_def Let_def)
    define g where "g x = (if artifact_conflict ?new x then patch_artifact dto x else x)" for x
    have rows: "artifacts s' = map g (artifacts s)" by (simp add: s' update_where_def g_def [abs_def])
    have g: "artifact_wf (g x)" "artifact_key (g x) = artifact_key x" if "x \<in> set (artifacts s)" for x
      using patch_keeps [OF wfs [OF that] wf] wfs [OF that] by (simp_all add: g_def)
    have gid: "art_id (g x) = art_id x" "art_fileUpload (g x) = art_fileUpload x" for x by (simp_all add: g_def)
    have keys: "map artifact_key (artifacts s') = map artifact_key (artifacts s)"
      using g(2) by (simp add: rows)
    have nid: "next_id s' = next_id s" by (simp add: s'(2))
    have "artifacts_ok s'"
      unfolding artifacts_ok_def keys nid
      using ok g(1) upload_once_map [of g, OF gid] by (auto simp: rows artifacts_ok_def list_all_iff gid comp_def)
    moreover have "g a \<in> set (artifacts s')" using a(1) by (simp add: rows)
    moreover have "art_release a = c" using a(2) newf(1) by (simp add: artifact_conflict_def)
    moreover have "filter (\<lambda>x. art_id x \<noteq> i) (map g rs) = filter (\<lambda>x. art_id x \<noteq> i) rs"
      if "set rs \<subseteq> set (artifacts s)" for rs
      using that only by (induction rs) (auto simp: gid g_def s')
    ultimately have "artifacts_ok s'" "g a \<in> set (artifacts s')" "art_release a = c"
      and fl: "\<And>rs. set rs \<subseteq> set (artifacts s) \<Longrightarrow> filter (\<lambda>x. art_id x \<noteq> i) (map g rs) = filter (\<lambda>x. art_id x \<noteq> i) rs"
      by blast+
    moreover have "filter (\<lambda>x. art_id x \<noteq> i) (artifacts s') = filter (\<lambda>x. art_id x \<noteq> i) (artifacts s)"
      unfolding rows by (rule fl) simp
    moreover have "artifact_key (g a) = artifact_key ?new" using g(2) [OF a(1)] key [OF a(1)] a(2) by simp
    moreover have "g a = patch_artifact dto a" using a(2) by (simp add: g_def)
    moreover have "s' = s\<lparr>artifacts := artifacts s', next_id := next_id s'\<rparr>"
      by (simp add: s'(2) update_artifacts_def)
    ultimately show ?thesis using s'(1) by (intro conjI bexI [of _ "g a"]) simp_all
  next
    case None
    then have s': "i = next_id s" "s' = s\<lparr>artifacts := artifacts s @ [?new], next_id := Suc (next_id s)\<rparr>"
      and free: "\<not> upload_taken ?new s"
      using u chk by (auto simp: upsert_artifact_def Let_def split: if_splits)
    have "artifact_key ?new \<noteq> artifact_key a" if "a \<in> set (artifacts s)" for a
      using find_NoneD [OF None that] key [OF that] by auto
    moreover have "art_id a < next_id s" if "a \<in> set (artifacts s)" for a
      using ok that by (auto simp: artifacts_ok_def list_all_iff)
    moreover have "upload_once (artifacts s @ [?new])"
      using ok free by (intro upload_once_snoc) (auto simp: artifacts_ok_def upload_taken_def list_ex_iff)
    ultimately have "artifacts_ok s'"
      using ok wf newf(3) by (force simp: artifacts_ok_def s' list_all_iff less_Suc_eq)
    moreover have "filter (\<lambda>x. art_id x \<noteq> i) (artifacts s') = filter (\<lambda>x. art_id x \<noteq> i) (artifacts s)"
      by (simp add: s' newf)
    ultimately show ?thesis using newf by (auto simp: s')
  qed
qed

lemma find_append_new: "(\<And>x. x \<in> set xs \<Longrightarrow> \<not> P x) \<Longrightarrow> P y \<Longrightarrow> List.find P (xs @ [y]) = Some y"
  by (induction xs) auto

lemma createFileUploadUrl_frame:
  assumes "createFileUploadUrl E dto s = (Inr up, s1)"
  shows "artifacts s1 = artifacts s \<and> releases s1 = releases s \<and> next_id s \<le> next_id s1 \<and> tasks s1 = tasks s \<and>
     (\<exists>f. upload_by_key s1 (createObjectKey dto) = Some f \<and> fu_id f = fd_id up)"
proof (cases "upload_by_key s (createObjectKey dto)")
  case None
  then have "\<forall>f\<in>set (uploads s). fu_objectKey f \<noteq> createObjectKey dto"
    by (simp add: upload_by_key_def find_None_conv)
  then have "List.find (\<lambda>f. fu_objectKey f = createObjectKey dto) (uploads s @ [f]) = Some f"
    if "fu_objectKey f = createObjectKey dto" for f
    using that by (intro find_append_new) auto
  with None assms show ?thesis
    by (auto simp: createFileUploadUrl_def Let_def upsert_upload_def upload_by_key_def new_upload_def
        split: sum.splits prod.splits)
next
  case (Some f)
  with assms show ?thesis
    by (auto simp: createFileUploadUrl_def Let_def upsert_upload_def upload_by_key_def find_update_where
        split: sum.splits prod.splits dest: find_SomeD)
qed

lemma updateTotalSize_frame [simp]:
  "artifacts (updateTotalSize pid v s) = artifacts s" "next_id (updateTotalSize pid v s) = next_id s"
  "uploads (updateTotalSize pid v s) = uploads s" "tasks (updateTotalSize pid v s) = tasks s"
  "release_dependencies (updateTotalSize pid v s) = release_dependencies s"
  "statuses (updateTotalSize pid v s) = statuses s" "bucket (updateTotalSize pid v s) = bucket s"
  "ruleReleases (updateTotalSize pid v s) = ruleReleases s" "rules (updateTotalSize pid v s) = rules s"
  "projects (updateTotalSize pid v s) = projects s" "regulations (updateTotalSize pid v s) = regulations s"
  by (simp_all add: updateTotalSize_def split: option.splits)

lemma artifacts_ok_cong:
  "artifacts s' = artifacts s \<Longrightarrow> next_id s \<le> next_id s' \<Longrightarrow> artifacts_ok s \<Longrightarrow> artifacts_ok s'"
  by (auto simp: artifacts_ok_def list_all_iff)

text \<open>
  C17. Adding an artifact keeps one row per file, image and package of a release, whether the
  artifact is new or replaces one: after a successful \<open>setReleaseArtifact\<close> the invariant of the
  table holds, the id in the response is that of a row of the release with the name and the
  flags of the request, a file artifact is linked to the upload with the key
  \<open>upload/release/<project>/<version>/<name>\<close>, and every other artifact is untouched. (A version
  is a semantic version, so it is not empty and does not end in a slash.)
\<close>

theorem set_artifact_once:
  assumes ok: "artifacts_ok s" and r: "find_release s (sa_projectId dto) (sa_version dto) = Some r"
    and v: "sa_version dto \<noteq> []" "\<not> ends_with_slash (sa_version dto)"
    and res: "setReleaseArtifact E user dto s = (Inr res, s')"
  shows "artifacts_ok s' \<and>
     (\<exists>a. a \<in> set (artifacts s') \<and> art_id a = sar_artifactId res \<and> art_release a = rel_catalogId r \<and>
        art_type a = sa_type dto \<and> art_artifactName a = Some (sa_artifactName dto) \<and>
        art_isInstallationFile a = sa_isInstallationFile dto \<and>
        (case sa_type dto of
           FILE \<Rightarrow> map_option fu_id (upload_by_key s'
                     (''upload/release/'' @ show_nat (sa_projectId dto) @ ''/'' @ sa_version dto @ ''/'' @ sa_artifactName dto))
                   = art_fileUpload a
         | DOCKER_IMAGE \<Rightarrow> art_dockerImageUrl a = sa_dockerImageUrl dto \<and> sa_dockerImageUrl dto \<noteq> None
         | _ \<Rightarrow> True)) \<and>
     filter (\<lambda>a. art_id a \<noteq> sar_artifactId res) (artifacts s') =
       filter (\<lambda>a. art_id a \<noteq> sar_artifactId res) (artifacts s)"
proof -
  obtain fu url s1 s2 where
    up: "(if sa_type dto = FILE
          then (case createFileUploadUrl E (artifact_upload_dto dto) s of
              (Inl e, s1) \<Rightarrow> (Inl e, s1)
            | (Inr up, s1) \<Rightarrow> (Inr (Some (fd_id up), Some (fd_url up)), s1))
          else (Inr (None, None), s)) = (Inr (fu, url), s1)"
    and ins: "upsert_artifact (rel_catalogId r) fu dto s1 = (Inr (sar_artifactId res), s2)"
    and s': "s' = add_tasks (artifact_saved_tasks dto (sar_artifactId res))
               (updateTotalSize (sa_projectId dto) (sa_version dto) s2)"
    using res r by (auto simp: setReleaseArtifact_def split: sum.splits prod.splits)
  have s1: "artifacts s1 = artifacts s" "next_id s \<le> next_id s1" "sa_type dto \<noteq> FILE \<longrightarrow> fu = None"
    "sa_type dto = FILE \<longrightarrow> (\<exists>f. upload_by_key s1 (createObjectKey (artifact_upload_dto dto)) = Some f \<and> fu = Some (fu_id f))"
    using up createFileUploadUrl_frame [of E "artifact_upload_dto dto" s] by (auto split: if_splits sum.splits prod.splits)
  note spec = upsert_artifact_spec [OF artifacts_ok_cong [OF s1(1,2) ok] s1(3) ins]
  from spec obtain a where a: "a \<in> set (artifacts s2)" "art_id a = sar_artifactId res"
      "artifact_key a = artifact_key (new_artifact (next_id s1) (rel_catalogId r) fu dto)"
      "art_release a = rel_catalogId r" "art_artifactName a = Some (sa_artifactName dto)"
      "art_isInstallationFile a = sa_isInstallationFile dto" by blast
  have "artifacts_ok s'" by (rule artifacts_ok_cong [of _ s2]) (use spec in \<open>simp_all add: s'\<close>)
  moreover have "artifacts s' = artifacts s2" "uploads s' = uploads s2" by (simp_all add: s')
  moreover have "uploads s2 = uploads s1" by (subst spec [THEN conjunct2, THEN conjunct2, THEN conjunct2]) simp
  moreover have "createObjectKey (artifact_upload_dto dto) =
      ''upload/release/'' @ show_nat (sa_projectId dto) @ ''/'' @ sa_version dto @ ''/'' @ sa_artifactName dto"
    using v by (simp add: createObjectKey_def artifact_upload_dto_def OBJECT_PREFIX_def ends_with_slash_def)
  moreover have "artifact_wf a" using spec a(1) by (auto simp: artifacts_ok_def list_all_iff)
  moreover have ty: "art_type a = sa_type dto" using a(3) by (simp add: artifact_key_def new_artifact_def)
  moreover have "sa_type dto = FILE \<Longrightarrow> art_fileUpload a = fu"
      "sa_type dto = DOCKER_IMAGE \<Longrightarrow> art_dockerImageUrl a = sa_dockerImageUrl dto"
    using a(3) ty by (simp_all add: artifact_key_def new_artifact_def)
  ultimately show ?thesis
    using a spec s1(1,4)
    by (intro conjI exI [of _ a]; cases "sa_type dto")
      (simp_all add: upload_by_key_def artifact_wf_def artifact_check_def, fastforce)
qed

definition demo_artifact_dto :: SetReleaseArtifactDto where
  "demo_artifact_dto = \<lparr>sa_projectId = 1, sa_version = ''1'', sa_artifactName = ''app'', sa_type = FILE,
     sa_isInstallationFile = True, sa_dockerImageUrl = None, sa_metadata = None, sa_isExecutable = None,
     sa_arguments = None, sa_enableSbomScan = None, sa_packageVersion = None\<rparr>"

definition demo_draft :: db where
  "demo_draft = empty_db\<lparr>releases := [demo_release ''a'' ''1'' DRAFT]\<rparr>"

lemma set_artifact_once_witness:
  "map art_artifactName (artifacts (snd (setReleaseArtifact demo_env None demo_artifact_dto demo_draft))) = [Some ''app''] \<and>
   artifacts_ok (snd (setReleaseArtifact demo_env None demo_artifact_dto demo_draft))"
proof
  have r: "find_release demo_draft (sa_projectId demo_artifact_dto) (sa_version demo_artifact_dto) = Some (demo_release ''a'' ''1'' DRAFT)"
    by code_simp
  have v: "sa_version demo_artifact_dto \<noteq> []" "\<not> ends_with_slash (sa_version demo_artifact_dto)"
    by code_simp+
  have ok: "artifacts_ok demo_draft"
    by (simp add: demo_draft_def artifacts_ok_def upload_once_def demo_defs)
  obtain res where "fst (setReleaseArtifact demo_env None demo_artifact_dto demo_draft) = Inr res"
  proof -
    have "fst (setReleaseArtifact demo_env None demo_artifact_dto demo_draft) =
      Inr \<lparr>sar_artifactId = 2, sar_uploadUrl = Some ''put:upload/release/1/1/app''\<rparr>" by code_simp
    then show ?thesis using that by blast
  qed
  then have "setReleaseArtifact demo_env None demo_artifact_dto demo_draft =
      (Inr res, snd (setReleaseArtifact demo_env None demo_artifact_dto demo_draft))"
    by (metis prod.collapse)
  from set_artifact_once [OF ok r v this]
  show "artifacts_ok (snd (setReleaseArtifact demo_env None demo_artifact_dto demo_draft))" by blast
  show "map art_artifactName (artifacts (snd (setReleaseArtifact demo_env None demo_artifact_dto demo_draft))) = [Some ''app'']"
    by code_simp
qed

section \<open>What a deletion leaves behind\<close>

lemma find_artifact_SomeD:
  "find_artifact s pid v i = Some (a, r) \<Longrightarrow>
   a \<in> set (artifacts s) \<and> art_id a = i \<and> release_by_catalog s (art_release a) = Some r"
  by (auto simp: find_artifact_def dest: find_SomeD split: option.splits)

lemma removeFile_spec:
  assumes "removeFile E i s = (Inr (), s1)" "upload_by_id s i = Some f"
  shows "uploads s1 = update_where (\<lambda>g. fu_id g = i) (\<lambda>g. g\<lparr>fu_status := FileUPloadStatusEnum.REMOVED\<rparr>) (uploads s) \<and>
     artifacts s1 = artifacts s \<and> releases s1 = releases s \<and> tasks s1 = tasks s \<and>
     (fu_status f = FileUPloadStatusEnum.UPLOADED \<longrightarrow>
        stat_or_null (bucket s1) (BUCKET_NAME E) (fu_objectKey f) = None)"
  using assms stat_deleted by (auto simp: removeFile_def Let_def split: sum.splits if_splits)

text \<open>
  Deleting a file artifact removes its row and no other, marks its upload \<open>REMOVED\<close> and, when
  it had been uploaded, its object is gone from the bucket; the row of the upload can then be
  deleted, since nothing refers to it any more. The releases are not touched: neither
  \<open>totalSize\<close> nor the status is recomputed, although the sum of the sizes has changed.
\<close>

theorem delete_file_artifact:
  assumes ok: "artifacts_ok s" and a: "find_artifact s pid v i = Some (a, r)" "art_type a = FILE"
    and f: "artifact_upload s a = Some f"
    and res: "deleteReleaseArtifact E user pid v i skip s = (Inr (), s')"
  shows "artifacts s' = filter (\<lambda>x. art_id x \<noteq> i) (artifacts s) \<and>
     map_option fu_status (upload_by_id s' (fu_id f)) = Some FileUPloadStatusEnum.REMOVED \<and>
     (fu_status f = FileUPloadStatusEnum.UPLOADED \<longrightarrow>
        stat_or_null (bucket s') (BUCKET_NAME E) (fu_objectKey f) = None) \<and>
     DeleteItemRow (fu_id f) \<in> set (tasks s') \<and> fst (deleteItemRow (fu_id f) s') = Inr () \<and>
     releases s' = releases s"
proof -
  note ad = find_artifact_SomeD [OF a(1)]
  have fu: "upload_by_id s (fu_id f) = Some f" "art_fileUpload a = Some (fu_id f)"
    using f by (auto simp: artifact_upload_def dest: upload_by_id_SomeD split: option.splits)
  obtain s1 where s1: "removeFile E (fu_id f) s = (Inr (), s1)"
    and s': "s' = request_scan_delete a (add_tasks [DeleteItemRow (fu_id f)] (delete_artifact_row i s1))"
    using res a f by (auto simp: deleteReleaseArtifact_def split: sum.splits prod.splits if_splits)
  note rm = removeFile_spec [OF s1 fu(1)]
  have frame: "artifacts s' = artifacts (delete_artifact_row i s1)" "uploads s' = uploads s1"
    "bucket s' = bucket s1" "releases s' = releases s1" "tasks s' = tasks s1 @ [DeleteItemRow (fu_id f)]"
    by (simp_all add: s' request_scan_delete_def delete_artifact_row_def triggerSbomScanDelete_def split: option.splits)
  have arts: "artifacts s' = filter (\<lambda>x. art_id x \<noteq> i) (artifacts s)"
    using rm by (simp add: frame delete_artifact_row_def delete_where_def)
  have "upload_by_id s' (fu_id f) = Some (f\<lparr>fu_status := FileUPloadStatusEnum.REMOVED\<rparr>)"
    using fu(1) rm unfolding upload_by_id_def frame by (simp add: find_update_where)
  moreover have "art_fileUpload x \<noteq> Some (fu_id f)" if "x \<in> set (artifacts s)" "art_id x \<noteq> i" for x
    using ok ad fu(2) that unfolding artifacts_ok_def upload_once_def by fastforce
  then have "fst (deleteItemRow (fu_id f) s') = Inr ()"
    unfolding deleteItemRow_def arts by (auto simp: list_ex_iff)
  ultimately show ?thesis using arts rm frame by simp
qed

definition demo_with_file :: db where
  "demo_with_file = empty_db\<lparr>
     releases := [(demo_release ''a'' ''1'' DRAFT)\<lparr>rel_metadata := [(''totalSize'', JNum (Fin 5))]\<rparr>],
     artifacts := [demo_artifact 1 FILE ''a'' (Some 2)],
     uploads := [(demo_file 2 ''k'' FileUPloadStatusEnum.UPLOADED)\<lparr>fu_size := Some 5\<rparr>], next_id := 3,
     bucket := putObject empty_store ''main'' ''k'' \<lparr>obj_content = ''abcde'', obj_contentType = None, obj_lastModified = 0\<rparr>\<rparr>"

lemma delete_file_artifact_witness:
  "artifacts (snd (deleteReleaseArtifact demo_env None 1 ''1'' 1 False demo_with_file)) = [] \<and>
   sum_sizes (snd (deleteReleaseArtifact demo_env None 1 ''1'' 1 False demo_with_file)) ''a'' = 0 \<and>
   releases (snd (deleteReleaseArtifact demo_env None 1 ''1'' 1 False demo_with_file)) = releases demo_with_file"
proof -
  have ok: "artifacts_ok demo_with_file"
    by (simp add: artifacts_ok_def demo_with_file_def demo_defs artifact_wf_def artifact_check_def upload_once_def)
  have a: "find_artifact demo_with_file 1 ''1'' 1 =
      Some (demo_artifact 1 FILE ''a'' (Some 2), hd (releases demo_with_file))" by code_simp
  have ty: "art_type (demo_artifact 1 FILE ''a'' (Some 2)) = FILE" by code_simp
  have f: "artifact_upload demo_with_file (demo_artifact 1 FILE ''a'' (Some 2)) = Some (hd (uploads demo_with_file))"
    by code_simp
  have "fst (deleteReleaseArtifact demo_env None 1 ''1'' 1 False demo_with_file) = Inr ()" by code_simp
  then have res: "deleteReleaseArtifact demo_env None 1 ''1'' 1 False demo_with_file =
      (Inr (), snd (deleteReleaseArtifact demo_env None 1 ''1'' 1 False demo_with_file))"
    by (metis prod.collapse)
  note del = delete_file_artifact [OF ok a ty f res]
  have "sum_sizes (snd (deleteReleaseArtifact demo_env None 1 ''1'' 1 False demo_with_file)) ''a'' = 0" by code_simp
  moreover have "filter (\<lambda>x. art_id x \<noteq> 1) (artifacts demo_with_file) = []" by code_simp
  ultimately show ?thesis using del by simp
qed

section \<open>Whose artifact is changed\<close>

definition demo_properties :: "nat option \<Rightarrow> UpdateFilePropertiesDto" where
  "demo_properties i = \<lparr>up_projectId = 2, up_id = i, up_arguments = Some ''--x'', up_isExecutable = Some True,
     up_isInstallationFile = None, up_metadata = None\<rparr>"

text \<open>
  \<open>updateFileMetadata\<close> finds the artifact by its id alone, while the guard in front of the
  handler checks the caller's access to the project the request names: a request about project 2
  changes an artifact of project 1. And a request without an id changes every artifact.
\<close>

lemma metadata_of_other_project:
  "map art_arguments (artifacts (snd (updateFileMetadata None (demo_properties (Some 1)) demo_with_file))) = [Some ''--x''] \<and>
   fst (updateFileMetadata None (demo_properties (Some 1)) demo_with_file) = Inr 1"
  by code_simp

lemma metadata_without_id:
  "fst (updateFileMetadata None (demo_properties None) (demo_with_file\<lparr>artifacts :=
     [demo_artifact 1 DOCKER_IMAGE ''a'' None, demo_artifact 2 DOCKER_IMAGE ''b'' None]\<rparr>)) = Inr 2"
  by code_simp

section \<open>Files that arrive\<close>

text \<open>
  When the bucket reports an object that is the file of an artifact, the handler recomputes the
  total size of exactly the release that owns the artifact and starts a refresh of that release,
  and a check whether it may be \<open>RELEASED\<close> again if it is in \<open>ERROR\<close>; without such an artifact
  nothing happens.
\<close>

theorem file_event_spec:
  assumes ok: "schema_ok s" "artifacts_ok s"
    and a: "a \<in> set (artifacts s)" "artifact_upload s a = Some f" "release_by_catalog s (art_release a) = Some r"
  shows "onFileCreate (Some (fu_objectKey f)) s =
     add_tasks (RefreshReleaseState (rel_project r) (rel_version r) #
        (if rel_status r = ReleaseStatusEnum.ERROR then [MaybeRestoreReleasedStatus (rel_catalogId r)] else []))
       (updateTotalSize (rel_project r) (rel_version r) s)"
proof -
  have r: "r \<in> set (releases s)" "rel_catalogId r = art_release a" using release_by_catalog_SomeD [OF a(3)] by auto
  have f: "f \<in> set (uploads s)" "art_fileUpload a = Some (fu_id f)"
    using a(2) by (auto simp: artifact_upload_def dest: upload_by_id_SomeD split: option.splits)
  have same: "b = a" if b: "b \<in> set (artifacts s)" "artifact_upload s b = Some g" "fu_objectKey g = fu_objectKey f" for b g
  proof -
    have g: "g \<in> set (uploads s)" "art_fileUpload b = Some (fu_id g)"
      using b(2) by (auto simp: artifact_upload_def dest: upload_by_id_SomeD split: option.splits)
    have "g = f" using distinct_key_inj [of fu_objectKey "uploads s" g f] ok(1) g(1) f(1) b(3) by (simp add: schema_ok_def)
    then have "art_id b = art_id a" using ok(2) a(1) b(1) f(2) g(2) unfolding artifacts_ok_def upload_once_def by fastforce
    then show ?thesis using distinct_key_inj [of art_id "artifacts s" b a] ok(2) a(1) b(1) by (simp add: artifacts_ok_def)
  qed
  have "release_of_key s (Some (fu_objectKey f)) = Some r"
    unfolding release_of_key_def option.case
  proof (rule find_unique [OF r(1)])
    show "list_ex (\<lambda>a. case artifact_upload s a of None \<Rightarrow> False | Some f' \<Rightarrow> fu_objectKey f' = fu_objectKey f)
        (artifacts_of s (rel_catalogId r))"
      using a(1,2) r(2) by (auto simp: list_ex_iff artifacts_of_def intro!: bexI [of _ a])
  next
    fix r' assume r': "r' \<in> set (releases s)" "list_ex (\<lambda>a. case artifact_upload s a of None \<Rightarrow> False
        | Some f' \<Rightarrow> fu_objectKey f' = fu_objectKey f) (artifacts_of s (rel_catalogId r'))"
    then obtain b where "b \<in> set (artifacts s)" "art_release b = rel_catalogId r'" "b = a"
      using same by (auto simp: list_ex_iff artifacts_of_def split: option.splits)
    then show "r' = r"
      using distinct_key_inj [of rel_catalogId "releases s" r' r] ok(1) r r'(1) by (simp add: schema_ok_def)
  qed
  then show ?thesis by (simp add: onFileCreate_def on_file_event_def)
qed

lemma file_event_spec_witness:
  "tasks (onFileCreate (Some ''k'') demo_with_file) = [RefreshReleaseState 1 ''1'']"
proof -
  have ok: "artifacts_ok demo_with_file"
    by (simp add: artifacts_ok_def demo_with_file_def demo_defs artifact_wf_def artifact_check_def upload_once_def)
  have s: "schema_ok demo_with_file" by code_simp
  have a: "hd (artifacts demo_with_file) \<in> set (artifacts demo_with_file)"
      "artifact_upload demo_with_file (hd (artifacts demo_with_file)) = Some (hd (uploads demo_with_file))"
      "release_by_catalog demo_with_file (art_release (hd (artifacts demo_with_file))) = Some (hd (releases demo_with_file))"
    by code_simp+
  have k: "fu_objectKey (hd (uploads demo_with_file)) = ''k''" "tasks demo_with_file = []"
    "rel_project (hd (releases demo_with_file)) = 1" "rel_version (hd (releases demo_with_file)) = ''1''"
    "rel_status (hd (releases demo_with_file)) = DRAFT" by code_simp+
  from file_event_spec [OF s ok a] show ?thesis unfolding k by (simp add: k)
qed

end
