(* ===== verification/Releases.thy ===== *)
theory Releases
  imports Release_Artifacts Release_Lifecycle
begin

text \<open>
  Creating, changing and deleting releases (\<open>apps/upload/src/releases.service.ts\<close>): \<open>setRelease\<close>
  with the default rule and the dependencies, \<open>deleteRelease\<close>, the operations on all releases of
  a project, and the reaction to changes of a project's regulations.
\<close>

section \<open>Creating and changing a release\<close>

record SetReleaseDto =
  sr_projectIdentifier :: ident
  sr_projectId :: nat
  sr_version :: string
  sr_name :: "string option"
  sr_releaseNotes :: "string option"
  sr_metadata :: "metadata option"
  sr_isDraft :: "bool option"
  sr_status :: "ReleaseStatusEnum option"
  sr_dependencies :: "string list option"

definition ident_string :: "ident \<Rightarrow> string" where
  "ident_string i = (case i of IdNum n \<Rightarrow> show_nat n | IdStr v \<Rightarrow> v)"

definition normalize_metadata :: "metadata \<Rightarrow> metadata" where
  "normalize_metadata m =
     (if obj_get m ''installationSize'' = JUndef then m
      else alist_put ''installationSize''
             (JNum (Fin (finite_or_0 (js_to_Number (obj_get m ''installationSize''))))) m)"

definition managed_status :: "ReleaseStatusEnum option \<Rightarrow> bool" where
  "managed_status cur \<longleftrightarrow> cur = Some RELEASED \<or> cur = Some ReleaseStatusEnum.ERROR"

text \<open>The status the request leads to; \<open>None\<close> is a new entity whose status nobody has set.\<close>

definition next_status ::
  "JwtPayload option \<Rightarrow> SetReleaseDto \<Rightarrow> ReleaseStatusEnum option \<Rightarrow> ReleaseStatusEnum option result" where
  "next_status user dto cur =
     (if sr_status dto = Some ARCHIVED then Inr (Some ARCHIVED)
      else if sr_status dto = Some DRAFT then Inr (Some DRAFT)
      else if sr_status dto = Some IN_REVIEW then
        Inr (if managed_status cur then cur else Some IN_REVIEW)
      else if sr_status dto = Some RELEASED then
        (case checkReadonlyReleasePermission user cur of Inl e \<Rightarrow> Inl e | Inr _ \<Rightarrow> Inr (Some RELEASED))
      else if sr_isDraft dto = Some True then Inr (Some DRAFT)
      else if sr_isDraft dto = Some False \<and> \<not> managed_status cur then Inr (Some IN_REVIEW)
      else Inr cur)"

definition getAndValidateDependenciesForRelease ::
  "nat \<Rightarrow> string \<Rightarrow> string list \<Rightarrow> db \<Rightarrow> ReleaseEntity list result" where
  "getAndValidateDependenciesForRelease pid v dependencies s =
     (let ents = filter (\<lambda>r. rel_catalogId r \<in> set dependencies) (releases s) in
      if length ents < length dependencies then Inl NotFoundException
      else if filter (\<lambda>d. rel_project d = pid \<and> rel_version d = v) ents \<noteq> [] then Inl ConflictException
      else Inr ents)"

definition DEFAULT_RULE_ID :: string where
  "DEFAULT_RULE_ID = ''00000000-0000-0000-0000-000000000001''"

definition linkDefaultRuleToRelease :: "string \<Rightarrow> db \<Rightarrow> db" where
  "linkDefaultRuleToRelease c s =
     (case List.find (\<lambda>u. rul_id u = DEFAULT_RULE_ID \<and> rul_isActive u) (rules s) of
        None \<Rightarrow> s
      | Some _ \<Rightarrow>
          if list_ex (\<lambda>rr. rr_rule rr = DEFAULT_RULE_ID \<and> rr_release rr = c) (ruleReleases s) then s
          else s\<lparr>ruleReleases := ruleReleases s @ [\<lparr>rr_id = next_id s, rr_rule = DEFAULT_RULE_ID, rr_release = c\<rparr>],
                 next_id := Suc (next_id s)\<rparr>)"

text \<open>A row as the database creates it from an entity that only has its project and version.\<close>

definition new_release :: "nat \<Rightarrow> string \<Rightarrow> ReleaseEntity" where
  "new_release pid v =
     \<lparr>rel_catalogId = [], rel_version = v, rel_name = None, rel_status = DRAFT, rel_releaseNotes = None,
      rel_metadata = [], rel_project = pid, rel_requiredRegulationsCount = 0,
      rel_compliantRegulationsCount = 0, rel_createdBy = None, rel_updatedBy = None,
      rel_releasedAt = None, rel_isImported = False, rel_sortOrder = 0, rel_latest = False\<rparr>"

definition set_columns ::
  "SetReleaseDto \<Rightarrow> string \<Rightarrow> string option \<Rightarrow> bool \<Rightarrow> ReleaseStatusEnum option \<Rightarrow> nat \<Rightarrow>
   ReleaseEntity \<Rightarrow> ReleaseEntity" where
  "set_columns dto projectName userEmail isNew st regs r =
     (let email = (userEmail \<noteq> None \<and> userEmail \<noteq> Some []) in
      r\<lparr>rel_name := Some (case sr_name dto of Some n \<Rightarrow> n | None \<Rightarrow> projectName @ ''-v'' @ sr_version dto),
        rel_releaseNotes := or_old (sr_releaseNotes dto) (rel_releaseNotes r),
        rel_metadata := with_default (rel_metadata r) (map_option normalize_metadata (sr_metadata dto)),
        rel_status := with_default (rel_status r) st,
        rel_requiredRegulationsCount := regs,
        rel_createdBy := (if email \<and> isNew then userEmail else rel_createdBy r),
        rel_updatedBy := (if email then userEmail else rel_updatedBy r)\<rparr>)"

definition set_dependencies :: "string \<Rightarrow> ReleaseEntity list option \<Rightarrow> db \<Rightarrow> db" where
  "set_dependencies c deps s =
     (case deps of
        None \<Rightarrow> s
      | Some ds \<Rightarrow>
          s\<lparr>release_dependencies :=
              filter (\<lambda>p. fst p \<noteq> c) (release_dependencies s) @ map (\<lambda>d. (c, rel_catalogId d)) ds\<rparr>)"

text \<open>The insert fails when the project does not exist or the catalog id is taken.\<close>

definition save_new_release ::
  "env \<Rightarrow> ReleaseEntity \<Rightarrow> ReleaseEntity list option \<Rightarrow> db \<Rightarrow> string result \<times> db" where
  "save_new_release E r deps s =
     (let c = catalog_id_of s (rel_project r) (rel_version r) in
      if project_by_id s (rel_project r) = None \<or> release_by_catalog s c \<noteq> None then (Inl ErrorException, s)
      else (Inr c, set_dependencies c deps (insert_release E r s)))"

definition save_release ::
  "ReleaseEntity \<Rightarrow> ReleaseEntity list option \<Rightarrow> db \<Rightarrow> string result \<times> db" where
  "save_release r deps s =
     (Inr (rel_catalogId r),
      set_dependencies (rel_catalogId r) deps
        (update_releases (\<lambda>x. rel_catalogId x = rel_catalogId r) (\<lambda>x. r) s))"

definition params_of :: "SetReleaseDto \<Rightarrow> ReleaseParams" where
  "params_of dto =
     \<lparr>rp_projectIdentifier = Some (sr_projectIdentifier dto), rp_projectId = Some (sr_projectId dto),
      rp_version = sr_version dto\<rparr>"

text \<open>What follows the save of the entity.\<close>

definition after_save ::
  "env \<Rightarrow> JwtPayload option \<Rightarrow> SetReleaseDto \<Rightarrow> bool \<Rightarrow> string \<Rightarrow> db \<Rightarrow> DetailedReleaseDto result \<times> db" where
  "after_save E user dto isNew c s =
     (let pid = sr_projectId dto; v = sr_version dto;
          s1 = (if isNew then linkDefaultRuleToRelease c s else s);
          s2 = updateTotalSize pid v s1;
          s3 = (if sr_status dto = Some ARCHIVED
                then add_tasks [SendProjectReleasesChangedEvent pid c (Some (StatusEvent ARCHIVED))]
                       (updateLatestForProject pid s2)
                else refreshReleaseState E pid v s2)
      in (getRelease user (params_of dto) s3, s3))"

definition setRelease ::
  "env \<Rightarrow> JwtPayload option \<Rightarrow> string option \<Rightarrow> SetReleaseDto \<Rightarrow> db \<Rightarrow> DetailedReleaseDto result \<times> db" where
  "setRelease E user userEmail dto s =
     (let pid = sr_projectId dto; v = sr_version dto;
          existing = find_release s pid v;
          cur = map_option rel_status existing;
          projectName = (case existing of
              Some _ \<Rightarrow> (case project_by_id s pid of Some p \<Rightarrow> pj_name p | None \<Rightarrow> ident_string (sr_projectIdentifier dto))
            | None \<Rightarrow> ident_string (sr_projectIdentifier dto));
          regs = length (project_regulations pid s)
      in (case (if existing \<noteq> None then checkReadonlyReleasePermission user cur else Inr ()) of
            Inl e \<Rightarrow> (Inl e, s)
          | Inr _ \<Rightarrow>
              (case next_status user dto cur of
                 Inl e \<Rightarrow> (Inl e, s)
               | Inr st \<Rightarrow>
                   (case (case sr_dependencies dto of
                            None \<Rightarrow> Inr None
                          | Some ds \<Rightarrow> (case getAndValidateDependenciesForRelease pid v ds s of
                                         Inl e \<Rightarrow> Inl e | Inr ents \<Rightarrow> Inr (Some ents))) of
                      Inl e \<Rightarrow> (Inl e, s)
                    | Inr deps \<Rightarrow>
                        (case (case existing of
                                 Some r \<Rightarrow> save_release (set_columns dto projectName userEmail False st regs r) deps s
                               | None \<Rightarrow> save_new_release E
                                   (set_columns dto projectName userEmail True st regs (new_release pid v)) deps s) of
                           (Inl e, s1) \<Rightarrow> (Inl e, s1)
                         | (Inr c, s1) \<Rightarrow> after_save E user dto (existing = None) c s1)))))"

section \<open>Deleting releases\<close>

text \<open>
  A status without a regulation and without a snapshot has no name; the look-up of the row to
  delete is then not restricted to a name and finds the first status of the version.
\<close>

definition delete_status :: "RegulationStatusDto \<Rightarrow> string \<Rightarrow> nat \<Rightarrow> db \<Rightarrow> db" where
  "delete_status st v pid s =
     (case rsd_regulation st of
        Some n \<Rightarrow> snd (deleteVersionRegulationStatus n v pid s)
      | None \<Rightarrow>
          (case List.find (is_version s pid v) (statuses s) of
             None \<Rightarrow> s
           | Some x \<Rightarrow> s\<lparr>statuses := delete_where (\<lambda>y. rst_id y = rst_id x) (statuses s)\<rparr>))"

text \<open>The rows that keep a release from being deleted: artifacts, statuses, and dependents.\<close>

definition release_referenced :: "string \<Rightarrow> db \<Rightarrow> bool" where
  "release_referenced c s \<longleftrightarrow>
     artifacts_of s c \<noteq> [] \<or> list_ex (\<lambda>st. rst_version st = c) (statuses s) \<or>
     list_ex (\<lambda>p. snd p = c) (release_dependencies s)"

definition delete_release_row :: "string \<Rightarrow> db \<Rightarrow> db" where
  "delete_release_row c s =
     s\<lparr>releases := delete_where (\<lambda>r. rel_catalogId r = c) (releases s),
       release_dependencies := delete_where (\<lambda>p. fst p = c) (release_dependencies s),
       ruleReleases := delete_where (\<lambda>rr. rr_release rr = c) (ruleReleases s)\<rparr>"

definition policy_rule_ids :: "string \<Rightarrow> db \<Rightarrow> string list" where
  "policy_rule_ids c s =
     filter (\<lambda>i. (case rule_by_id s i of None \<Rightarrow> False | Some u \<Rightarrow> rul_type u = POLICY) \<and> i \<noteq> DEFAULT_RULE_ID)
       (map rr_rule (filter (\<lambda>rr. rr_release rr = c) (ruleReleases s)))"

definition delete_orphan_policies :: "string list \<Rightarrow> db \<Rightarrow> db" where
  "delete_orphan_policies ids s =
     (let orphans = filter (\<lambda>i. \<not> list_ex (\<lambda>rr. rr_rule rr = i) (ruleReleases s)) ids
      in s\<lparr>rules := delete_where (\<lambda>u. rul_id u \<in> set orphans) (rules s)\<rparr>)"

definition deleteRelease ::
  "env \<Rightarrow> JwtPayload option \<Rightarrow> ident \<Rightarrow> string \<Rightarrow> db \<Rightarrow> unit result \<times> db" where
  "deleteRelease E user i v s =
     (case resolve_project \<lparr>rp_projectIdentifier = Some i, rp_projectId = None, rp_version = v\<rparr> s of
        Inl e \<Rightarrow> (Inl e, s)
      | Inr params \<Rightarrow>
          (case (rp_projectId params, getReleaseEntity params s) of
             (Some pid, Some release) \<Rightarrow>
               let c = rel_catalogId release in
               if dependents_of s c \<noteq> [] then (Inl (AppError RELEASE_HAS_DEPENDENTS 400), s)
               else
                 let s1 = fold (\<lambda>st s. delete_status st v pid s) (getVersionRegulationsStatuses pid v s) s;
                     s2 = fold (\<lambda>a s. snd (deleteReleaseArtifact E user pid v (art_id a) True s)) (artifacts_of s c) s1;
                     policies = policy_rule_ids c s2
                 in if release_referenced c s2 then (Inl ErrorException, s2)
                    else (Inr (), add_tasks [SendProjectReleasesChangedEvent pid c (Some ReleaseEventType.DELETED)]
                           (delete_orphan_policies policies (delete_release_row c s2)))
           | _ \<Rightarrow> (Inl NotFoundException, s)))"

definition deleteProjectReleases :: "env \<Rightarrow> JwtPayload option \<Rightarrow> nat \<Rightarrow> db \<Rightarrow> db" where
  "deleteProjectReleases E user pid s =
     (let rs = filter (\<lambda>r. rel_project r = pid) (releases s) in
      if rs = [] then s
      else
        fold (\<lambda>r s. snd (deleteRelease E user (IdNum pid) (rel_version r) s)) rs
          (s\<lparr>release_dependencies :=
               delete_where (\<lambda>p. snd p \<in> set (map rel_catalogId rs)) (release_dependencies s)\<rparr>))"

section \<open>All releases of a project\<close>

definition archiveProjectReleases :: "nat \<Rightarrow> db \<Rightarrow> db" where
  "archiveProjectReleases pid s =
     (let rs = filter (\<lambda>r. rel_project r = pid \<and> rel_status r \<noteq> ARCHIVED) (releases s) in
      if rs = [] then s
      else add_tasks (map (\<lambda>r. SendProjectReleasesChangedEvent pid (rel_catalogId r) (Some (StatusEvent ARCHIVED))) rs)
        (update_releases (\<lambda>r. rel_project r = pid \<and> rel_status r \<noteq> ARCHIVED)
           (\<lambda>r. r\<lparr>rel_status := ARCHIVED, rel_latest := False\<rparr>) s))"

definition restoreProjectReleases :: "nat \<Rightarrow> db \<Rightarrow> db" where
  "restoreProjectReleases pid s =
     updateLatestForProject pid
       (update_releases (\<lambda>r. rel_project r = pid \<and> rel_status r = ARCHIVED) (\<lambda>r. r\<lparr>rel_status := DRAFT\<rparr>) s)"

section \<open>Changes of the regulations of a project\<close>

datatype RegulationChangedEventType = CREATED | UPDATED | DELETED

record RegulationChangedEvent =
  rce_projectId :: nat
  rce_regulation :: string
  rce_type :: RegulationChangedEventType

definition open_releases :: "nat \<Rightarrow> db \<Rightarrow> ReleaseEntity list" where
  "open_releases pid s =
     filter (\<lambda>r. rel_project r = pid \<and> (rel_status r = DRAFT \<or> rel_status r = IN_REVIEW)) (releases s)"

definition onProjectRegulationCreated :: "env \<Rightarrow> RegulationChangedEvent \<Rightarrow> db \<Rightarrow> db" where
  "onProjectRegulationCreated E event s =
     fold (\<lambda>r s. refreshReleaseState E (rce_projectId event) (rel_version r) s)
       (open_releases (rce_projectId event) s) s"

definition onProjectRegulationDeleted :: "env \<Rightarrow> RegulationChangedEvent \<Rightarrow> db \<Rightarrow> db" where
  "onProjectRegulationDeleted E event s =
     fold (\<lambda>r s. refreshReleaseState E (rce_projectId event) (rel_version r)
         (deleteOrphanRegulationStatuses (rel_version r) (rce_projectId event)
           (snd (deleteVersionRegulationStatus (rce_regulation event) (rel_version r) (rce_projectId event) s))))
       (open_releases (rce_projectId event) s) s"

definition onProjectRegulationChanged :: "env \<Rightarrow> RegulationChangedEvent \<Rightarrow> db \<Rightarrow> db" where
  "onProjectRegulationChanged E event s =
     (case rce_type event of
        CREATED \<Rightarrow> onProjectRegulationCreated E event s
      | UPDATED \<Rightarrow> s
      | RegulationChangedEventType.DELETED \<Rightarrow> onProjectRegulationDeleted E event s)"

section \<open>Released releases are protected\<close>

text \<open>
  C15. A user without the role \<open>edit-released-release\<close> cannot change a release that is \<open>RELEASED\<close> or
  in \<open>ERROR\<close>: setting the release, adding an artifact, deleting one or changing its properties is
  refused with \<open>ForbiddenException\<close>, before anything is written.
\<close>

theorem readonly_release_protected:
  assumes "\<not> hasRole u (api_role_value EDIT_RELEASED_RELEASE)"
    and "rel_status r \<in> {RELEASED, ReleaseStatusEnum.ERROR}"
  shows "(find_release s (sr_projectId dto) (sr_version dto) = Some r \<longrightarrow>
       setRelease E (Some u) userEmail dto s = (Inl ForbiddenException, s)) \<and>
     (find_release s (sa_projectId adto) (sa_version adto) = Some r \<longrightarrow>
       setReleaseArtifact E (Some u) adto s = (Inl ForbiddenException, s)) \<and>
     (find_artifact s pid v i = Some (a, r) \<longrightarrow>
       deleteReleaseArtifact E (Some u) pid v i False s = (Inl ForbiddenException, s)) \<and>
     (List.find (\<lambda>x. opt_matches (up_id pdto) (art_id x)) (artifacts s) = Some a \<and>
        release_by_catalog s (art_release a) = Some r \<longrightarrow>
       updateFileMetadata (Some u) pdto s = (Inl ForbiddenException, s))"
proof -
  have "checkReadonlyReleasePermission (Some u) (Some (rel_status r)) = Inl ForbiddenException"
    using assms by (auto simp: checkReadonlyReleasePermission_def)
  then show ?thesis
    by (simp add: setRelease_def Let_def setReleaseArtifact_def deleteReleaseArtifact_def updateFileMetadata_def)
qed

definition demo_user :: "string list \<Rightarrow> JwtPayload" where
  "demo_user roles = \<lparr>preferred_username = None, email = None, sub = None,
     resource_access = Some [(''api'', Some roles)]\<rparr>"

definition demo_set :: SetReleaseDto where
  "demo_set = \<lparr>sr_projectIdentifier = IdNum 1, sr_projectId = 1, sr_version = ''1'', sr_name = None,
     sr_releaseNotes = Some ''notes'', sr_metadata = None, sr_isDraft = Some True, sr_status = None,
     sr_dependencies = None\<rparr>"

definition demo_released :: db where
  "demo_released = empty_db\<lparr>projects := [\<lparr>pj_id = 1, pj_name = ''p''\<rparr>],
     releases := [(demo_release ''a'' ''1'' RELEASED)\<lparr>rel_latest := True\<rparr>],
     artifacts := [(demo_artifact 1 DOCKER_IMAGE ''a'' None)\<lparr>art_dockerImageUrl := Some ''u''\<rparr>]\<rparr>"

lemma readonly_release_protected_witness:
  "setRelease demo_env (Some (demo_user [])) None demo_set demo_released = (Inl ForbiddenException, demo_released)"
proof -
  have u: "\<not> hasRole (demo_user []) (api_role_value EDIT_RELEASED_RELEASE)" by code_simp
  have r: "rel_status (hd (releases demo_released)) \<in> {RELEASED, ReleaseStatusEnum.ERROR}" by code_simp
  have f: "find_release demo_released (sr_projectId demo_set) (sr_version demo_set) = Some (hd (releases demo_released))"
    by code_simp
  show ?thesis using readonly_release_protected [OF u r, of demo_released demo_set] f by blast
qed

text \<open>
  A user with the role who edits a released release without saying \<open>isDraft\<close> (it defaults to
  \<open>true\<close>) makes it a draft, and the flag \<open>latest\<close> stays with it.
\<close>

lemma draft_keeps_latest:
  "map (\<lambda>r. (rel_status r, rel_latest r))
     (releases (snd (setRelease demo_env (Some (demo_user [''edit-released-release''])) None demo_set demo_released))) =
   [(DRAFT, True)]"
  by code_simp

text \<open>
  A release that is set to \<open>RELEASED\<close> by the request and is ready stays released, without a
  \<open>releasedAt\<close> and without the flag \<open>latest\<close>.
\<close>

lemma released_without_date:
  "map (\<lambda>r. (rel_status r, rel_releasedAt r, rel_latest r))
     (releases (snd (setRelease demo_env None None (demo_set\<lparr>sr_status := Some RELEASED\<rparr>)
        (demo_released\<lparr>releases := [demo_release ''a'' ''1'' DRAFT]\<rparr>)))) =
   [(RELEASED, None, False)]"
  by code_simp

section \<open>Deleting a release\<close>

definition files_only :: "db \<Rightarrow> bool" where
  "files_only s \<longleftrightarrow> list_all (\<lambda>a. art_type a \<noteq> FILE \<longrightarrow> art_fileUpload a = None) (artifacts s)"

definition same_tables :: "db \<Rightarrow> db \<Rightarrow> bool" where
  "same_tables s' s \<longleftrightarrow>
     releases s' = releases s \<and> projects s' = projects s \<and> regulations s' = regulations s \<and>
     release_dependencies s' = release_dependencies s \<and> rules s' = rules s \<and> ruleReleases s' = ruleReleases s"

lemma same_tables_trans: "same_tables s2 s1 \<Longrightarrow> same_tables s1 s \<Longrightarrow> same_tables s2 s"
  by (simp add: same_tables_def)

lemma removeFile_frame:
  "same_tables (snd (removeFile E i s)) s \<and> artifacts (snd (removeFile E i s)) = artifacts s \<and>
   statuses (snd (removeFile E i s)) = statuses s"
  by (auto simp: removeFile_def Let_def same_tables_def split: option.splits sum.splits)

lemma request_scan_delete_frame [simp]:
  "artifacts (request_scan_delete a s) = artifacts s" "statuses (request_scan_delete a s) = statuses s"
  "same_tables (request_scan_delete a s) s"
  by (auto simp: request_scan_delete_def triggerSbomScanDelete_def same_tables_def split: option.splits)

lemma deleteReleaseArtifact_frame:
  assumes "files_only s" and s': "s' = snd (deleteReleaseArtifact E user pid v i True s)"
  shows "same_tables s' s \<and> statuses s' = statuses s \<and>
     (artifacts s' = artifacts s \<or> artifacts s' = filter (\<lambda>x. art_id x \<noteq> i) (artifacts s))"
proof (cases "find_artifact s pid v i")
  case None
  then show ?thesis by (simp add: s' deleteReleaseArtifact_def same_tables_def)
next
  case (Some ar)
  obtain a r where ar: "ar = (a, r)" by fastforce
  have a: "a \<in> set (artifacts s)" using find_artifact_SomeD Some ar by blast
  show ?thesis
  proof (cases "art_type a = FILE")
    case True
    show ?thesis
    proof (cases "artifact_upload s a")
      case (Some f)
      obtain res s1 where rm: "removeFile E (fu_id f) s = (res, s1)" by fastforce
      have fr: "same_tables s1 s" "artifacts s1 = artifacts s" "statuses s1 = statuses s"
        using removeFile_frame [of E "fu_id f" s] rm by simp_all
      have "same_tables (request_scan_delete a (add_tasks [DeleteItemRow (fu_id f)] (delete_artifact_row i s1))) s"
        by (rule same_tables_trans [OF request_scan_delete_frame(3)])
          (use fr(1) in \<open>simp add: same_tables_def delete_artifact_row_def\<close>)
      then show ?thesis
        using rm fr \<open>find_artifact s pid v i = Some ar\<close> True Some
        by (cases res) (auto simp: s' ar deleteReleaseArtifact_def delete_artifact_row_def delete_where_def)
    qed (use Some True in \<open>simp add: s' ar deleteReleaseArtifact_def same_tables_def\<close>)
  next
    case False
    then have none: "artifact_upload s a = None"
      using assms(1) a by (simp add: files_only_def list_all_iff artifact_upload_def)
    have "same_tables (request_scan_delete a (delete_artifact_row i s)) s"
      by (rule same_tables_trans [OF request_scan_delete_frame(3)]) (simp add: same_tables_def delete_artifact_row_def)
    then show ?thesis using Some False none
      by (simp add: s' ar deleteReleaseArtifact_def delete_artifact_row_def delete_where_def)
  qed
qed

lemma fold_delete_artifacts:
  assumes "files_only s" "distinct (map art_id (artifacts s))"
    "\<forall>a\<in>set as. a \<in> set (artifacts s) \<and> art_release a = c"
    and s': "s' = fold (\<lambda>a s. snd (deleteReleaseArtifact E user pid v (art_id a) True s)) as s"
  shows "same_tables s' s \<and> statuses s' = statuses s \<and> set (artifacts s') \<subseteq> set (artifacts s) \<and>
     filter (\<lambda>x. art_release x \<noteq> c) (artifacts s') = filter (\<lambda>x. art_release x \<noteq> c) (artifacts s)"
  using assms(3) s'
proof (induction as arbitrary: s' rule: rev_induct)
  case Nil
  then show ?case by (simp add: same_tables_def)
next
  case (snoc a as)
  define t where "t = fold (\<lambda>a s. snd (deleteReleaseArtifact E user pid v (art_id a) True s)) as s"
  have t: "same_tables t s" "statuses t = statuses s" "set (artifacts t) \<subseteq> set (artifacts s)"
    "filter (\<lambda>x. art_release x \<noteq> c) (artifacts t) = filter (\<lambda>x. art_release x \<noteq> c) (artifacts s)"
    using snoc.IH [OF _ t_def] snoc.prems(1) by auto
  have a: "a \<in> set (artifacts s)" "art_release a = c" using snoc.prems(1) by simp_all
  have step: "s' = snd (deleteReleaseArtifact E user pid v (art_id a) True t)"
    using snoc.prems(2) by (simp add: t_def)
  have fo: "files_only t" using assms(1) t(3) by (auto simp: files_only_def list_all_iff)
  note fr = deleteReleaseArtifact_frame [OF fo step]
  have same: "x = a" if "x \<in> set (artifacts t)" "art_id x = art_id a" for x
    using distinct_key_inj [OF assms(2) _ a(1)] that t(3) by blast
  have "filter (\<lambda>x. art_release x \<noteq> c) (filter (\<lambda>x. art_id x \<noteq> art_id a) (artifacts t)) =
      filter (\<lambda>x. art_release x \<noteq> c) (artifacts t)"
    unfolding filter_filter using same a(2) by (intro filter_cong refl) blast
  note same_rows = this
  from fr have "artifacts s' = artifacts t \<or> artifacts s' = filter (\<lambda>x. art_id x \<noteq> art_id a) (artifacts t)" by blast
  then have "filter (\<lambda>x. art_release x \<noteq> c) (artifacts s') = filter (\<lambda>x. art_release x \<noteq> c) (artifacts s) \<and>
      set (artifacts s') \<subseteq> set (artifacts s)"
  proof
    assume e: "artifacts s' = artifacts t"
    show ?thesis unfolding e using t by blast
  next
    assume e: "artifacts s' = filter (\<lambda>x. art_id x \<noteq> art_id a) (artifacts t)"
    show ?thesis unfolding e same_rows using t(3,4) by auto
  qed
  moreover have "same_tables s' s" using fr t(1) same_tables_trans by blast
  moreover have "statuses s' = statuses s" using fr t(2) by simp
  ultimately show ?case by blast
qed

lemma getReleaseEntity_eq: "rp_projectId params = Some pid \<Longrightarrow> getReleaseEntity params s = find_release s pid (rp_version params)"
  by (simp add: getReleaseEntity_def find_release_def opt_matches_def is_release_def [abs_def])

lemma is_version_cong: "releases t = releases s \<Longrightarrow> is_version t pid v = is_version s pid v"
  by (rule ext) (simp add: is_version_def release_by_catalog_def)

lemma is_version_release:
  assumes "schema_ok s" "find_release s pid v = Some r" "is_version s pid v st"
  shows "rst_version st = rel_catalogId r"
proof -
  obtain x where x: "release_by_catalog s (rst_version st) = Some x" "is_release pid v x"
    using assms(3) by (auto simp: is_version_def split: option.splits)
  then have "x = r" using is_release_unique [OF assms(1,2)] release_by_catalog_SomeD by blast
  then show ?thesis using release_by_catalog_SomeD [OF x(1)] by simp
qed

lemma delete_status_frame:
  "\<exists>rows. delete_status st v pid s = s\<lparr>statuses := rows\<rparr> \<and>
     (rows = statuses s \<or> (\<exists>x. x \<in> set (statuses s) \<and> is_version s pid v x \<and> rows = filter (\<lambda>y. rst_id y \<noteq> rst_id x) (statuses s)))"
proof (cases "rsd_regulation st")
  case None
  show ?thesis
  proof (cases "List.find (is_version s pid v) (statuses s)")
    case (Some x)
    then show ?thesis using None find_SomeD [OF Some]
      by (auto simp: delete_status_def delete_where_def intro!: exI [of _ "filter (\<lambda>y. rst_id y \<noteq> rst_id x) (statuses s)"])
  qed (use None in \<open>auto simp: delete_status_def intro!: exI [of _ "statuses s"]\<close>)
next
  case (Some n)
  show ?thesis
  proof (cases "find_status s pid v n")
    case st: (Some x)
    have "x \<in> set (statuses s) \<and> is_version s pid v x" using st find_SomeD unfolding find_status_def by fastforce
    then show ?thesis using st Some
      by (auto simp: delete_status_def deleteVersionRegulationStatus_def delete_where_def
          intro!: exI [of _ "filter (\<lambda>y. rst_id y \<noteq> rst_id x) (statuses s)"])
  qed (use Some in \<open>auto simp: delete_status_def deleteVersionRegulationStatus_def intro!: exI [of _ "statuses s"]\<close>)
qed

lemma fold_delete_status:
  assumes ok: "schema_ok s" "find_release s pid v = Some r" and d: "distinct (map rst_id (statuses s))"
    and s': "s' = fold (\<lambda>st s. delete_status st v pid s) sts s"
  shows "\<exists>rows. s' = s\<lparr>statuses := rows\<rparr> \<and> set rows \<subseteq> set (statuses s) \<and>
     filter (\<lambda>x. rst_version x \<noteq> rel_catalogId r) rows = filter (\<lambda>x. rst_version x \<noteq> rel_catalogId r) (statuses s)"
  using s'
proof (induction sts arbitrary: s' rule: rev_induct)
  case Nil
  then show ?case by (auto intro!: exI [of _ "statuses s"])
next
  case (snoc st sts)
  define t where "t = fold (\<lambda>st s. delete_status st v pid s) sts s"
  let ?c = "rel_catalogId r"
  obtain rows where rows: "t = s\<lparr>statuses := rows\<rparr>" "set rows \<subseteq> set (statuses s)"
    "filter (\<lambda>x. rst_version x \<noteq> ?c) rows = filter (\<lambda>x. rst_version x \<noteq> ?c) (statuses s)"
    using snoc.IH [OF t_def] by blast
  have s': "s' = delete_status st v pid t" using snoc.prems by (simp add: t_def)
  obtain rows' where r': "s' = t\<lparr>statuses := rows'\<rparr>" and
    cs: "rows' = statuses t \<or> (\<exists>x. x \<in> set (statuses t) \<and> is_version t pid v x \<and> rows' = filter (\<lambda>y. rst_id y \<noteq> rst_id x) (statuses t))"
    using delete_status_frame [of st v pid t] s' by auto
  have "set rows' \<subseteq> set (statuses s) \<and>
      filter (\<lambda>x. rst_version x \<noteq> ?c) rows' = filter (\<lambda>x. rst_version x \<noteq> ?c) (statuses s)"
    using cs
  proof
    assume "rows' = statuses t"
    then show ?thesis using rows by simp
  next
    assume "\<exists>x. x \<in> set (statuses t) \<and> is_version t pid v x \<and> rows' = filter (\<lambda>y. rst_id y \<noteq> rst_id x) (statuses t)"
    then obtain x where x: "x \<in> set rows" "is_version t pid v x" "rows' = filter (\<lambda>y. rst_id y \<noteq> rst_id x) rows"
      using rows(1) by auto
    have "is_version s pid v x" using x(2) is_version_cong [of t s pid v] rows(1) by simp
    then have xc: "rst_version x = ?c" by (rule is_version_release [OF ok])
    have same: "y = x" if "y \<in> set rows" "rst_id y = rst_id x" for y
      using distinct_key_inj [OF d, of y x] that x(1) rows(2) by blast
    have "filter (\<lambda>x. rst_version x \<noteq> ?c) rows' = filter (\<lambda>x. rst_version x \<noteq> ?c) rows"
      unfolding x(3) filter_filter using same xc by (intro filter_cong refl) blast
    then show ?thesis using rows x(3) by auto
  qed
  then show ?case using r' rows(1) by (intro exI [of _ rows']) simp
qed

definition linked_to :: "db \<Rightarrow> RuleEntity \<Rightarrow> string \<Rightarrow> bool" where
  "linked_to s u c \<longleftrightarrow> list_ex (\<lambda>rr. rr_rule rr = rul_id u \<and> rr_release rr = c) (ruleReleases s)"

definition linked_elsewhere :: "db \<Rightarrow> RuleEntity \<Rightarrow> string \<Rightarrow> bool" where
  "linked_elsewhere s u c \<longleftrightarrow> list_ex (\<lambda>rr. rr_rule rr = rul_id u \<and> rr_release rr \<noteq> c) (ruleReleases s)"

lemma policy_rule_ids_iff:
  assumes "distinct (map rul_id (rules s))" "u \<in> set (rules s)"
  shows "rul_id u \<in> set (policy_rule_ids c s) \<longleftrightarrow> rul_type u = POLICY \<and> rul_id u \<noteq> DEFAULT_RULE_ID \<and> linked_to s u c"
  using find_by_key [OF assms] by (force simp: policy_rule_ids_def rule_by_id_def linked_to_def list_ex_iff)

text \<open>The row of a release, its links and the policies that only it had, when no table refers to it.\<close>

lemma deleted_release_row:
  assumes "distinct (map rel_catalogId (releases s))" "distinct (map rul_id (rules s))" "same_tables s2 s" "r \<in> set (releases s)"
  defines "c \<equiv> rel_catalogId r"
  defines "t \<equiv> delete_orphan_policies (policy_rule_ids c s2) (delete_release_row c s2)"
  shows "releases t = filter (\<lambda>x. x \<noteq> r) (releases s)"
    "\<forall>p\<in>set (release_dependencies s). snd p \<noteq> c \<Longrightarrow>
       release_dependencies t = filter (\<lambda>p. fst p \<noteq> c \<and> snd p \<noteq> c) (release_dependencies s)"
    "ruleReleases t = filter (\<lambda>x. rr_release x \<noteq> c) (ruleReleases s)"
    "rules t = filter (\<lambda>u. \<not> (rul_type u = POLICY \<and> rul_id u \<noteq> DEFAULT_RULE_ID \<and>
       linked_to s u c \<and> \<not> linked_elsewhere s u c)) (rules s)"
    "filter (\<lambda>a. art_release a = c) (artifacts s2) = [] \<Longrightarrow> artifacts t = filter (\<lambda>a. art_release a \<noteq> c) (artifacts s2)"
    "\<forall>x\<in>set (statuses s2). rst_version x \<noteq> c \<Longrightarrow> statuses t = filter (\<lambda>x. rst_version x \<noteq> c) (statuses s2)"
proof -
  have tabs: "releases s2 = releases s" "release_dependencies s2 = release_dependencies s" "ruleReleases s2 = ruleReleases s" "rules s2 = rules s"
    using assms(3) by (simp_all add: same_tables_def)
  note row = t_def delete_orphan_policies_def delete_release_row_def delete_where_def Let_def tabs
  have "rel_catalogId x = c \<longleftrightarrow> x = r" if "x \<in> set (releases s)" for x
    using distinct_key_inj [OF assms(1) that assms(4)] by (auto simp: c_def)
  then have "filter (\<lambda>x. rel_catalogId x \<noteq> c) (releases s) = filter (\<lambda>x. x \<noteq> r) (releases s)"
    by (intro filter_cong) auto
  then show "releases t = filter (\<lambda>x. x \<noteq> r) (releases s)"
    by (simp add: row)
  show "release_dependencies t = filter (\<lambda>p. fst p \<noteq> c \<and> snd p \<noteq> c) (release_dependencies s)"
    if "\<forall>p\<in>set (release_dependencies s). snd p \<noteq> c"
    using that by (simp add: row) (rule filter_cong, auto)
  show "ruleReleases t = filter (\<lambda>x. rr_release x \<noteq> c) (ruleReleases s)"
    by (simp add: row)
  have ids: "policy_rule_ids c s2 = policy_rule_ids c s"
    by (simp add: policy_rule_ids_def rule_by_id_def tabs)
  have "rules t = filter (\<lambda>u. rul_id u \<notin> set (filter (\<lambda>i. \<not> list_ex (\<lambda>rr. rr_rule rr = i)
      (filter (\<lambda>x. rr_release x \<noteq> c) (ruleReleases s))) (policy_rule_ids c s))) (rules s)"
    by (simp add: row ids)
  also have "\<dots> = filter (\<lambda>u. \<not> (rul_type u = POLICY \<and> rul_id u \<noteq> DEFAULT_RULE_ID \<and>
      linked_to s u c \<and> \<not> linked_elsewhere s u c)) (rules s)"
    using policy_rule_ids_iff [OF assms(2)]
    by (intro filter_cong refl) (auto simp: linked_elsewhere_def list_ex_iff)
  finally show "rules t = filter (\<lambda>u. \<not> (rul_type u = POLICY \<and> rul_id u \<noteq> DEFAULT_RULE_ID \<and>
      linked_to s u c \<and> \<not> linked_elsewhere s u c)) (rules s)" .
  show "artifacts t = filter (\<lambda>a. art_release a \<noteq> c) (artifacts s2)" if "filter (\<lambda>a. art_release a = c) (artifacts s2) = []"
    using that by (simp add: row filter_empty_conv)
  show "statuses t = filter (\<lambda>x. rst_version x \<noteq> c) (statuses s2)" if "\<forall>x\<in>set (statuses s2). rst_version x \<noteq> c"
    using that by (simp add: row)
qed

text \<open>
  C16. A release that could be deleted had no dependents, and nothing of it is left: its row, its
  artifacts, its regulation statuses, its dependencies and its links to policies are gone, and of
  the policies those that were linked to it alone, except the default rule; restrictions stay.
  Everything else in these tables is as it was, and the event about the deletion is pending.
\<close>

theorem delete_release_spec:
  assumes ok: "schema_ok s" "files_only s" "distinct (map rst_id (statuses s))" "distinct (map rul_id (rules s))"
    and r: "find_release s pid v = Some r" and del: "deleteRelease E user (IdNum pid) v s = (Inr (), s')"
  shows "dependents_of s (rel_catalogId r) = [] \<and>
     releases s' = filter (\<lambda>x. x \<noteq> r) (releases s) \<and>
     artifacts s' = filter (\<lambda>a. art_release a \<noteq> rel_catalogId r) (artifacts s) \<and>
     statuses s' = filter (\<lambda>x. rst_version x \<noteq> rel_catalogId r) (statuses s) \<and>
     release_dependencies s' =
       filter (\<lambda>p. fst p \<noteq> rel_catalogId r \<and> snd p \<noteq> rel_catalogId r) (release_dependencies s) \<and>
     ruleReleases s' = filter (\<lambda>x. rr_release x \<noteq> rel_catalogId r) (ruleReleases s) \<and>
     rules s' = filter (\<lambda>u. \<not> (rul_type u = POLICY \<and> rul_id u \<noteq> DEFAULT_RULE_ID \<and>
        linked_to s u (rel_catalogId r) \<and> \<not> linked_elsewhere s u (rel_catalogId r))) (rules s) \<and>
     SendProjectReleasesChangedEvent pid (rel_catalogId r) (Some ReleaseEventType.DELETED) \<in> set (tasks s')"
proof -
  let ?c = "rel_catalogId r"
  define s1 where "s1 = fold (\<lambda>st s. delete_status st v pid s) (getVersionRegulationsStatuses pid v s) s"
  define s2 where "s2 = fold (\<lambda>a s. snd (deleteReleaseArtifact E user pid v (art_id a) True s)) (artifacts_of s ?c) s1"
  have e: "getReleaseEntity \<lparr>rp_projectIdentifier = Some (IdNum pid), rp_projectId = Some pid, rp_version = v\<rparr> s = Some r"
    using getReleaseEntity_eq [of "\<lparr>rp_projectIdentifier = Some (IdNum pid), rp_projectId = Some pid, rp_version = v\<rparr>" pid s] r
    by simp
  have deps: "dependents_of s ?c = []" and free: "\<not> release_referenced ?c s2"
    and s': "s' = add_tasks [SendProjectReleasesChangedEvent pid ?c (Some ReleaseEventType.DELETED)]
       (delete_orphan_policies (policy_rule_ids ?c s2) (delete_release_row ?c s2))"
    using del e by (auto simp: deleteRelease_def resolve_project_def Let_def s1_def s2_def split: if_splits)
  have rin: "r \<in> set (releases s)" using find_release_SomeD [OF r] by blast
  obtain rows where s1: "s1 = s\<lparr>statuses := rows\<rparr>"
    and rows: "filter (\<lambda>x. rst_version x \<noteq> ?c) rows = filter (\<lambda>x. rst_version x \<noteq> ?c) (statuses s)"
    using fold_delete_status [OF ok(1) r ok(3) s1_def] by blast
  have "files_only s1" "distinct (map art_id (artifacts s1))"
      "\<forall>a\<in>set (artifacts_of s ?c). a \<in> set (artifacts s1) \<and> art_release a = ?c"
    using ok(1,2) by (simp_all add: s1 files_only_def schema_ok_def artifacts_of_def)
  note arts = fold_delete_artifacts [OF this s2_def]
  have tabs: "same_tables s2 s" using arts by (auto simp: s1 same_tables_def)
  have st: "statuses s2 = rows" using arts by (simp add: s1)
  have none: "filter (\<lambda>a. art_release a = ?c) (artifacts s2) = []" "\<forall>x\<in>set rows. rst_version x \<noteq> ?c"
      "\<forall>p\<in>set (release_dependencies s). snd p \<noteq> ?c"
    using free tabs by (auto simp: release_referenced_def artifacts_of_def list_ex_iff st same_tables_def)
  have "distinct (map rel_catalogId (releases s))"
    using ok(1) by (simp add: schema_ok_def)
  note row = deleted_release_row [OF this ok(4) tabs rin]
  have "artifacts s' = filter (\<lambda>a. art_release a \<noteq> ?c) (artifacts s2)"
    using row(5) [OF none(1)] unfolding s' by simp
  moreover have "filter (\<lambda>a. art_release a \<noteq> ?c) (artifacts s2) = filter (\<lambda>a. art_release a \<noteq> ?c) (artifacts s)"
    using arts by (simp add: s1)
  moreover have "statuses s' = filter (\<lambda>x. rst_version x \<noteq> ?c) (statuses s)"
    using row(6) [unfolded st, OF none(2)] rows unfolding s' by simp
  moreover have "releases s' = filter (\<lambda>x. x \<noteq> r) (releases s)"
    and "ruleReleases s' = filter (\<lambda>x. rr_release x \<noteq> ?c) (ruleReleases s)"
    and "rules s' = filter (\<lambda>u. \<not> (rul_type u = POLICY \<and> rul_id u \<noteq> DEFAULT_RULE_ID \<and>
        linked_to s u ?c \<and> \<not> linked_elsewhere s u ?c)) (rules s)"
    using row(1,3,4) unfolding s' by simp_all
  moreover have "release_dependencies s' =
      filter (\<lambda>p. fst p \<noteq> ?c \<and> snd p \<noteq> ?c) (release_dependencies s)"
    using row(2) [OF none(3)] unfolding s' by simp
  moreover have "SendProjectReleasesChangedEvent pid ?c (Some ReleaseEventType.DELETED) \<in> set (tasks s')"
    unfolding s' by simp
  ultimately show ?thesis using deps by simp
qed

definition demo_two :: db where
  "demo_two = demo_released\<lparr>
     releases := [demo_release ''a'' ''1'' DRAFT, demo_release ''b'' ''2'' DRAFT],
     rules := [\<lparr>rul_id = ''p1'', rul_name = ''p1'', rul_description = None, rul_type = POLICY, rul_version = 1,
               rul_isActive = True, rul_isPush = False, rul_rule = JNull\<rparr>,
               \<lparr>rul_id = ''p2'', rul_name = ''p2'', rul_description = None, rul_type = POLICY, rul_version = 1,
               rul_isActive = True, rul_isPush = False, rul_rule = JNull\<rparr>],
     ruleReleases := [\<lparr>rr_id = 1, rr_rule = ''p1'', rr_release = ''a''\<rparr>, \<lparr>rr_id = 2, rr_rule = ''p2'', rr_release = ''a''\<rparr>,
                      \<lparr>rr_id = 3, rr_rule = ''p2'', rr_release = ''b''\<rparr>]\<rparr>"

lemma delete_release_spec_witness:
  "releases (snd (deleteRelease demo_env None (IdNum 1) ''1'' demo_two)) = [demo_release ''b'' ''2'' DRAFT] \<and>
   artifacts (snd (deleteRelease demo_env None (IdNum 1) ''1'' demo_two)) = [] \<and>
   map rul_id (rules (snd (deleteRelease demo_env None (IdNum 1) ''1'' demo_two))) = [''p2'']"
proof -
  have ok: "schema_ok demo_two" "files_only demo_two" "distinct (map rst_id (statuses demo_two))"
    "distinct (map rul_id (rules demo_two))" by code_simp+
  have r: "find_release demo_two 1 ''1'' = Some (demo_release ''a'' ''1'' DRAFT)" by code_simp
  have "fst (deleteRelease demo_env None (IdNum 1) ''1'' demo_two) = Inr ()" by code_simp
  then have res: "deleteRelease demo_env None (IdNum 1) ''1'' demo_two =
      (Inr (), snd (deleteRelease demo_env None (IdNum 1) ''1'' demo_two))"
    by (metis prod.collapse)
  note del = delete_release_spec [OF ok r res]
  have "filter (\<lambda>x. x \<noteq> demo_release ''a'' ''1'' DRAFT) (releases demo_two) = [demo_release ''b'' ''2'' DRAFT]"
    by (simp add: demo_two_def demo_release_def)
  moreover have "filter (\<lambda>a. art_release a \<noteq> rel_catalogId (demo_release ''a'' ''1'' DRAFT)) (artifacts demo_two) = []"
    by code_simp
  moreover have "map rul_id (rules (snd (deleteRelease demo_env None (IdNum 1) ''1'' demo_two))) = [''p2'']" by code_simp
  ultimately show ?thesis using del by simp
qed

section \<open>All releases of a project at once\<close>

text \<open>
  Archiving the releases of a project and restoring them makes every one of them a draft that
  is not the latest, whatever its status was before, and leaves the other projects alone.
\<close>

theorem archive_then_restore:
  "releases (restoreProjectReleases pid (archiveProjectReleases pid s)) =
     map (\<lambda>r. if rel_project r = pid then r\<lparr>rel_status := DRAFT, rel_latest := False\<rparr> else r) (releases s)"
proof -
  define s1 where "s1 = update_releases (\<lambda>r. rel_project r = pid \<and> rel_status r = ARCHIVED)
     (\<lambda>r. r\<lparr>rel_status := DRAFT\<rparr>) (archiveProjectReleases pid s)"
  define f where "f r = (if rel_project r = pid
     then (if rel_status r = ARCHIVED then r\<lparr>rel_status := DRAFT\<rparr> else r\<lparr>rel_status := DRAFT, rel_latest := False\<rparr>) else r)"
    for r :: ReleaseEntity
  have arch: "releases (archiveProjectReleases pid s) =
      update_where (\<lambda>r. rel_project r = pid \<and> rel_status r \<noteq> ARCHIVED) (\<lambda>r. r\<lparr>rel_status := ARCHIVED, rel_latest := False\<rparr>) (releases s)"
  proof (cases "filter (\<lambda>r. rel_project r = pid \<and> rel_status r \<noteq> ARCHIVED) (releases s) = []")
    case True
    then have "\<forall>r\<in>set (releases s). \<not> (rel_project r = pid \<and> rel_status r \<noteq> ARCHIVED)"
      by (simp add: filter_empty_conv)
    with True show ?thesis by (simp add: archiveProjectReleases_def update_where_none)
  qed (simp add: archiveProjectReleases_def Let_def)
  have s1: "releases s1 = map f (releases s)"
    unfolding s1_def update_releases_simps arch update_where_def map_map by (rule map_cong) (auto simp: f_def)
  have "top_released pid s1 = None"
    by (simp add: top_released_None s1) (simp add: f_def)
  then have "releases (updateLatestForProject pid s1) =
      map (\<lambda>r. if rel_project r = pid then r\<lparr>rel_latest := False\<rparr> else r) (map f (releases s))"
    by (simp add: releases_updateLatest s1)
  also have "\<dots> = map (\<lambda>r. if rel_project r = pid then r\<lparr>rel_status := DRAFT, rel_latest := False\<rparr> else r) (releases s)"
    unfolding map_map by (rule map_cong) (auto simp: f_def)
  finally show ?thesis by (simp add: restoreProjectReleases_def s1_def)
qed

section \<open>A new release\<close>

lemma find_release_insert:
  assumes "find_release s (rel_project r) (rel_version r) = None"
    and "release_by_catalog s (catalog_id_of s (rel_project r) (rel_version r)) = None"
  shows "\<exists>n. find_release (insert_release E r s) (rel_project r) (rel_version r) =
     Some (r\<lparr>rel_catalogId := catalog_id_of s (rel_project r) (rel_version r), rel_sortOrder := n\<rparr>)"
proof -
  let ?c = "catalog_id_of s (rel_project r) (rel_version r)"
  let ?P = "is_release (rel_project r) (rel_version r)"
  have old: "\<not> ?P x" "rel_catalogId x \<noteq> ?c" if "x \<in> set (releases s)" for x
    using assms that by (auto simp: find_release_def release_by_catalog_def find_None_conv)
  have new: "?P (r\<lparr>rel_catalogId := k, rel_sortOrder := n\<rparr>)" for k n by (simp add: is_release_def)
  show ?thesis
  proof (cases "semver_valid E (rel_version r)")
    case True
    have cat: "?c \<notin> set (map rel_catalogId (releases s))"
    proof
      assume "?c \<in> set (map rel_catalogId (releases s))"
      then obtain x where "x \<in> set (releases s)" "rel_catalogId x = ?c" by (metis (no_types) imageE list.set_map)
      then show False using old(2) by blast
    qed
    define r1 where "r1 = r\<lparr>rel_catalogId := ?c, rel_sortOrder := 0\<rparr>"
    define n where "n = new_sort_order E r1 (s\<lparr>releases := releases s @ [r1]\<rparr>)"
    have rel: "releases (insert_release E r s) =
        map (\<lambda>x. if n \<le> rel_sortOrder x then x\<lparr>rel_sortOrder := rel_sortOrder x + 1\<rparr> else x) (releases s) @
        [r1\<lparr>rel_sortOrder := n\<rparr>]"
      using releases_insert_release [OF cat True] unfolding Let_def n_def r1_def .
    have "find_release (insert_release E r s) (rel_project r) (rel_version r) = Some (r1\<lparr>rel_sortOrder := n\<rparr>)"
      unfolding find_release_def rel
    proof (rule find_append_new)
      fix x assume "x \<in> set (map (\<lambda>x. if n \<le> rel_sortOrder x then x\<lparr>rel_sortOrder := rel_sortOrder x + 1\<rparr> else x) (releases s))"
      then obtain y where "y \<in> set (releases s)" "rel_project x = rel_project y" "rel_version x = rel_version y" by auto
      then show "\<not> ?P x" using old(1) by (simp add: is_release_def)
    qed (simp add: is_release_def r1_def)
    then show ?thesis by (auto simp: r1_def)
  next
    case False
    then have "find_release (insert_release E r s) (rel_project r) (rel_version r) =
        Some (r\<lparr>rel_catalogId := ?c, rel_sortOrder := 0\<rparr>)"
      unfolding find_release_def insert_release_def Let_def afterInsert_def
      using old(1) by (simp add: find_append_new is_release_def)
    then show ?thesis by blast
  qed
qed

lemma find_release_updateTotalSize:
  "find_release s pid v = Some r \<Longrightarrow>
   find_release (updateTotalSize pid v s) pid v = Some (r\<lparr>rel_metadata := total_size_metadata s r\<rparr>)"
  using find_release_SomeD [of s pid v r]
  by (simp add: updateTotalSize_def find_release_update is_release_def)

lemma releases_sync_files: "releases (snd (sync_files E fs b s)) = releases s"
  by (induction E fs b s rule: sync_files.induct) auto

lemma find_release_sync:
  "find_release (snd (if ids \<noteq> [] then syncAndCheckMissingFiles E ids t else (False, t))) pid v = find_release t pid v"
  by (simp add: find_release_def syncAndCheckMissingFiles_def releases_sync_files)

lemma find_release_refresh_draft:
  assumes r: "find_release s pid v = Some r" "rel_status r = DRAFT"
  shows "\<exists>n. find_release (refreshReleaseState E pid v s) pid v =
     Some (r\<lparr>rel_requiredRegulationsCount := length (project_regulations pid s), rel_compliantRegulationsCount := n\<rparr>)"
proof -
  define n where "n = length (filter (regulation_compliant (getVersionRegulationsStatuses pid v s)) (project_regulations pid s))"
  define s1 where "s1 = update_releases (\<lambda>r. is_release pid v r \<and> rel_status r \<noteq> RELEASED)
    (\<lambda>r. r\<lparr>rel_requiredRegulationsCount := length (project_regulations pid s), rel_compliantRegulationsCount := n\<rparr>) s"
  define ids where "ids = file_ids s (installation_artifacts s (rel_catalogId r))"
  define s2 where "s2 = snd (if ids \<noteq> [] then syncAndCheckMissingFiles E ids s1 else (False, s1))"
  have d: "refresh_decide pid v r ds a b c d t = (None, t)" for ds a b c d t
    using r(2) by (simp add: refresh_decide_def)
  have "refreshReleaseState E pid v s = add_tasks [SendProjectReleasesChangedEvent pid (rel_catalogId r) None] s2"
    unfolding refreshReleaseState_def Let_def r(1) option.case r(2) case_prod_beta d s2_def s1_def ids_def n_def by simp
  then have "find_release (refreshReleaseState E pid v s) pid v = find_release s2 pid v"
    by (simp add: find_release_def add_tasks_def)
  also have "\<dots> = find_release s1 pid v" unfolding s2_def by (rule find_release_sync)
  also have "\<dots> = Some (r\<lparr>rel_requiredRegulationsCount := length (project_regulations pid s), rel_compliantRegulationsCount := n\<rparr>)"
    unfolding s1_def using r find_release_SomeD [OF r(1)] by (simp add: find_release_update is_release_def)
  finally show ?thesis by blast
qed

text \<open>
  The first save of a version, in a state in which it may be created, makes a release in
  \<open>DRAFT\<close> under the catalog id \<open><id>.<project>@<version>\<close>: it is not the latest, its creator is recorded,
  its name defaults to \<open><project>-v<version>\<close>, and it carries the number of regulations it must
  comply with.
\<close>

theorem set_release_new:
  assumes new: "find_release s (sr_projectId dto) (sr_version dto) = None"
    and pj: "project_by_id s (sr_projectId dto) \<noteq> None"
    and c: "c = catalog_id_of s (sr_projectId dto) (sr_version dto)" "release_by_catalog s c = None"
    and dto: "sr_status dto = Some DRAFT" "sr_dependencies dto = None"
    and email: "userEmail = Some e" "e \<noteq> []"
  shows "\<exists>r. find_release (snd (setRelease E user userEmail dto s)) (sr_projectId dto) (sr_version dto) = Some r \<and>
     rel_catalogId r = c \<and> rel_status r = DRAFT \<and> \<not> rel_latest r \<and> rel_releasedAt r = None \<and>
     rel_createdBy r = Some e \<and> rel_updatedBy r = Some e \<and> rel_releaseNotes r = sr_releaseNotes dto \<and>
     rel_name r = Some (case sr_name dto of Some n \<Rightarrow> n
       | None \<Rightarrow> ident_string (sr_projectIdentifier dto) @ ''-v'' @ sr_version dto) \<and>
     rel_requiredRegulationsCount r = length (project_regulations (sr_projectId dto) s)"
proof -
  let ?pid = "sr_projectId dto" and ?v = "sr_version dto"
  define r0 where "r0 = set_columns dto (ident_string (sr_projectIdentifier dto)) userEmail True (Some DRAFT)
      (length (project_regulations ?pid s)) (new_release ?pid ?v)"
  have r0 [simp]: "rel_project r0 = ?pid" "rel_version r0 = ?v" "rel_status r0 = DRAFT" "rel_latest r0 = False"
    "rel_releasedAt r0 = None"
    by (simp_all add: r0_def set_columns_def new_release_def Let_def with_default_def)
  obtain n where ins: "find_release (insert_release E r0 s) ?pid ?v = Some (r0\<lparr>rel_catalogId := c, rel_sortOrder := n\<rparr>)"
    using find_release_insert [of s r0 E] new c by auto
  define s1 where "s1 = linkDefaultRuleToRelease c (insert_release E r0 s)"
  have l: "find_release s1 ?pid ?v = Some (r0\<lparr>rel_catalogId := c, rel_sortOrder := n\<rparr>)"
    using ins by (simp add: s1_def linkDefaultRuleToRelease_def find_release_def split: option.split)
  define s2 where "s2 = updateTotalSize ?pid ?v s1"
  obtain m where m: "find_release s2 ?pid ?v = Some (r0\<lparr>rel_catalogId := c, rel_sortOrder := n, rel_metadata := m\<rparr>)"
    using find_release_updateTotalSize [OF l] by (auto simp: s2_def)
  obtain k where k: "find_release (refreshReleaseState E ?pid ?v s2) ?pid ?v =
      Some (r0\<lparr>rel_catalogId := c, rel_sortOrder := n, rel_metadata := m,
        rel_requiredRegulationsCount := length (project_regulations ?pid s2), rel_compliantRegulationsCount := k\<rparr>)"
    using find_release_refresh_draft [OF m, of E] by auto
  have regs: "project_regulations ?pid s2 = project_regulations ?pid s"
    by (simp add: s2_def s1_def linkDefaultRuleToRelease_def project_regulations_def updateTotalSize_def
          insert_release_def afterInsert_def Let_def split: option.split)
  obtain q where q: "project_by_id s ?pid = Some q" using pj by blast
  have "snd (setRelease E user userEmail dto s) = refreshReleaseState E ?pid ?v s2"
    using new q c(2) dto
    by (simp add: setRelease_def next_status_def save_new_release_def set_dependencies_def after_save_def Let_def
          c(1) [symmetric] s2_def s1_def r0_def [symmetric])
  then show ?thesis using k email
    by (simp add: regs) (simp add: r0_def set_columns_def new_release_def Let_def or_old_def split: option.split)
qed

lemma set_release_new_witness:
  "\<exists>r. find_release (snd (setRelease demo_env (Some (demo_user [])) (Some ''m'')
       (demo_set\<lparr>sr_status := Some DRAFT\<rparr>) (demo_released\<lparr>releases := []\<rparr>))) 1 ''1'' = Some r \<and>
     rel_catalogId r = ''1.p@1'' \<and> rel_createdBy r = Some ''m'' \<and> rel_name r = Some ''1-v1''"
proof -
  let ?s = "demo_released\<lparr>releases := []\<rparr>" and ?d = "demo_set\<lparr>sr_status := Some DRAFT\<rparr>"
  have h: "find_release ?s (sr_projectId ?d) (sr_version ?d) = None" "project_by_id ?s (sr_projectId ?d) \<noteq> None"
    "''1.p@1'' = catalog_id_of ?s (sr_projectId ?d) (sr_version ?d)" "release_by_catalog ?s ''1.p@1'' = None"
    "sr_status ?d = Some DRAFT" "sr_dependencies ?d = None" "(''m'' :: string) \<noteq> []"
    "sr_projectId ?d = 1" "sr_version ?d = ''1''" "sr_name ?d = None"
    "ident_string (sr_projectIdentifier ?d) @ ''-v'' @ sr_version ?d = ''1-v1''"
    by code_simp+
  show ?thesis
    using set_release_new [OF h(1-6) refl h(7), of demo_env "Some (demo_user [])"] h(8-11) by auto
qed

end
