(* ===== verification/Release_Transfer.thy ===== *)
theory Release_Transfer
  imports Releases
begin

text \<open>
  Moving a release between installations (\<open>apps/upload/src/releases.service.ts\<close>): \<open>exportRelease\<close>,
  \<open>importRelease\<close> with the import of the artifacts in the background, and the link from an
  artifact to its SBOM report. \<open>createdAt\<close> of an export is a column the model leaves out.
\<close>

section \<open>Export\<close>

record ExportArtifactDto =
  ea_name :: string
  ea_size :: nat
  ea_sha256 :: string
  ea_downloadUrl :: string
  ea_metadata :: metadata

record ExportDockerImageDto =
  ed_name :: "string option"
  ed_imageUrl :: "string option"
  ed_metadata :: metadata

record ExportDependencyDto =
  ep_catalogId :: string
  ep_name :: string
  ep_version :: string

record ExportReleaseDto =
  ex_name :: string
  ex_version :: string
  ex_tag :: string
  ex_project :: string
  ex_status :: ReleaseStatusEnum
  ex_releaseNotes :: string
  ex_author :: string
  ex_metadata :: metadata
  ex_artifacts :: "ExportArtifactDto list"
  ex_dockerImages :: "ExportDockerImageDto list"
  ex_dependencies :: "ExportDependencyDto list"

lemma truthy_iff: "truthy x \<longleftrightarrow> x \<noteq> None \<and> x \<noteq> Some []"
  by (simp add: truthy_def split: option.split)

text \<open>The digest of a file: the stored one, else that of the object, which is then stored.\<close>

definition export_sha256 :: "env \<Rightarrow> FileUploadEntity \<Rightarrow> db \<Rightarrow> string \<times> db" where
  "export_sha256 E f s =
     (if truthy (fu_sha256 f) then (or_empty (fu_sha256 f), s)
      else (case calculateSha256FromBucket (sha256_hex E) (cosign_sign E) (bucket s) (BUCKET_NAME E) (fu_objectKey f) of
          Inl _ \<Rightarrow> ([], s)
        | Inr h \<Rightarrow> (h, update_uploads (\<lambda>g. fu_id g = fu_id f) (\<lambda>g. g\<lparr>fu_sha256 := Some h\<rparr>) s)))"

text \<open>
  The files of the release, read before the loop; an URL that cannot be signed ends the export,
  and the digests stored so far stay. Packages (\<open>rpm\<close>, \<open>deb\<close>) appear in neither list.
\<close>

fun export_uploads :: "env \<Rightarrow> (ReleaseArtifactEntity \<times> FileUploadEntity) list \<Rightarrow> db \<Rightarrow> ExportArtifactDto list result \<times> db" where
  "export_uploads E [] s = (Inr [], s)"
| "export_uploads E ((a, f) # afs) s =
     (let (h, s1) = export_sha256 E f s in
      case presignedGetObject E (BUCKET_NAME E) (fu_objectKey f) of
        Inl e \<Rightarrow> (Inl e, s1)
      | Inr url \<Rightarrow>
          (case export_uploads E afs s1 of
             (Inl e, s2) \<Rightarrow> (Inl e, s2)
           | (Inr ds, s2) \<Rightarrow>
               (Inr (\<lparr>ea_name = fu_fileName f, ea_size = size_of_upload f, ea_sha256 = h, ea_downloadUrl = url,
                      ea_metadata = art_metadata a\<rparr> # ds), s2)))"

definition files_of :: "db \<Rightarrow> string \<Rightarrow> (ReleaseArtifactEntity \<times> FileUploadEntity) list" where
  "files_of s c =
     List.map_filter (\<lambda>a. if art_type a = FILE then map_option (Pair a) (artifact_upload s a) else None) (artifacts_of s c)"

definition export_images :: "db \<Rightarrow> string \<Rightarrow> ExportDockerImageDto list" where
  "export_images s c =
     map (\<lambda>a. \<lparr>ed_name = art_artifactName a, ed_imageUrl = art_dockerImageUrl a, ed_metadata = art_metadata a\<rparr>)
       (filter (\<lambda>a. art_type a = DOCKER_IMAGE) (artifacts_of s c))"

definition export_dependencies :: "db \<Rightarrow> string \<Rightarrow> ExportDependencyDto list" where
  "export_dependencies s c =
     map (\<lambda>r. \<lparr>ep_catalogId = rel_catalogId r, ep_name = or_empty (rel_name r), ep_version = rel_version r\<rparr>)
       (dependencies_of s c)"

text \<open>
  A number as identifier does not set the project id: the one of the message is used, and without
  one the first release of that version of any project is exported.
\<close>

definition export_params :: "ReleaseParams \<Rightarrow> db \<Rightarrow> ReleaseParams result" where
  "export_params params s =
     (case rp_projectIdentifier params of
        Some (IdNum _) \<Rightarrow> Inr params
      | i \<Rightarrow>
          (case List.find (\<lambda>p. case i of Some (IdStr n) \<Rightarrow> pj_name p = n | _ \<Rightarrow> True) (projects s) of
             None \<Rightarrow> Inl NotFoundException
           | Some p \<Rightarrow> Inr (params\<lparr>rp_projectId := Some (pj_id p)\<rparr>)))"

definition exportRelease :: "env \<Rightarrow> ReleaseParams \<Rightarrow> db \<Rightarrow> ExportReleaseDto result \<times> db" where
  "exportRelease E params s =
     (case export_params params s of
        Inl e \<Rightarrow> (Inl e, s)
      | Inr params' \<Rightarrow>
          (case getReleaseEntity params' s of
             None \<Rightarrow> (Inl NotFoundException, s)
           | Some r \<Rightarrow>
               (case export_uploads E (files_of s (rel_catalogId r)) s of
                  (Inl e, s1) \<Rightarrow> (Inl e, s1)
                | (Inr fs, s1) \<Rightarrow>
                    (Inr \<lparr>ex_name = or_empty (rel_name r), ex_version = rel_version r,
                       ex_tag = ''v'' @ rel_version r,
                       ex_project = (case project_by_id s (rel_project r) of Some p \<Rightarrow> pj_name p | None \<Rightarrow> []),
                       ex_status = rel_status r, ex_releaseNotes = or_empty (rel_releaseNotes r),
                       ex_author = (if truthy (rel_createdBy r) then or_empty (rel_createdBy r)
                                    else ''unknown@example.com''),
                       ex_metadata = rel_metadata r, ex_artifacts = fs,
                       ex_dockerImages = export_images s (rel_catalogId r),
                       ex_dependencies = export_dependencies s (rel_catalogId r)\<rparr>, s1))))"

section \<open>Import\<close>

record ImportDockerImageDto =
  id_name :: string
  id_imageUrl :: string
  id_metadata :: "metadata option"

record ImportReleaseDto =
  ir_name :: "string option"
  ir_version :: string
  ir_projectIdentifier :: "ident option"
  ir_releaseNotes :: "string option"
  ir_author :: string
  ir_metadata :: "metadata option"
  ir_artifacts :: "import_artifact list"
  ir_dockerImages :: "ImportDockerImageDto list option"
  ir_dependencies :: "string list option"

record ImportReleaseResponseDto =
  ip_catalogId :: string
  ip_name :: string
  ip_version :: string
  ip_status :: ReleaseStatusEnum
  ip_background :: bool

text \<open>An \<open>INSERT\<close> of an artifact, which the constraints of the table may refuse.\<close>

definition insert_artifact :: "ReleaseArtifactEntity \<Rightarrow> db \<Rightarrow> unit result \<times> db" where
  "insert_artifact a s =
     (if \<not> artifact_check a \<or> list_ex (artifact_conflict a) (artifacts s) \<or> upload_taken a s \<or>
         release_by_catalog s (art_release a) = None then (Inl ErrorException, s)
      else (Inr (), s\<lparr>artifacts := artifacts s @ [a], next_id := Suc (next_id s)\<rparr>))"

definition imported_image :: "nat \<Rightarrow> string \<Rightarrow> ImportDockerImageDto \<Rightarrow> ReleaseArtifactEntity" where
  "imported_image i c d =
     \<lparr>art_id = i, art_artifactName = Some (id_name d), art_type = DOCKER_IMAGE,
      art_dockerImageUrl = Some (id_imageUrl d), art_isInstallationFile = True,
      art_metadata = with_default [] (id_metadata d), art_release = c, art_fileUpload = None,
      art_isExecutable = False, art_arguments = None, art_sbomScanId = None, art_enableSbomScan = False,
      art_sbomReportPath = None, art_packageVersion = None\<rparr>"

definition import_image :: "string \<Rightarrow> ImportDockerImageDto \<Rightarrow> db \<Rightarrow> db" where
  "import_image c d s = snd (insert_artifact (imported_image (next_id s) c d) s)"

definition import_project :: "ident option \<Rightarrow> db \<Rightarrow> nat result" where
  "import_project i s =
     (case i of
        Some (IdNum n) \<Rightarrow> Inr n
      | _ \<Rightarrow>
          (case List.find (\<lambda>p. case i of Some (IdStr n) \<Rightarrow> pj_name p = n | _ \<Rightarrow> True) (projects s) of
             None \<Rightarrow> Inl NotFoundException
           | Some p \<Rightarrow> Inr (pj_id p)))"

definition imported_release :: "ImportReleaseDto \<Rightarrow> nat \<Rightarrow> db \<Rightarrow> ReleaseEntity" where
  "imported_release dto pid s =
     (new_release pid (ir_version dto))
       \<lparr>rel_name := Some (if truthy (ir_name dto) then or_empty (ir_name dto) else ir_version dto),
        rel_releaseNotes := Some (or_empty (ir_releaseNotes dto)),
        rel_metadata := with_default [] (ir_metadata dto), rel_status := DRAFT,
        rel_createdBy := Some (ir_author dto), rel_isImported := True,
        rel_requiredRegulationsCount := length (project_regulations pid s)\<rparr>"

definition importRelease :: "env \<Rightarrow> ImportReleaseDto \<Rightarrow> db \<Rightarrow> ImportReleaseResponseDto result \<times> db" where
  "importRelease E dto s =
     (case import_project (ir_projectIdentifier dto) s of
        Inl e \<Rightarrow> (Inl e, s)
      | Inr pid \<Rightarrow>
          if find_release s pid (ir_version dto) \<noteq> None then (Inl ConflictException, s)
          else
            let r = imported_release dto pid s in
            (case (case ir_dependencies dto of
                     None \<Rightarrow> Inr None
                   | Some ds \<Rightarrow>
                       if ds = [] then Inr None
                       else (case getAndValidateDependenciesForRelease pid (ir_version dto) ds s of
                               Inl e \<Rightarrow> Inl e | Inr ents \<Rightarrow> Inr (Some ents))) of
               Inl e \<Rightarrow> (Inl e, s)
             | Inr deps \<Rightarrow>
                 (case save_new_release E r deps s of
                    (Inl e, s1) \<Rightarrow> (Inl e, s1)
                  | (Inr c, s1) \<Rightarrow>
                      let s2 = linkDefaultRuleToRelease c s1;
                          s3 = fold (import_image c) (with_default [] (ir_dockerImages dto)) s2;
                          s4 = (if ir_artifacts dto \<noteq> []
                                then add_tasks [ImportArtifactsInBackground pid (ir_version dto) c (ir_artifacts dto)] s3
                                else s3);
                          s5 = refreshReleaseState E pid (ir_version dto) s4
                      in (Inr \<lparr>ip_catalogId = c, ip_name = or_empty (rel_name r), ip_version = ir_version dto,
                               ip_status = DRAFT, ip_background = (ir_artifacts dto \<noteq> [])\<rparr>, s5))))"

section \<open>The artifacts in the background\<close>

definition import_key :: "nat \<Rightarrow> string \<Rightarrow> string \<Rightarrow> string" where
  "import_key pid v name1 =
     createObjectKey \<lparr>cf_userId = ''release'', cf_fileName = name1,
       cf_objectKey = Some (show_nat pid @ ''/'' @ v), cf_enableSbomScan = None\<rparr>"

definition imported_file :: "nat \<Rightarrow> string \<Rightarrow> nat \<Rightarrow> import_artifact \<Rightarrow> ReleaseArtifactEntity" where
  "imported_file i c fu a =
     \<lparr>art_id = i, art_artifactName = Some (im_name a), art_type = FILE, art_dockerImageUrl = None,
      art_isInstallationFile = True, art_metadata = with_default [] (im_metadata a), art_release = c,
      art_fileUpload = Some fu, art_isExecutable = with_default False (im_isExecutable a),
      art_arguments = im_arguments a, art_sbomScanId = None, art_enableSbomScan = False,
      art_sbomReportPath = None, art_packageVersion = None\<rparr>"

text \<open>The upload row and the artifact are there before the download starts. The key is unique.\<close>

definition importArtifact :: "env \<Rightarrow> nat \<Rightarrow> string \<Rightarrow> string \<Rightarrow> import_artifact \<Rightarrow> db \<Rightarrow> unit result \<times> db" where
  "importArtifact E pid v c a s =
     (let key = import_key pid v (im_name a) in
      if upload_by_key s key \<noteq> None then (Inl ErrorException, s)
      else
        let f = new_upload (next_id s) (clock s) ''release'' (im_name a) key (BUCKET_NAME E);
            s1 = s\<lparr>uploads := uploads s @ [f], next_id := Suc (next_id s)\<rparr>
        in (case insert_artifact (imported_file (next_id s1) c (fu_id f) a) s1 of
              (Inl e, s2) \<Rightarrow> (Inl e, s2)
            | (Inr _, s2) \<Rightarrow> uploadFileFromUrl E f (or_empty (im_downloadUrl a)) (im_sha256 a) s2))"

text \<open>A failed import is recorded in the upload with the key, whichever import created that row.\<close>

definition try_import :: "env \<Rightarrow> nat \<Rightarrow> string \<Rightarrow> string \<Rightarrow> import_artifact \<Rightarrow> bool \<times> db \<Rightarrow> bool \<times> db" where
  "try_import E pid v c a acc =
     (case importArtifact E pid v c a (snd acc) of
        (Inr _, s1) \<Rightarrow> (fst acc, s1)
      | (Inl e, s1) \<Rightarrow>
          (False, update_uploads (\<lambda>f. fu_objectKey f = import_key pid v (im_name a))
             (\<lambda>f. f\<lparr>fu_status := FileUPloadStatusEnum.ERROR, fu_error := Some (exn_message E e)\<rparr>) s1))"

definition release_imported :: "nat \<Rightarrow> ReleaseEntity \<Rightarrow> ReleaseEntity" where
  "release_imported now r =
     r\<lparr>rel_status := RELEASED,
       rel_releasedAt := (case rel_releasedAt r of None \<Rightarrow> Some now | Some t \<Rightarrow> Some t)\<rparr>"

text \<open>
  The imports run concurrently, each on its own key; the model runs them in the order of the
  list. Artifacts without an URL are passed over and do not count.
\<close>

definition importArtifactsInBackground :: "env \<Rightarrow> nat \<Rightarrow> string \<Rightarrow> string \<Rightarrow> import_artifact list \<Rightarrow> db \<Rightarrow> db" where
  "importArtifactsInBackground E pid v c arts s =
     (let valid = filter (\<lambda>a. truthy (im_downloadUrl a)) arts in
      if valid = [] then s
      else
        let (allSucceeded, s1) = fold (try_import E pid v c) valid (True, s) in
        if allSucceeded \<and> arts \<noteq> [] then
          refreshReleaseState E pid v
            (updateLatestForProject pid
              (update_releases (\<lambda>r. rel_catalogId r = c) (release_imported (clock s1)) s1))
        else s1)"

section \<open>SBOM reports\<close>

definition linkSbomReport :: "string \<Rightarrow> string option \<Rightarrow> db \<Rightarrow> db" where
  "linkSbomReport scanId reportBucketPath s =
     (if \<not> truthy reportBucketPath then s
      else (case List.find (\<lambda>a. art_sbomScanId a = Some scanId) (artifacts s) of
          None \<Rightarrow> s
        | Some a \<Rightarrow> update_artifacts (\<lambda>x. art_id x = art_id a) (\<lambda>x. x\<lparr>art_sbomReportPath := reportBucketPath\<rparr>) s))"

section \<open>What an import leaves\<close>

lemma failed_upload_frame [simp]:
  "releases (snd (failed_upload E e f s)) = releases s" "artifacts (snd (failed_upload E e f s)) = artifacts s"
  "next_id (snd (failed_upload E e f s)) = next_id s" "bucket (snd (failed_upload E e f s)) = bucket s"
  by (simp_all add: failed_upload_def save_upload_def)

lemma uploadFileFromUrl_frame [simp]:
  "releases (snd (uploadFileFromUrl E f url x s)) = releases s"
  "artifacts (snd (uploadFileFromUrl E f url x s)) = artifacts s"
  "next_id (snd (uploadFileFromUrl E f url x s)) = next_id s"
  by (simp_all add: uploadFileFromUrl_def Let_def save_upload_def split: sum.split)

lemma save_upload_keep: "g \<in> set (uploads s) \<Longrightarrow> fu_id g \<noteq> fu_id f \<Longrightarrow> g \<in> set (uploads (save_upload f s))"
  by (simp add: save_upload_def set_upsert_row_keep)

lemma save_upload_origin: "g \<in> set (uploads (save_upload f s)) \<Longrightarrow> g = f \<or> g \<in> set (uploads s)"
  by (auto simp: save_upload_def upsert_row_def set_update_where split: if_splits)

lemma uploads_bucket_update [simp]: "uploads (s\<lparr>bucket := b\<rparr>) = uploads s" by simp

definition imported_ok :: "env \<Rightarrow> nat \<Rightarrow> string \<Rightarrow> import_artifact \<Rightarrow> db \<Rightarrow> bool" where
  "imported_ok E pid v a s \<longleftrightarrow>
     (\<exists>f\<in>set (uploads s).
        fu_objectKey f = import_key pid v (im_name a) \<and> fu_status f = FileUPloadStatusEnum.UPLOADED \<and>
        (case stat_or_null (bucket s) (BUCKET_NAME E) (fu_objectKey f) of
           None \<Rightarrow> False | Some o1 \<Rightarrow> fu_sha256 f = Some (sha256_hex E (obj_content o1))) \<and>
        (truthy (im_sha256 a) \<longrightarrow> im_sha256 a = fu_sha256 f))"

lemma importArtifact_success:
  assumes imp: "importArtifact E pid v c a s = (Inr (), s')" and fresh: "list_all (\<lambda>f. fu_id f < next_id s) (uploads s)"
  shows "imported_ok E pid v a s' \<and> releases s' = releases s \<and>
     list_all (\<lambda>f. fu_id f < next_id s') (uploads s') \<and>
     (\<forall>b. imported_ok E pid v b s \<longrightarrow> imported_ok E pid v b s')"
proof -
  let ?k = "import_key pid v (im_name a)"
  define f where "f = new_upload (next_id s) (clock s) ''release'' (im_name a) ?k (BUCKET_NAME E)"
  define s1 where "s1 = s\<lparr>uploads := uploads s @ [f], next_id := Suc (next_id s)\<rparr>"
  define s2 where "s2 = snd (insert_artifact (imported_file (next_id s1) c (fu_id f) a) s1)"
  have new: "upload_by_key s ?k = None" and up: "uploadFileFromUrl E f (or_empty (im_downloadUrl a)) (im_sha256 a) s2 = (Inr (), s')"
    using imp by (auto simp: importArtifact_def Let_def f_def s1_def s2_def split: if_splits prod.splits sum.splits)
  have s2: "releases s2 = releases s" "uploads s2 = uploads s @ [f]" "bucket s2 = bucket s" "Suc (next_id s) \<le> next_id s2"
    by (simp_all add: s2_def s1_def insert_artifact_def)
  have f [simp]: "fu_id f = next_id s" "fu_objectKey f = ?k" "fu_bucketName f = BUCKET_NAME E"
    by (simp_all add: f_def new_upload_def)
  obtain resp f0 f1 o1 where s': "s' = save_upload f1 ((save_upload f0 s2)\<lparr>bucket := putObject (bucket s) (BUCKET_NAME E) ?k o1\<rparr>)"
    and ids: "fu_id f0 = next_id s" "fu_id f1 = next_id s" and ok: "fault (bucket s) (BUCKET_NAME E, ?k) = None"
    and row: "http_get E (or_empty (im_downloadUrl a)) = Inr resp" "obj_content o1 = hr_body resp"
      "fu_status f1 = FileUPloadStatusEnum.UPLOADED" "fu_objectKey f1 = ?k"
      "fu_sha256 f1 = Some (sha256_hex E (hr_body resp))"
      "\<forall>x. im_sha256 a = Some x \<longrightarrow> x \<noteq> [] \<longrightarrow> sha256_hex E (hr_body resp) = x"
    using upload_success [OF up] unfolding s2(3) f by blast
  have rel: "releases s' = releases s" "next_id s' = next_id s2"
    using uploadFileFromUrl_frame [of E f "or_empty (im_downloadUrl a)" "im_sha256 a" s2] up s2 by simp_all
  have small: "list_all (\<lambda>f. fu_id f < next_id s') (uploads s')"
    unfolding list_all_iff
  proof
    fix g assume "g \<in> set (uploads s')"
    then have "g = f1 \<or> g = f0 \<or> g \<in> set (uploads s2)"
      unfolding s' by (auto dest!: save_upload_origin)
    then show "fu_id g < next_id s'" using ids s2 rel fresh by (auto simp: list_all_iff)
  qed
  have keep: "g \<in> set (uploads s')" if "g \<in> set (uploads s)" for g
  proof -
    have "fu_id g < next_id s" using that fresh by (auto simp: list_all_iff)
    then have "g \<in> set (uploads (save_upload f0 s2))" using that s2 ids by (intro save_upload_keep) auto
    then show ?thesis unfolding s' using \<open>fu_id g < next_id s\<close> ids by (intro save_upload_keep) auto
  qed
  have obj: "stat_or_null (bucket s') (BUCKET_NAME E) k = stat_or_null (bucket s) (BUCKET_NAME E) k" if "k \<noteq> ?k" for k
    using that by (simp add: s' stat_or_null_eq putObject_def)
  have "stat_or_null (bucket s') (BUCKET_NAME E) ?k = Some o1" and "upload_by_id s' (next_id s) = Some f1"
    using ok ids by (simp_all add: s' stat_put)
  then have "imported_ok E pid v a s'"
    unfolding imported_ok_def
    using row upload_by_id_SomeD [of s' "next_id s" f1] by (intro bexI [of _ f1]) (auto simp: truthy_iff)
  moreover have "imported_ok E pid v b s'" if "imported_ok E pid v b s" for b
  proof -
    from that obtain g where g: "g \<in> set (uploads s)" "fu_objectKey g = import_key pid v (im_name b)"
        "fu_status g = FileUPloadStatusEnum.UPLOADED"
        "case stat_or_null (bucket s) (BUCKET_NAME E) (fu_objectKey g) of
           None \<Rightarrow> False | Some o1 \<Rightarrow> fu_sha256 g = Some (sha256_hex E (obj_content o1))"
        "truthy (im_sha256 b) \<longrightarrow> im_sha256 b = fu_sha256 g"
      unfolding imported_ok_def by blast
    have "fu_objectKey g \<noteq> ?k" using find_NoneD [OF new [unfolded upload_by_key_def] g(1)] .
    then show ?thesis unfolding imported_ok_def using g keep obj by (intro bexI [of _ g]) auto
  qed
  ultimately show ?thesis using rel small by blast
qed

lemma try_import_releases:
  "releases (snd (importArtifact E pid v c a s)) = releases s"
  by (simp add: importArtifact_def insert_artifact_def Let_def split: prod.splits sum.splits)

lemma try_import_frame: "releases (snd (try_import E pid v c a acc)) = releases (snd acc)"
proof -
  obtain r s1 where r: "importArtifact E pid v c a (snd acc) = (r, s1)" by fastforce
  then have "releases s1 = releases (snd acc)" using try_import_releases [of E pid v c a "snd acc"] by simp
  with r show ?thesis by (cases r) (simp_all add: try_import_def)
qed

lemma try_imports_releases: "releases (snd (fold (try_import E pid v c) as acc)) = releases (snd acc)"
  by (induction as arbitrary: acc) (simp_all add: try_import_frame)

lemma try_imports_failed: "\<not> fst acc \<Longrightarrow> \<not> fst (fold (try_import E pid v c) as acc)"
proof (induction as arbitrary: acc)
  case (Cons a as)
  then have "\<not> fst (try_import E pid v c a acc)" by (auto simp: try_import_def split: prod.splits sum.splits)
  then show ?case using Cons.IH by simp
qed simp

lemma try_imports_ok:
  assumes "fold (try_import E pid v c) as (True, s) = (True, s')" "list_all (\<lambda>f. fu_id f < next_id s) (uploads s)"
  shows "(\<forall>a\<in>set as. imported_ok E pid v a s') \<and> (\<forall>b. imported_ok E pid v b s \<longrightarrow> imported_ok E pid v b s')"
  using assms
proof (induction as arbitrary: s)
  case (Cons a as)
  obtain r s1 where r: "importArtifact E pid v c a s = (r, s1)" by fastforce
  show ?case
  proof (cases r)
    case (Inl e)
    then have "\<not> fst (try_import E pid v c a (True, s))" using r by (simp add: try_import_def)
    then have "\<not> fst (fold (try_import E pid v c) as (try_import E pid v c a (True, s)))" by (rule try_imports_failed)
    then show ?thesis using Cons.prems(1) by simp
  next
    case (Inr u)
    then have step: "try_import E pid v c a (True, s) = (True, s1)" using r by (simp add: try_import_def)
    have one: "imported_ok E pid v a s1" "list_all (\<lambda>f. fu_id f < next_id s1) (uploads s1)"
      "\<forall>b. imported_ok E pid v b s \<longrightarrow> imported_ok E pid v b s1"
      using importArtifact_success [OF _ Cons.prems(2)] r Inr by auto
    have "fold (try_import E pid v c) as (True, s1) = (True, s')" using Cons.prems(1) step by simp
    note rest = Cons.IH [OF this one(2)]
    show ?thesis using rest one by auto
  qed
qed simp

text \<open>
  C19. An import in the background releases the release only when every artifact that names an URL
  is there: each has an upload under its key that is \<open>UPLOADED\<close>, the object is in the bucket, and
  its digest is that of the object and the expected one where one was given. When one of them
  fails, no release is changed. (Ids are handed out in order.)
\<close>

theorem background_import_outcome:
  assumes ids: "list_all (\<lambda>f. fu_id f < next_id s) (uploads s)"
    and valid: "valid = filter (\<lambda>a. truthy (im_downloadUrl a)) arts" "valid \<noteq> []"
    and run: "fold (try_import E pid v c) valid (True, s) = (ok, s1)"
  shows "(\<not> ok \<longrightarrow> importArtifactsInBackground E pid v c arts s = s1 \<and> releases s1 = releases s) \<and>
     (ok \<longrightarrow> list_all (\<lambda>a. imported_ok E pid v a s1) valid \<and>
        importArtifactsInBackground E pid v c arts s =
          refreshReleaseState E pid v (updateLatestForProject pid
            (update_releases (\<lambda>r. rel_catalogId r = c) (release_imported (clock s1)) s1)))"
proof -
  have "arts \<noteq> []" using valid by auto
  then have eq: "importArtifactsInBackground E pid v c arts s =
      (if ok then refreshReleaseState E pid v (updateLatestForProject pid
            (update_releases (\<lambda>r. rel_catalogId r = c) (release_imported (clock s1)) s1)) else s1)"
    using valid run by (simp add: importArtifactsInBackground_def Let_def)
  have "releases s1 = releases s" using try_imports_releases [of E pid v c valid "(True, s)"] run by simp
  moreover have "list_all (\<lambda>a. imported_ok E pid v a s1) valid" if ok
    using try_imports_ok [of E pid v c valid s s1] run that ids by (simp add: list_all_iff)
  ultimately show ?thesis using eq by simp
qed

definition demo_import :: "string \<Rightarrow> string option \<Rightarrow> import_artifact" where
  "demo_import n url = \<lparr>im_name = n, im_downloadUrl = url, im_sha256 = None, im_isExecutable = None,
     im_arguments = None, im_metadata = None\<rparr>"

definition demo_imported :: db where
  "demo_imported = empty_db\<lparr>projects := [\<lparr>pj_id = 1, pj_name = ''p''\<rparr>],
     releases := [demo_release ''c'' ''1'' DRAFT]\<rparr>"

lemma background_import_outcome_witness:
  "map rel_status (releases (importArtifactsInBackground demo_env 1 ''1'' ''c'' [demo_import ''a'' (Some ''u'')]
      demo_imported)) = [RELEASED] \<and>
   list_all (\<lambda>a. imported_ok demo_env 1 ''1'' a
      (snd (fold (try_import demo_env 1 ''1'' ''c'') [demo_import ''a'' (Some ''u'')] (True, demo_imported))))
     [demo_import ''a'' (Some ''u'')]"
proof -
  have i: "list_all (\<lambda>f. fu_id f < next_id demo_imported) (uploads demo_imported)"
    "[demo_import ''a'' (Some ''u'')] = filter (\<lambda>a. truthy (im_downloadUrl a)) [demo_import ''a'' (Some ''u'')]"
    "fst (fold (try_import demo_env 1 ''1'' ''c'') [demo_import ''a'' (Some ''u'')] (True, demo_imported))"
    by code_simp+
  have r: "fold (try_import demo_env 1 ''1'' ''c'') [demo_import ''a'' (Some ''u'')] (True, demo_imported) =
     (True, snd (fold (try_import demo_env 1 ''1'' ''c'') [demo_import ''a'' (Some ''u'')] (True, demo_imported)))"
    using i(3) by (metis (full_types) prod.collapse)
  have "map rel_status (releases (importArtifactsInBackground demo_env 1 ''1'' ''c'' [demo_import ''a'' (Some ''u'')]
      demo_imported)) = [RELEASED]" by code_simp
  then show ?thesis using background_import_outcome [OF i(1,2) _ r] by blast
qed

section \<open>What an import creates\<close>

lemma tasks_sync_files: "tasks (snd (sync_files E fs b s)) = tasks s"
  by (induction E fs b s rule: sync_files.induct) auto

lemma tasks_refresh_draft:
  assumes "find_release s pid v = Some r" "rel_status r = DRAFT"
  shows "set (tasks s) \<subseteq> set (tasks (refreshReleaseState E pid v s))"
proof -
  have d: "refresh_decide pid v r ds a b c d t = (None, t)" for ds a b c d t
    using assms(2) by (simp add: refresh_decide_def)
  show ?thesis
    unfolding refreshReleaseState_def Let_def assms option.case case_prod_beta d
    by (auto simp: syncAndCheckMissingFiles_def tasks_sync_files)
qed

lemma import_images_frame:
  "releases (fold (import_image c) ds s) = releases s" "tasks (fold (import_image c) ds s) = tasks s"
  by (induction ds arbitrary: s) (simp_all add: import_image_def insert_artifact_def)

lemma find_release_cong: "releases s = releases t \<Longrightarrow> find_release s pid v = find_release t pid v"
  by (simp add: find_release_def)

text \<open>
  An import that is accepted creates a release that was not there: a \<open>DRAFT\<close> under the catalog
  id of its project and version, marked as imported and never as the latest, by the author the
  request names; and when the request lists artifacts, their import is pending.
\<close>

theorem import_release_spec:
  assumes imp: "importRelease E dto s = (Inr res, s')"
  shows "\<exists>pid r. import_project (ir_projectIdentifier dto) s = Inr pid \<and>
     find_release s pid (ir_version dto) = None \<and> find_release s' pid (ir_version dto) = Some r \<and>
     rel_catalogId r = catalog_id_of s pid (ir_version dto) \<and> ip_catalogId res = rel_catalogId r \<and>
     rel_status r = DRAFT \<and> rel_isImported r \<and> \<not> rel_latest r \<and> rel_releasedAt r = None \<and>
     rel_createdBy r = Some (ir_author dto) \<and>
     (ir_artifacts dto \<noteq> [] \<longrightarrow>
        ImportArtifactsInBackground pid (ir_version dto) (rel_catalogId r) (ir_artifacts dto) \<in> set (tasks s'))"
proof -
  obtain pid where pid: "import_project (ir_projectIdentifier dto) s = Inr pid"
    using imp by (auto simp: importRelease_def split: sum.splits)
  define v where "v = ir_version dto"
  define r0 where "r0 = imported_release dto pid s"
  define c where "c = catalog_id_of s pid v"
  have r0 [simp]: "rel_project r0 = pid" "rel_version r0 = v" "rel_status r0 = DRAFT" "rel_latest r0 = False"
    "rel_isImported r0" "rel_releasedAt r0 = None" "rel_createdBy r0 = Some (ir_author dto)"
    by (simp_all add: r0_def imported_release_def new_release_def v_def)
  have none: "find_release s pid v = None" using imp pid by (auto simp: importRelease_def v_def split: if_splits)
  obtain deps where "save_new_release E r0 deps s = (Inr c, set_dependencies c deps (insert_release E r0 s))"
    and free: "release_by_catalog s c = None" and res: "ip_catalogId res = c"
    and s': "s' = refreshReleaseState E pid v
       ((if ir_artifacts dto \<noteq> [] then add_tasks [ImportArtifactsInBackground pid v c (ir_artifacts dto)] else (\<lambda>x. x))
         (fold (import_image c) (with_default [] (ir_dockerImages dto))
           (linkDefaultRuleToRelease c (set_dependencies c deps (insert_release E r0 s)))))"
    using imp pid none
    by (auto simp: importRelease_def Let_def save_new_release_def c_def [symmetric] v_def [symmetric] r0_def [symmetric]
        split: sum.splits if_splits)
  define s4 where "s4 = (if ir_artifacts dto \<noteq> [] then add_tasks [ImportArtifactsInBackground pid v c (ir_artifacts dto)] else (\<lambda>x. x))
         (fold (import_image c) (with_default [] (ir_dockerImages dto))
           (linkDefaultRuleToRelease c (set_dependencies c deps (insert_release E r0 s))))"
  obtain n where n: "find_release (insert_release E r0 s) pid v = Some (r0\<lparr>rel_catalogId := c, rel_sortOrder := n\<rparr>)"
    using find_release_insert [of s r0 E] none free by (auto simp: c_def)
  have "releases s4 = releases (insert_release E r0 s)"
    by (simp add: s4_def import_images_frame linkDefaultRuleToRelease_def set_dependencies_def split: option.split)
  then have 4: "find_release s4 pid v = Some (r0\<lparr>rel_catalogId := c, rel_sortOrder := n\<rparr>)"
    using n find_release_cong by metis
  obtain k where k: "find_release s' pid v = Some (r0\<lparr>rel_catalogId := c, rel_sortOrder := n,
      rel_requiredRegulationsCount := length (project_regulations pid s4), rel_compliantRegulationsCount := k\<rparr>)"
    using find_release_refresh_draft [OF 4, of E] s' unfolding s4_def [symmetric] by auto
  have "ImportArtifactsInBackground pid v c (ir_artifacts dto) \<in> set (tasks s')" if "ir_artifacts dto \<noteq> []"
    using tasks_refresh_draft [OF 4, of E] that unfolding s' s4_def [symmetric] by (auto simp: s4_def)
  then show ?thesis using pid none k res unfolding v_def [symmetric] by (auto simp: c_def)
qed

definition demo_import_dto :: ImportReleaseDto where
  "demo_import_dto = \<lparr>ir_name = None, ir_version = ''2'', ir_projectIdentifier = Some (IdStr ''p''),
     ir_releaseNotes = None, ir_author = ''m'', ir_metadata = None,
     ir_artifacts = [demo_import ''a'' None], ir_dockerImages = None, ir_dependencies = None\<rparr>"

lemma import_release_spec_witness:
  "\<exists>r. find_release (snd (importRelease demo_env demo_import_dto demo_imported)) 1 ''2'' = Some r \<and>
     rel_isImported r \<and> rel_status r = DRAFT"
proof -
  define res where "res = \<lparr>ip_catalogId = ''1.p@2'', ip_name = ''2'', ip_version = ''2'', ip_status = DRAFT, ip_background = True\<rparr>"
  have "fst (importRelease demo_env demo_import_dto demo_imported) = Inr res" unfolding res_def by code_simp
  then have "importRelease demo_env demo_import_dto demo_imported =
      (Inr res, snd (importRelease demo_env demo_import_dto demo_imported))" by (metis prod.collapse)
  from import_release_spec [OF this] obtain pid r where
    "import_project (ir_projectIdentifier demo_import_dto) demo_imported = Inr pid"
    "find_release (snd (importRelease demo_env demo_import_dto demo_imported)) pid (ir_version demo_import_dto) = Some r"
    "rel_isImported r" "rel_status r = DRAFT" by blast
  moreover have "import_project (ir_projectIdentifier demo_import_dto) demo_imported = Inr 1" by code_simp
  ultimately show ?thesis by (auto simp: demo_import_dto_def)
qed

section \<open>Export and import together\<close>

definition exported_from :: "env \<Rightarrow> db \<Rightarrow> FileUploadEntity \<Rightarrow> ExportArtifactDto \<Rightarrow> bool" where
  "exported_from E s f x \<longleftrightarrow>
     ea_name x = fu_fileName f \<and>
     presignedGetObject E (BUCKET_NAME E) (fu_objectKey f) = Inr (ea_downloadUrl x) \<and>
     (ea_sha256 x \<noteq> [] \<longrightarrow>
        (if truthy (fu_sha256 f) then fu_sha256 f = Some (ea_sha256 x)
         else map_option (sha256_hex E \<circ> obj_content) (stat_or_null (bucket s) (BUCKET_NAME E) (fu_objectKey f))
              = Some (ea_sha256 x)))"

lemma export_uploads_from:
  "export_uploads E afs s = (Inr ds, s') \<Longrightarrow> x \<in> set ds \<Longrightarrow> \<exists>af\<in>set afs. exported_from E s (snd af) x"
proof (induction E afs s arbitrary: ds s' rule: export_uploads.induct)
  case (2 E a f afs s)
  obtain h s1 where h: "export_sha256 E f s = (h, s1)" by fastforce
  have b: "bucket s1 = bucket s" using h by (auto simp: export_sha256_def split: if_splits sum.splits)
  obtain url ds' where url: "presignedGetObject E (BUCKET_NAME E) (fu_objectKey f) = Inr url"
    and rest: "export_uploads E afs s1 = (Inr ds', s')"
    and ds: "ds = \<lparr>ea_name = fu_fileName f, ea_size = size_of_upload f, ea_sha256 = h, ea_downloadUrl = url,
                   ea_metadata = art_metadata a\<rparr> # ds'"
    using 2(2) h by (auto split: sum.splits prod.splits)
  show ?case
  proof (cases "x \<in> set ds'")
    case True
    then obtain af where af: "af \<in> set afs" "exported_from E s1 (snd af) x"
      using 2(1) [OF h [symmetric] refl url rest] by blast
    have "exported_from E s (snd af) x" using af(2) unfolding exported_from_def b .
    then show ?thesis using af(1) by (intro bexI [of _ af]) simp_all
  next
    case False
    then have x: "x = hd ds" using 2(3) ds by auto
    have "h \<noteq> [] \<Longrightarrow> (if truthy (fu_sha256 f) then fu_sha256 f = Some h
         else map_option (sha256_hex E \<circ> obj_content) (stat_or_null (bucket s) (BUCKET_NAME E) (fu_objectKey f)) = Some h)"
      using h
      by (auto simp: export_sha256_def truthy_iff or_empty_def calculateSha256FromBucket_eq getObject_def
          statObject_def stat_or_null_eq split: if_splits sum.splits option.splits)
    then have "exported_from E s f x" using x ds url by (simp add: exported_from_def)
    then show ?thesis by (intro bexI [of _ "(a, f)"]) simp_all
  qed
qed simp

lemma set_files_of: "(a, f) \<in> set (files_of s c) \<Longrightarrow> a \<in> set (artifacts_of s c) \<and> artifact_upload s a = Some f"
  by (auto simp: files_of_def List.map_filter_def split: if_splits)

text \<open>
  C20. A file that is exported and imported elsewhere arrives unchanged: when the exported
  description of a file carries a digest, an import of that description succeeds only if the
  object it puts into the bucket has this digest, which is the one stored with the exported
  file or, without a stored one, that of the exported object.
\<close>

theorem transfer_keeps_digest:
  assumes ex: "exportRelease E params s = (Inr dto, s1)" "x \<in> set (ex_artifacts dto)" "ea_sha256 x \<noteq> []"
    and imp: "importArtifact E' pid v c \<lparr>im_name = ea_name x, im_downloadUrl = Some (ea_downloadUrl x),
        im_sha256 = Some (ea_sha256 x), im_isExecutable = None, im_arguments = None,
        im_metadata = Some (ea_metadata x)\<rparr> t = (Inr (), t')"
    and ids: "list_all (\<lambda>f. fu_id f < next_id t) (uploads t)"
  shows "(\<exists>f\<in>set (uploads s). exported_from E s f x) \<and>
     (\<exists>g\<in>set (uploads t'). fu_objectKey g = import_key pid v (ea_name x) \<and>
        fu_status g = FileUPloadStatusEnum.UPLOADED \<and> fu_sha256 g = Some (ea_sha256 x) \<and>
        map_option (sha256_hex E' \<circ> obj_content) (stat_or_null (bucket t') (BUCKET_NAME E') (fu_objectKey g))
          = Some (ea_sha256 x))"
proof
  obtain c0 where "export_uploads E (files_of s c0) s = (Inr (ex_artifacts dto), s1)"
    using ex(1) by (auto simp: exportRelease_def split: sum.splits option.splits prod.splits)
  from export_uploads_from [OF this ex(2)] obtain a f where "(a, f) \<in> set (files_of s c0)" "exported_from E s f x"
    by fastforce
  then show "\<exists>f\<in>set (uploads s). exported_from E s f x"
    using set_files_of [of a f s c0] upload_by_id_SomeD [of s] by (auto simp: artifact_upload_def split: option.splits)
  show "\<exists>g\<in>set (uploads t'). fu_objectKey g = import_key pid v (ea_name x) \<and>
      fu_status g = FileUPloadStatusEnum.UPLOADED \<and> fu_sha256 g = Some (ea_sha256 x) \<and>
      map_option (sha256_hex E' \<circ> obj_content) (stat_or_null (bucket t') (BUCKET_NAME E') (fu_objectKey g)) = Some (ea_sha256 x)"
    using importArtifact_success [OF imp ids] ex(3)
    by (auto simp: imported_ok_def truthy_iff split: option.splits)
qed

definition demo_exported :: db where
  "demo_exported = demo_imported\<lparr>
     artifacts := [demo_artifact 1 FILE ''c'' (Some 2), (demo_artifact 3 RPM ''c'' None)\<lparr>art_packageVersion := Some ''1''\<rparr>],
     uploads := [(demo_file 2 ''k'' FileUPloadStatusEnum.UPLOADED)\<lparr>fu_sha256 := Some ''hget:k''\<rparr>]\<rparr>"

definition demo_params :: "ident \<Rightarrow> ReleaseParams" where
  "demo_params i = \<lparr>rp_projectIdentifier = Some i, rp_projectId = None, rp_version = ''1''\<rparr>"

lemma transfer_keeps_digest_witness:
  "\<exists>g\<in>set (uploads (snd (importArtifact demo_env 1 ''1'' ''c'' ((demo_import ''k'' (Some ''get:k''))
       \<lparr>im_sha256 := Some ''hget:k'', im_metadata := Some []\<rparr>) demo_imported))). fu_sha256 g = Some ''hget:k''"
proof -
  define x where "x = \<lparr>ea_name = ''k'', ea_size = 0, ea_sha256 = ''hget:k'', ea_downloadUrl = ''get:k'', ea_metadata = []\<rparr>"
  let ?a = "\<lparr>im_name = ea_name x, im_downloadUrl = Some (ea_downloadUrl x), im_sha256 = Some (ea_sha256 x),
     im_isExecutable = None, im_arguments = None, im_metadata = Some (ea_metadata x)\<rparr>"
  define dto where "dto = projr (fst (exportRelease demo_env (demo_params (IdStr ''p'')) demo_exported))"
  have "isl (fst (exportRelease demo_env (demo_params (IdStr ''p'')) demo_exported)) = False" by code_simp
  then have e: "exportRelease demo_env (demo_params (IdStr ''p'')) demo_exported =
      (Inr dto, snd (exportRelease demo_env (demo_params (IdStr ''p'')) demo_exported))"
    unfolding dto_def by (metis prod.collapse sum.collapse(2))
  have x: "x \<in> set (ex_artifacts dto)" "ea_sha256 x \<noteq> []" unfolding dto_def x_def by code_simp+
  have "isl (fst (importArtifact demo_env 1 ''1'' ''c'' ?a demo_imported)) = False" unfolding x_def by code_simp
  then have i: "importArtifact demo_env 1 ''1'' ''c'' ?a demo_imported =
      (Inr (), snd (importArtifact demo_env 1 ''1'' ''c'' ?a demo_imported))"
    by (metis prod.collapse sum.collapse(2) old.unit.exhaust)
  have n: "list_all (\<lambda>f. fu_id f < next_id demo_imported) (uploads demo_imported)" by code_simp
  show ?thesis
    using transfer_keeps_digest [OF e x i n] by (auto simp: x_def demo_import_def)
qed

text \<open>The package of the release is in neither list of the export.\<close>

lemma export_drops_packages:
  "map_sum id (\<lambda>d. (map ea_name (ex_artifacts d), ex_dockerImages d))
     (fst (exportRelease demo_env (demo_params (IdStr ''p'')) demo_exported)) = Inr ([''k''], [])"
  by code_simp

text \<open>With the id of a project as identifier the release of another project is exported.\<close>

lemma export_of_other_project:
  "map_sum id ex_project (fst (exportRelease demo_env (demo_params (IdNum 2))
     (demo_exported\<lparr>projects := [\<lparr>pj_id = 1, pj_name = ''p''\<rparr>, \<lparr>pj_id = 2, pj_name = ''q''\<rparr>],
        releases := releases demo_exported @ [(demo_release ''d'' ''1'' DRAFT)\<lparr>rel_project := 2\<rparr>]\<rparr>))) = Inr ''p''"
  by code_simp

text \<open>Of two artifacts one has no URL; the release is released without it.\<close>

lemma import_without_url_released:
  "(let s' = importArtifactsInBackground demo_env 1 ''1'' ''c''
       [demo_import ''a'' (Some ''u''), demo_import ''b'' None] demo_imported
    in (map rel_status (releases s'), map art_artifactName (artifacts s'))) = ([RELEASED], [Some ''a''])"
  by code_simp

text \<open>A second artifact of the same name fails and takes the upload of the first with it.\<close>

lemma import_duplicate_name:
  "map fu_status (uploads (importArtifactsInBackground demo_env 1 ''1'' ''c''
      [demo_import ''a'' (Some ''u''), demo_import ''a'' (Some ''w'')] demo_imported)) = [FileUPloadStatusEnum.ERROR]"
  by code_simp

end
