(* ===== verification/Release_Tasks.thy ===== *)
theory Release_Tasks
  imports Release_Transfer Release_Cascade
begin

text \<open>
  The pending calls of every kind (the promises the service starts without awaiting them) and
  what they lead to. A call that throws is logged by the \<open>catch\<close> it was started with, so the
  state keeps what it wrote before.
\<close>

section \<open>Running a pending call\<close>

primrec run_task :: "env \<Rightarrow> JwtPayload option \<Rightarrow> task \<Rightarrow> db \<Rightarrow> db" where
  "run_task E user (UpdateLatestForProject pid) s = updateLatestForProject pid s"
| "run_task E user (RefreshReleaseState pid v) s = refreshReleaseState E pid v s"
| "run_task E user (SendProjectReleasesChangedEvent pid c e) s = sendProjectReleasesChangedEvent user pid c e s"
| "run_task E user (DeleteItemRow i) s = snd (deleteItemRow i s)"
| "run_task E user (OnFileCreate k) s = onFileCreate (Some k) s"
| "run_task E user (OnFileDelete k) s = onFileDelete (Some k) s"
| "run_task E user (MaybeRestoreReleasedStatus c) s = maybeRestoreReleasedStatus c s"
| "run_task E user (UpdateUploadFile dto) s = snd (updateUploadFile E dto s)"
| "run_task E user (ProcessAndSaveFile k sha cosign) s = snd (processAndSaveFile E k sha cosign s)"
| "run_task E user (TriggerSbomScanAndSaveScanId k) s = snd (triggerSbomScanAndSaveScanId E k s)"
| "run_task E user (TriggerDockerSbomScan url i) s = snd (triggerDockerSbomScan E url i s)"
| "run_task E user (ImportArtifactsInBackground pid v c arts) s = importArtifactsInBackground E pid v c arts s"

lemma run_task_lifecycle: "lifecycle_task t \<Longrightarrow> run_task E user t = run_lifecycle_task E user t"
  by (cases t) auto

fun run_tasks :: "nat \<Rightarrow> env \<Rightarrow> JwtPayload option \<Rightarrow> db \<Rightarrow> db" where
  "run_tasks 0 E user s = s"
| "run_tasks (Suc n) E user s =
     (case tasks s of [] \<Rightarrow> s | t # _ \<Rightarrow> run_tasks n E user (run_task E user t (take_task t s)))"

section \<open>A release that is ready is released\<close>

text \<open>
  Ready for good: the regulations are complied with, the installation files are uploaded and
  none of them is missing from the bucket.
\<close>

definition steadily_ready :: "env \<Rightarrow> db \<Rightarrow> ReleaseEntity \<Rightarrow> bool" where
  "steadily_ready E s r \<longleftrightarrow>
     regulations_compliant s (rel_project r) (rel_version r) \<and> files_ready s (rel_catalogId r) \<and>
     \<not> file_missing E s (rel_catalogId r)"

lemma file_missing_other: "file_missing E (with_checked_files E d s) c = file_missing E s c"
proof -
  have ids: "checked_ids (with_checked_files E d s) c = checked_ids s c"
    by (simp add: checked_ids_def file_ids_with_checked)
  have m: "missing_ids E is (with_checked_files E d s) g = missing_ids E is s g" for "is" g
    by (simp add: missing_ids_def with_checked_files_def)
  have "missing_ids E is s (mark_removed g) = missing_ids E is s g" for "is" g
    by (simp add: missing_ids_def in_bucket_def bucket_of_def)
  then have "list_ex (missing_ids E is s) (update_where P mark_removed rows) = list_ex (missing_ids E is s) rows" for "is" P rows
    by (induction rows) auto
  then show ?thesis unfolding file_missing_def ids m [abs_def] by (simp add: with_checked_files_def)
qed

lemma with_checked_none: "\<not> file_missing E s c \<Longrightarrow> with_checked_files E c s = s"
proof -
  assume "\<not> file_missing E s c"
  then have "update_where (\<lambda>g. missing_ids E (checked_ids s c) s g \<and> fu_status g \<noteq> FileUPloadStatusEnum.REMOVED)
      mark_removed (uploads s) = uploads s"
    by (intro update_where_none) (auto simp: file_missing_def list_ex_iff)
  then show ?thesis by (simp add: with_checked_files_def update_uploads_def)
qed

lemma file_missing_cong:
  "artifacts s' = artifacts s \<Longrightarrow> uploads s' = uploads s \<Longrightarrow> bucket s' = bucket s \<Longrightarrow>
   file_missing E s' c = file_missing E s c"
proof -
  assume a: "artifacts s' = artifacts s" "uploads s' = uploads s" "bucket s' = bucket s"
  have "artifact_upload s' = artifact_upload s" unfolding artifact_upload_def upload_by_id_def a ..
  then have "checked_ids s' c = checked_ids s c"
    unfolding checked_ids_def file_ids_def installation_artifacts_def artifacts_of_def a by simp
  then show ?thesis unfolding file_missing_def missing_ids_def [abs_def] in_bucket_def a by simp
qed

lemma steadily_ready_map:
  assumes g: "keeps_identity g" "releases s' = map g (releases s)" "same_context s' s"
    and f: "files_ready s' (rel_catalogId r) = files_ready s (rel_catalogId r)"
      "file_missing E s' (rel_catalogId r) = file_missing E s (rel_catalogId r)"
    and r: "steadily_ready E s r" "rel_catalogId r' = rel_catalogId r" "rel_project r' = rel_project r"
      "rel_version r' = rel_version r"
  shows "steadily_ready E s' r'"
proof -
  have "regulations_compliant s' pid v = regulations_compliant s pid v" for pid v
    using statuses_map [OF g, of pid v] g(3)
    by (simp add: regulations_compliant_def project_regulations_def same_context_def)
  then show ?thesis using r f by (simp add: steadily_ready_def)
qed

definition on_the_way :: "env \<Rightarrow> db \<Rightarrow> nat \<Rightarrow> string \<Rightarrow> bool" where
  "on_the_way E s pid v \<longleftrightarrow>
     (\<exists>r. find_release s pid v = Some r \<and> rel_status r \<in> {IN_REVIEW, RELEASED} \<and> steadily_ready E s r)"

lemma on_the_way_map:
  assumes r: "find_release s pid v = Some r" "rel_status r \<in> {IN_REVIEW, RELEASED}" "steadily_ready E s r"
    and g: "keeps_identity g" "releases s' = map g (releases s)" "same_context s' s"
    and st: "rel_status (g r) \<in> {IN_REVIEW, RELEASED}"
    and f: "files_ready s' (rel_catalogId r) = files_ready s (rel_catalogId r)"
      "file_missing E s' (rel_catalogId r) = file_missing E s (rel_catalogId r)"
  shows "on_the_way E s' pid v"
proof -
  have "steadily_ready E s' (g r)"
    by (rule steadily_ready_map [OF g f r(3)]) (use g(1) in \<open>simp_all add: keeps_identity_def\<close>)
  then show ?thesis using find_release_rewritten [OF g(1,2), of pid v] r(1) st by (simp add: on_the_way_def)
qed

lemma bucket_with_checked [simp]: "bucket (with_checked_files E c s) = bucket s"
  by (simp add: with_checked_files_def)

lemma on_the_way_run:
  assumes ok: "lifecycle_ok s" and t: "lifecycle_task t" and w: "on_the_way E s pid v"
  shows "on_the_way E (run_lifecycle_task E user t s) pid v"
proof -
  obtain r where r: "find_release s pid v = Some r" "rel_status r \<in> {IN_REVIEW, RELEASED}" "steadily_ready E s r"
    using w by (auto simp: on_the_way_def)
  note on = on_the_way_map [OF r]
  show ?thesis
  proof (cases t)
    case (UpdateLatestForProject q)
    let ?g = "\<lambda>r. if rel_project r = q
      then r\<lparr>rel_latest := (Some (rel_catalogId r) = map_option rel_catalogId (top_released q s))\<rparr> else r"
    have s': "run_lifecycle_task E user t s = update_releases (\<lambda>r. rel_project r = q)
       (\<lambda>r. r\<lparr>rel_latest := (Some (rel_catalogId r) = map_option rel_catalogId (top_released q s))\<rparr>) s"
      by (simp add: UpdateLatestForProject updateLatestForProject_def Let_def)
    have "files_ready (run_lifecycle_task E user t s) c = files_ready s c"
      "file_missing E (run_lifecycle_task E user t s) c = file_missing E s c" for c
      unfolding s' by (rule files_ready_cong file_missing_cong; simp)+
    then show ?thesis
      by (intro on [where g = ?g]) (use r(2) in \<open>auto simp: s' keeps_identity_def same_context_def update_where_def\<close>)
  next
    case (RefreshReleaseState q w)
    show ?thesis
    proof (cases "find_release s q w")
      case None
      then show ?thesis using w RefreshReleaseState by (simp add: refreshReleaseState_def)
    next
      case (Some x)
      show ?thesis
      proof (cases "rel_status x = ReleaseStatusEnum.ERROR \<or> rel_status x = ARCHIVED")
        case True
        then have "run_lifecycle_task E user t s = s" using Some RefreshReleaseState by (auto simp: refreshReleaseState_def)
        then show ?thesis using w by simp
      next
        case False
        let ?c = "rel_catalogId x"
        let ?g = "\<lambda>y. if y = x then refreshed_row E s x else y"
        have ok': "schema_ok s" "uploads_owned s" using ok by (simp_all add: lifecycle_ok_def)
        have s': "run_lifecycle_task E user t s =
            add_tasks (refresh_tasks E s x) ((with_checked_files E ?c s)\<lparr>releases := map ?g (releases s)\<rparr>)"
          using refresh_eq [OF ok'(1) Some] False RefreshReleaseState by auto
        have ready: "files_ready (with_checked_files E ?c s) (rel_catalogId r) = files_ready s (rel_catalogId r)"
        proof (cases "rel_catalogId r = ?c")
          case True
          then show ?thesis using with_checked_none [of E s ?c] r(3) by (simp add: steadily_ready_def)
        next
          case False
          then show ?thesis by (rule files_ready_other [OF ok'(2)])
        qed
        have st: "rel_status (?g r) \<in> {IN_REVIEW, RELEASED}"
        proof (cases "r = x")
          case True
          then have "release_ready (with_checked_files E ?c s) x" and "\<not> file_missing E s ?c"
            using r(3) with_checked_none [of E s ?c] by (auto simp: steadily_ready_def release_ready_def)
          then show ?thesis using r(2) True by (auto simp: rel_status_refreshed_row target_status_def)
        qed (use r(2) in simp)
        have fm: "file_missing E (run_lifecycle_task E user t s) (rel_catalogId r) = file_missing E s (rel_catalogId r)"
          using file_missing_cong [of "run_lifecycle_task E user t s" "with_checked_files E ?c s" E "rel_catalogId r"]
            file_missing_other [of E ?c s "rel_catalogId r"] s' by simp
        have fr: "files_ready (run_lifecycle_task E user t s) (rel_catalogId r) = files_ready s (rel_catalogId r)"
          using files_ready_cong [of "run_lifecycle_task E user t s" "with_checked_files E ?c s" "rel_catalogId r"] ready s'
          by simp
        show ?thesis
          by (rule on [where g = ?g, OF _ _ _ st fr fm])
            (simp_all add: s' keeps_identity_def same_context_def with_checked_files_def)
      qed
    qed
  next
    case (SendProjectReleasesChangedEvent q c e)
    let ?s' = "run_lifecycle_task E user t s"
    have same: "releases ?s' = releases s" "same_context ?s' s" "uploads ?s' = uploads s" "bucket ?s' = bucket s"
      by (simp_all add: SendProjectReleasesChangedEvent sendProjectReleasesChangedEvent_def Let_def same_context_def
          split: option.splits)
    have "files_ready ?s' c = files_ready s c" "file_missing E ?s' c = file_missing E s c" for c
      by (rule files_ready_cong file_missing_cong; use same in \<open>simp add: same_context_def\<close>)+
    then show ?thesis by (intro on [where g = "\<lambda>r. r"]) (use r(2) same in \<open>auto simp: keeps_identity_def\<close>)
  qed (use t in auto)
qed

lemma on_the_way_take [simp]: "on_the_way E (take_task t s) pid v = on_the_way E s pid v"
proof -
  have "steadily_ready E (take_task t s) r = steadily_ready E s r" for r
  proof -
    have 1: "releases (take_task t s) = map (\<lambda>r. r) (releases s)" "keeps_identity (\<lambda>r. r)" by (simp_all add: keeps_identity_def)
    have "regulations_compliant (take_task t s) p w = regulations_compliant s p w" for p w
      using statuses_map [OF 1(2,1) take_task_simps(6), of p w]
      by (simp add: regulations_compliant_def project_regulations_def take_task_def)
    moreover have "files_ready (take_task t s) c = files_ready s c" for c by (rule files_ready_cong) simp_all
    moreover have "file_missing E (take_task t s) c = file_missing E s c" for c
      by (rule file_missing_cong) (simp_all add: take_task_def)
    ultimately show ?thesis by (simp add: steadily_ready_def)
  qed
  then show ?thesis by (simp add: on_the_way_def)
qed

lemma on_the_way_steps:
  assumes "(lifecycle_step E user)\<^sup>*\<^sup>* s s'" "lifecycle_ok s" "on_the_way E s pid v"
  shows "lifecycle_ok s' \<and> on_the_way E s' pid v"
  using assms(1)
proof (induction rule: rtranclp_induct)
  case (step y z)
  then obtain t where t: "lifecycle_task t" "z = run_lifecycle_task E user t (take_task t y)"
    by (blast elim: lifecycle_stepE)
  then have "on_the_way E z pid v" using on_the_way_run [of "take_task t y" t] step.IH by simp
  then show ?case using step_ok [OF step.hyps(2)] step.IH by blast
qed (use assms in simp)

text \<open>
  C18. A release under review that has become ready gets released, whichever order the pending
  calls run in: when its regulations are complied with and its files are uploaded and in the
  bucket, the pending calls come to an end, and in every state they end in the release is
  \<open>RELEASED\<close>. (As for the consistency of the end state, every release that is not consistent has
  a pending refresh, dependencies are acyclic and no upload belongs to two releases.)
\<close>

theorem ready_release_gets_released:
  assumes ok: "lifecycle_ok s" and cov: "covered (set (tasks s)) s"
    and r: "find_release s pid v = Some r" "rel_status r = IN_REVIEW" "steadily_ready E s r"
  shows "(\<exists>s'. (lifecycle_step E user)\<^sup>*\<^sup>* s s' \<and> quiescent s') \<and>
     (\<forall>s'. (lifecycle_step E user)\<^sup>*\<^sup>* s s' \<and> quiescent s' \<longrightarrow>
        map_option rel_status (find_release s' pid v) = Some RELEASED)"
proof (intro conjI allI impI)
  show "\<exists>s'. (lifecycle_step E user)\<^sup>*\<^sup>* s s' \<and> quiescent s'" by (rule reaches_quiescence [OF ok])
  fix s' assume s': "(lifecycle_step E user)\<^sup>*\<^sup>* s s' \<and> quiescent s'"
  have "on_the_way E s pid v" using r by (simp add: on_the_way_def)
  then obtain r' where r': "find_release s' pid v = Some r'" "rel_status r' \<in> {IN_REVIEW, RELEASED}" "steadily_ready E s' r'"
    using on_the_way_steps s' ok by (fastforce simp: on_the_way_def)
  have "consistent s' r'" using quiescent_consistent [OF ok cov] s' find_release_SomeD [OF r'(1)] by blast
  then show "map_option rel_status (find_release s' pid v) = Some RELEASED"
    using r' by (auto simp: consistent_def steadily_ready_def release_ready_def)
qed

text \<open>
  A release that waits for its file, and everything that follows when the bucket reports it: the
  upload, the digest, the refresh of the release and of the one that depends on it.
\<close>

definition demo_waiting :: db where
  "demo_waiting = empty_db\<lparr>
     releases := [demo_release ''a'' ''1'' IN_REVIEW, (demo_release ''b'' ''2'' IN_REVIEW)\<lparr>rel_sortOrder := 2\<rparr>],
     release_dependencies := [(''b'', ''a'')],
     artifacts := [demo_artifact 1 FILE ''a'' (Some 2)],
     uploads := [demo_file 2 ''k'' FileUPloadStatusEnum.PENDING],
     bucket := putObject empty_store ''main'' ''k'' \<lparr>obj_content = ''x'', obj_contentType = None, obj_lastModified = 0\<rparr>\<rparr>"

definition demo_arrived :: db where
  "demo_arrived = snd (handle_notification demo_env \<lparr>nt_eventName = ''s3:ObjectCreated:Put'', nt_key = ''k'',
     nt_size = Some 1, nt_contentType = None, nt_eventTime = Some 3\<rparr> demo_waiting)"

lemma arrival_releases_both:
  "map rel_status (releases (run_tasks 20 demo_env None demo_arrived)) = [RELEASED, RELEASED] \<and>
   tasks (run_tasks 20 demo_env None demo_arrived) = []"
  by code_simp

lemma ready_release_gets_released_witness:
  "map_option rel_status (find_release (run_first 20 demo_env None (run_tasks 2 demo_env None demo_arrived)) 1 ''1'')
     = Some RELEASED"
proof -
  let ?s = "run_tasks 2 demo_env None demo_arrived"
  have a: "set (release_dependencies ?s) = {(''b'', ''a'')}" by code_simp
  have "acyclic {(''b'', ''a'')}" by (rule acyclic_insert [THEN iffD2]) (auto simp: acyclic_def)
  moreover have "schema_ok ?s" "uploads_owned ?s" by code_simp+
  ultimately have ok: "lifecycle_ok ?s" unfolding lifecycle_ok_def a by blast
  have none: "top_released p ?s = None" for p
  proof -
    have "map rel_status (releases ?s) = [IN_REVIEW, IN_REVIEW]" by code_simp
    then have "\<forall>r\<in>set (releases ?s). rel_status r \<noteq> RELEASED" by (auto simp: map_eq_Cons_conv)
    then show ?thesis by (simp add: top_released_None)
  qed
  have "list_all (\<lambda>r. \<not> rel_latest r) (releases ?s)" by code_simp
  then have "latest_ok ?s p" for p unfolding latest_ok_def none by (simp add: list_all_iff)
  moreover have "\<forall>x\<in>set (releases ?s). consistent ?s x \<or> RefreshReleaseState (rel_project x) (rel_version x) \<in> set (tasks ?s)"
    by code_simp
  ultimately have cov: "covered (set (tasks ?s)) ?s" by (simp add: covered_def)
  have r: "find_release ?s 1 ''1'' = Some (hd (releases ?s))" "rel_status (hd (releases ?s)) = IN_REVIEW"
    "steadily_ready demo_env ?s (hd (releases ?s))" by code_simp+
  have q: "quiescent (run_first 20 demo_env None ?s)" by code_simp
  show ?thesis using ready_release_gets_released [OF ok cov r, of None] run_first_steps q by blast
qed

end
