(* ===== verification/Deployment.thy ===== *)
theory Deployment
  imports Release_State
begin

text \<open>
  The deployment report of a release (\<open>getDeploymentReport\<close> of \<open>apps/upload/src/releases.service.ts\<close>,
  \<open>dto/upload/dto/deployment-report.dto.ts\<close>): what the delivery, deploy and offering services
  report about the devices, merged by device. The three services are parameters: functions from
  a catalog id to their answer, which may be an error or nothing.
\<close>

section \<open>What the services report\<close>

datatype DeliveryStatusEnum =
    DeliveryStart | DeliveryDone | DeliveryError | DeliveryCancelled | DeliveryPause
  | DeliveryContinue | DeliveryDownload | DeliveryDeleted

datatype DeployStatusEnum =
    DeployStart | DeployDone | DeployInstalling | DeployContinue | DeployPause | DeployCancelled
  | DeployError | DeployUninstall

text \<open>A device is missing, or given by its id, or an entity, whose id is its primary key.\<close>

datatype device_ref = NoDevice | DeviceId string | DeviceEntity string "string option" "string option"

record delivery_status =
  dl_device :: device_ref
  dl_status :: DeliveryStatusEnum
  dl_downloadDone :: "nat option"

record deploy_status =
  dp_device :: device_ref
  dp_status :: DeployStatusEnum
  dp_deployDone :: "nat option"

record push_device =
  po_deviceId :: "string option"
  po_deviceName :: "string option"

record DeviceDeploymentDetailDto =
  dd_deviceId :: string
  dd_deviceName :: "string option"
  dd_deliveryStatus :: "DeliveryStatusEnum option"
  dd_deployStatus :: "DeployStatusEnum option"
  dd_downloadTime :: "nat option"
  dd_installationTime :: "nat option"

record DeploymentReportDto =
  dr_releaseName :: "string option"
  dr_version :: string
  dr_downloadedCount :: nat
  dr_installedCount :: nat
  dr_total :: nat
  dr_pending :: nat
  dr_deploymentPercentage :: rat
  dr_devices :: "DeviceDeploymentDetailDto list"

fun device_key :: "device_ref \<Rightarrow> string option" where
  "device_key NoDevice = None"
| "device_key (DeviceId i) = Some i"
| "device_key (DeviceEntity i _ _) = Some i"

fun device_name :: "device_ref \<Rightarrow> string option" where
  "device_name (DeviceEntity _ n m) = (if n \<noteq> None \<and> n \<noteq> Some [] then n else m)"
| "device_name _ = None"

definition is_key :: "string option \<Rightarrow> bool" where
  "is_key k \<longleftrightarrow> k \<noteq> None \<and> k \<noteq> Some []"

section \<open>Merging by device\<close>

type_synonym device_map = "(string \<times> DeviceDeploymentDetailDto) list"

definition new_detail :: "string \<Rightarrow> string option \<Rightarrow> DeviceDeploymentDetailDto" where
  "new_detail i n =
     \<lparr>dd_deviceId = i, dd_deviceName = n, dd_deliveryStatus = None, dd_deployStatus = None,
      dd_downloadTime = None, dd_installationTime = None\<rparr>"

definition detail_of :: "device_map \<Rightarrow> string \<Rightarrow> string option \<Rightarrow> DeviceDeploymentDetailDto" where
  "detail_of m i n = (case map_of m i of None \<Rightarrow> new_detail i n | Some d \<Rightarrow> d)"

definition add_delivery :: "delivery_status \<Rightarrow> device_map \<Rightarrow> device_map" where
  "add_delivery d m =
     (let k = device_key (dl_device d) in
      if \<not> is_key k \<or> dl_status d = DeliveryCancelled \<or> dl_status d = DeliveryDeleted then m
      else alist_put (the k)
             ((detail_of m (the k) (device_name (dl_device d)))
                \<lparr>dd_deliveryStatus := Some (dl_status d), dd_downloadTime := dl_downloadDone d\<rparr>) m)"

definition add_deploy :: "deploy_status \<Rightarrow> device_map \<Rightarrow> device_map" where
  "add_deploy d m =
     (let k = device_key (dp_device d); n = device_name (dp_device d) in
      if \<not> is_key k \<or> dp_status d = DeployCancelled \<or> dp_status d = DeployUninstall then m
      else
        let x = detail_of m (the k) n
        in alist_put (the k)
             (x\<lparr>dd_deployStatus := Some (dp_status d), dd_installationTime := dp_deployDone d,
                dd_deviceName := (if \<not> is_key (dd_deviceName x) \<and> is_key n then n else dd_deviceName x)\<rparr>) m)"

definition add_push :: "push_device \<Rightarrow> device_map \<Rightarrow> device_map" where
  "add_push p m =
     (let k = po_deviceId p in
      if \<not> is_key k \<or> map_of m (the k) \<noteq> None then m
      else alist_put (the k) (new_detail (the k) (po_deviceName p)) m)"

definition device_map_of ::
  "delivery_status list \<Rightarrow> deploy_status list \<Rightarrow> push_device list \<Rightarrow> device_map" where
  "device_map_of deliveries deploys pushes =
     fold add_push pushes (fold add_deploy deploys (fold add_delivery deliveries []))"

text \<open>\<open>new Set(...).size\<close> of the devices whose delivery or deployment is done.\<close>

definition downloaded_count :: "delivery_status list \<Rightarrow> nat" where
  "downloaded_count deliveries =
     length (js_unique (map (\<lambda>d. device_key (dl_device d)) (filter (\<lambda>d. dl_status d = DeliveryDone) deliveries)))"

definition installed_count :: "deploy_status list \<Rightarrow> nat" where
  "installed_count deploys =
     length (js_unique (map (\<lambda>d. device_key (dp_device d)) (filter (\<lambda>d. dp_status d = DeployDone) deploys)))"

definition percentage :: "nat \<Rightarrow> nat \<Rightarrow> rat" where
  "percentage installed n =
     (let p = (if 0 < n then of_nat installed / of_nat n * 100 else (0 :: rat))
      in of_int \<lfloor>p * 100 + 1 / 2\<rfloor> / 100)"

definition or_none :: "'a list option result \<Rightarrow> 'a list" where
  "or_none r = (case r of Inr (Some xs) \<Rightarrow> xs | _ \<Rightarrow> [])"

definition getDeploymentReport ::
  "(string \<Rightarrow> delivery_status list option result) \<Rightarrow> (string \<Rightarrow> deploy_status list option result) \<Rightarrow>
   (string \<Rightarrow> push_device list option result) \<Rightarrow> nat \<Rightarrow> string \<Rightarrow> db \<Rightarrow> DeploymentReportDto result" where
  "getDeploymentReport deliveryClient deployClient offeringClient pid v s =
     (case find_release s pid v of
        None \<Rightarrow> Inl NotFoundException
      | Some release \<Rightarrow>
          let c = rel_catalogId release;
              deliveries = or_none (deliveryClient c);
              deploys = or_none (deployClient c);
              m = device_map_of deliveries deploys (or_none (offeringClient c));
              devices = length m
          in Inr \<lparr>dr_releaseName = rel_name release, dr_version = v,
                  dr_downloadedCount = downloaded_count deliveries,
                  dr_installedCount = installed_count deploys, dr_total = devices,
                  dr_pending = length (filter (\<lambda>d. dd_deliveryStatus d \<noteq> Some DeliveryDone) (map snd m)),
                  dr_deploymentPercentage = percentage (installed_count deploys) devices,
                  dr_devices = map snd m\<rparr>)"

section \<open>The numbers fit together\<close>

definition map_ok :: "device_map \<Rightarrow> bool" where
  "map_ok m \<longleftrightarrow> distinct (map fst m)"

lemma map_ok_steps:
  "map_ok m \<Longrightarrow> map_ok (add_delivery d m)" "map_ok m \<Longrightarrow> map_ok (add_deploy e m)" "map_ok m \<Longrightarrow> map_ok (add_push p m)"
  by (simp_all add: map_ok_def add_delivery_def add_deploy_def add_push_def Let_def distinct_alist_put)

lemma fold_invariant: "P m \<Longrightarrow> (\<And>x m. P m \<Longrightarrow> P (f x m)) \<Longrightarrow> P (fold f xs m)"
  by (induction xs arbitrary: m) auto

lemma map_ok_device_map: "map_ok (device_map_of a b c)"
  unfolding device_map_of_def
  by (intro fold_invariant [where P = map_ok and f = add_push] fold_invariant [where P = map_ok and f = add_deploy]
      fold_invariant [where P = map_ok and f = add_delivery] map_ok_steps) (simp_all add: map_ok_def)

definition keys_of :: "device_map \<Rightarrow> string set" where
  "keys_of m = set (map fst m)"

lemma keys_of_put [simp]: "keys_of (alist_put k v m) = insert k (keys_of m)"
  unfolding keys_of_def by (rule keys_alist_put)

lemma keys_steps:
  "keys_of m \<subseteq> keys_of (add_delivery d m)" "keys_of m \<subseteq> keys_of (add_deploy e m)" "keys_of m \<subseteq> keys_of (add_push p m)"
proof -
  have put: "keys_of m \<subseteq> keys_of (if c then m else alist_put k x m)" for c k x by (simp add: subset_insertI)
  show "keys_of m \<subseteq> keys_of (add_delivery d m)" unfolding add_delivery_def Let_def by (rule put)
  show "keys_of m \<subseteq> keys_of (add_deploy e m)" unfolding add_deploy_def Let_def by (rule put)
  show "keys_of m \<subseteq> keys_of (add_push p m)" unfolding add_push_def Let_def by (rule put)
qed

lemma fold_grows: "(\<And>x m. keys_of m \<subseteq> keys_of (f x m)) \<Longrightarrow> keys_of m \<subseteq> keys_of (fold f xs m)"
proof (induction xs arbitrary: m)
  case (Cons x xs)
  have "keys_of (f x m) \<subseteq> keys_of (fold f xs (f x m))" by (rule Cons.IH [OF Cons.prems])
  then show ?case using Cons.prems [of m x] by simp
qed simp

lemma fold_reaches:
  assumes grow: "\<And>x m. keys_of m \<subseteq> keys_of (f x m)" and x: "x \<in> set xs" "\<And>m. k \<in> keys_of (f x m)"
  shows "k \<in> keys_of (fold f xs m)"
  using x(1)
proof (induction xs arbitrary: m)
  case (Cons y ys)
  show ?case
  proof (cases "x = y")
    case True
    have "keys_of (f x m) \<subseteq> keys_of (fold f ys (f x m))" by (rule fold_grows [OF grow])
    then show ?thesis using x(2) [of m] True by auto
  next
    case False
    then show ?thesis using Cons.IH [of "f y m"] Cons.prems by simp
  qed
qed simp

lemma installed_in_map:
  assumes "d \<in> set deploys" "dp_status d = DeployDone" "is_key (device_key (dp_device d))"
  shows "the (device_key (dp_device d)) \<in> keys_of (device_map_of a deploys c)"
proof -
  have "the (device_key (dp_device d)) \<in> keys_of (add_deploy d m)" for m
    using assms(2,3) by (simp add: add_deploy_def Let_def)
  then have "the (device_key (dp_device d)) \<in> keys_of (fold add_deploy deploys m)" for m
    by (rule fold_reaches [OF keys_steps(2) assms(1)])
  then show ?thesis unfolding device_map_of_def using fold_grows [where f = add_push, OF keys_steps(3)] by blast
qed

lemma downloaded_in_map:
  assumes "d \<in> set deliveries" "dl_status d = DeliveryDone" "is_key (device_key (dl_device d))"
  shows "the (device_key (dl_device d)) \<in> keys_of (device_map_of deliveries b c)"
proof -
  have "the (device_key (dl_device d)) \<in> keys_of (add_delivery d m)" for m
    using assms(2,3) by (simp add: add_delivery_def Let_def)
  then have "the (device_key (dl_device d)) \<in> keys_of (fold add_delivery deliveries m)" for m
    by (rule fold_reaches [OF keys_steps(1) assms(1)])
  then show ?thesis
    unfolding device_map_of_def
    using fold_grows [where f = add_push, OF keys_steps(3)] fold_grows [where f = add_deploy, OF keys_steps(2)] by blast
qed

lemma count_in_keys:
  assumes "\<And>x. x \<in> set xs \<Longrightarrow> is_key (f x) \<and> the (f x) \<in> keys_of m"
  shows "length (js_unique (map f xs)) \<le> length m"
proof -
  have "y \<in> Some ` keys_of m" if "y \<in> set (map f xs)" for y
  proof -
    obtain x where x: "x \<in> set xs" "y = f x" using \<open>y \<in> set (map f xs)\<close> by (metis (no_types) imageE list.set_map)
    show ?thesis using assms [OF x(1)] x(2) by (cases "f x") (simp_all add: is_key_def)
  qed
  then have "set (map f xs) \<subseteq> Some ` keys_of m" by blast
  then have "card (set (map f xs)) \<le> card (Some ` keys_of m)" by (intro card_mono) (simp_all add: keys_of_def)
  also have "\<dots> \<le> card (keys_of m)" by (rule card_image_le) (simp add: keys_of_def)
  also have "\<dots> \<le> length m" using card_length [of "map fst m"] by (simp add: keys_of_def)
  finally show ?thesis by (simp add: length_js_unique)
qed

text \<open>A device that the map shows as downloaded was reported so.\<close>

lemma done_reported:
  assumes "x \<in> set (device_map_of deliveries b c)" "dd_deliveryStatus (snd x) = Some DeliveryDone"
  shows "Some (fst x) \<in> device_key ` dl_device ` {d \<in> set deliveries. dl_status d = DeliveryDone}"
proof -
  let ?S = "device_key ` dl_device ` {d \<in> set deliveries. dl_status d = DeliveryDone}"
  define I where "I m \<longleftrightarrow> (\<forall>x\<in>set m. dd_deliveryStatus (snd x) = Some DeliveryDone \<longrightarrow> Some (fst x) \<in> ?S)" for m :: device_map
  have old: "dd_deliveryStatus (detail_of m k n) = Some DeliveryDone \<Longrightarrow> I m \<Longrightarrow> Some k \<in> ?S" for m k n
    by (auto simp: detail_of_def new_detail_def I_def split: option.splits dest!: map_of_SomeD)
  have del: "I (add_delivery d m)" if "I m" "d \<in> set deliveries" for d m
  proof (cases "\<not> is_key (device_key (dl_device d)) \<or> dl_status d = DeliveryCancelled \<or> dl_status d = DeliveryDeleted")
    case False
    then have k: "device_key (dl_device d) = Some (the (device_key (dl_device d)))" by (auto simp: is_key_def)
    show ?thesis
      unfolding I_def
    proof (intro ballI impI)
      fix x assume x: "x \<in> set (add_delivery d m)" "dd_deliveryStatus (snd x) = Some DeliveryDone"
      then consider "x \<in> set m" | "fst x = the (device_key (dl_device d))" "dl_status d = DeliveryDone"
        using False by (auto simp: add_delivery_def Let_def dest!: set_alist_put)
      then show "Some (fst x) \<in> ?S"
      proof cases
        case 1
        then show ?thesis using x(2) that(1) by (simp add: I_def)
      next
        case 2
        then show ?thesis using that(2) k by (intro image_eqI [of _ _ "dl_device d"] imageI) simp_all
      qed
    qed
  qed (use that in \<open>simp add: add_delivery_def Let_def\<close>)
  have dep: "I (add_deploy d m)" if "I m" for d m
    using that old [of m] by (auto simp: I_def add_deploy_def Let_def is_key_def dest!: set_alist_put split: if_splits)
  have pus: "I (add_push d m)" if "I m" for d m
    using that by (auto simp: I_def add_push_def Let_def new_detail_def dest!: set_alist_put split: if_splits)
  have "I (fold add_delivery ds m)" if "set ds \<subseteq> set deliveries" "I m" for ds m
    using that by (induction ds arbitrary: m) (auto intro: del)
  moreover have "I []" by (simp add: I_def)
  ultimately have "I (device_map_of deliveries b c)"
    unfolding device_map_of_def
    by (intro fold_invariant [where P = I and f = add_push] fold_invariant [where P = I and f = add_deploy] pus dep)
      simp_all
  then show ?thesis using assms by (auto simp: I_def)
qed

lemma percentage_bounds: "i \<le> n \<Longrightarrow> 0 \<le> percentage i n \<and> percentage i n \<le> 100"
proof
  assume "i \<le> n"
  define p where "p = (if 0 < n then of_nat i / of_nat n * 100 else (0 :: rat))"
  have p: "0 \<le> p" "p \<le> 100" using \<open>i \<le> n\<close> by (auto simp: p_def divide_simps)
  have eq: "percentage i n = of_int \<lfloor>p * 100 + 1 / 2\<rfloor> / 100" by (simp add: percentage_def p_def Let_def)
  have "0 \<le> \<lfloor>p * 100 + 1 / 2\<rfloor>" using p(1) by simp
  then show "0 \<le> percentage i n" unfolding eq by simp
  have "p * 100 + 1 / 2 < 10001" using p(2) by simp
  then have "\<lfloor>p * 100 + 1 / 2\<rfloor> < 10001" by (simp add: floor_less_iff)
  then have "\<lfloor>p * 100 + 1 / 2\<rfloor> \<le> 10000" by simp
  then have "(of_int \<lfloor>p * 100 + 1 / 2\<rfloor> :: rat) \<le> of_int 10000" by (simp only: of_int_le_iff)
  then show "percentage i n \<le> 100" unfolding eq by simp
qed

text \<open>
  C21. The numbers of a report fit together when the services name the device of every record that
  is done: one entry per device, no more devices downloaded or installed than there are entries,
  every entry that is not pending counted as downloaded, and a percentage from 0 to 100.
\<close>

theorem report_bounds:
  assumes rep: "getDeploymentReport dl dp po pid v s = Inr rep" and r: "find_release s pid v = Some r"
    and named: "list_all (\<lambda>d. dl_status d = DeliveryDone \<longrightarrow> is_key (device_key (dl_device d))) (or_none (dl (rel_catalogId r)))"
      "list_all (\<lambda>d. dp_status d = DeployDone \<longrightarrow> is_key (device_key (dp_device d))) (or_none (dp (rel_catalogId r)))"
  shows "dr_total rep = length (dr_devices rep) \<and> dr_pending rep \<le> dr_total rep \<and>
     dr_downloadedCount rep \<le> dr_total rep \<and> dr_installedCount rep \<le> dr_total rep \<and>
     dr_total rep - dr_pending rep \<le> dr_downloadedCount rep \<and>
     0 \<le> dr_deploymentPercentage rep \<and> dr_deploymentPercentage rep \<le> 100"
proof -
  let ?c = "rel_catalogId r"
  let ?dl = "or_none (dl ?c)" and ?dp = "or_none (dp ?c)"
  define m where "m = device_map_of ?dl ?dp (or_none (po ?c))"
  have rep': "dr_total rep = length m" "dr_devices rep = map snd m"
    "dr_downloadedCount rep = downloaded_count ?dl" "dr_installedCount rep = installed_count ?dp"
    "dr_pending rep = length (filter (\<lambda>d. dd_deliveryStatus d \<noteq> Some DeliveryDone) (map snd m))"
    "dr_deploymentPercentage rep = percentage (installed_count ?dp) (length m)"
    using rep r by (auto simp: getDeploymentReport_def Let_def m_def)
  have dl: "downloaded_count ?dl \<le> length m"
    unfolding downloaded_count_def m_def
    by (rule count_in_keys) (use named(1) downloaded_in_map in \<open>auto simp: list_all_iff\<close>)
  have dp: "installed_count ?dp \<le> length m"
    unfolding installed_count_def m_def
    by (rule count_in_keys) (use named(2) installed_in_map in \<open>auto simp: list_all_iff\<close>)
  let ?done = "filter (\<lambda>x. dd_deliveryStatus (snd x) = Some DeliveryDone) m"
  have "length m = length ?done + length (filter (\<lambda>x. dd_deliveryStatus (snd x) \<noteq> Some DeliveryDone) m)"
    using sum_length_filter_compl [of "\<lambda>x. dd_deliveryStatus (snd x) = Some DeliveryDone" m] by simp
  then have pend: "dr_total rep - dr_pending rep = length ?done" "dr_pending rep \<le> dr_total rep"
    unfolding rep' by (simp_all add: filter_map comp_def)
  have "distinct (map (Some \<circ> fst) ?done)"
    using map_ok_device_map [of ?dl ?dp "or_none (po ?c)"]
    by (auto simp: map_ok_def m_def distinct_map distinct_filter inj_on_def)
  then have "length ?done = card (set (map (Some \<circ> fst) ?done))" using distinct_card by fastforce
  also have "\<dots> \<le> card (set (map (\<lambda>d. device_key (dl_device d)) (filter (\<lambda>d. dl_status d = DeliveryDone) ?dl)))"
    by (rule card_mono) (use done_reported in \<open>fastforce simp: m_def\<close>)+
  finally have "length ?done \<le> downloaded_count ?dl" by (simp add: downloaded_count_def length_js_unique)
  then show ?thesis using pend dl dp percentage_bounds [OF dp] unfolding rep'(3,4,6) by (simp add: rep'(1,2))
qed

definition demo_delivery :: "device_ref \<Rightarrow> DeliveryStatusEnum \<Rightarrow> delivery_status" where
  "demo_delivery d st = \<lparr>dl_device = d, dl_status = st, dl_downloadDone = None\<rparr>"

definition demo_deploy :: "device_ref \<Rightarrow> DeployStatusEnum \<Rightarrow> deploy_status" where
  "demo_deploy d st = \<lparr>dp_device = d, dp_status = st, dp_deployDone = None\<rparr>"

definition demo_report :: "deploy_status list \<Rightarrow> DeploymentReportDto result" where
  "demo_report deploys =
     getDeploymentReport
       (\<lambda>c. Inr (Some [demo_delivery (DeviceId ''x'') DeliveryDone, demo_delivery (DeviceEntity ''y'' None None) DeliveryPause]))
       (\<lambda>c. Inr (Some deploys)) (\<lambda>c. Inl ErrorException) 1 ''1''
       (empty_db\<lparr>releases := [demo_release ''a'' ''1'' RELEASED]\<rparr>)"

lemma report_bounds_witness:
  "map_sum id (\<lambda>r. (dr_total r, dr_pending r, dr_deploymentPercentage r)) (demo_report [demo_deploy (DeviceId ''x'') DeployDone])
     = Inr (2, 1, 50) \<and>
   (\<exists>rep. demo_report [demo_deploy (DeviceId ''x'') DeployDone] = Inr rep \<and> dr_deploymentPercentage rep \<le> 100)"
proof
  show v: "map_sum id (\<lambda>r. (dr_total r, dr_pending r, dr_deploymentPercentage r)) (demo_report [demo_deploy (DeviceId ''x'') DeployDone])
     = Inr (2, 1, 50)" by code_simp
  then obtain rep where rep: "demo_report [demo_deploy (DeviceId ''x'') DeployDone] = Inr rep"
    by (cases "demo_report [demo_deploy (DeviceId ''x'') DeployDone]") auto
  have "find_release (empty_db\<lparr>releases := [demo_release ''a'' ''1'' RELEASED]\<rparr>) 1 ''1'' = Some (demo_release ''a'' ''1'' RELEASED)"
    by code_simp
  from report_bounds [OF rep [unfolded demo_report_def] this] rep
  show "\<exists>rep. demo_report [demo_deploy (DeviceId ''x'') DeployDone] = Inr rep \<and> dr_deploymentPercentage rep \<le> 100"
    by (simp add: or_none_def demo_delivery_def demo_deploy_def is_key_def)
qed

text \<open>A deployment whose device is not named counts as installed but is no entry.\<close>

lemma unnamed_device_exceeds:
  "map_sum id dr_deploymentPercentage (getDeploymentReport (\<lambda>c. Inr None)
     (\<lambda>c. Inr (Some [demo_deploy NoDevice DeployDone, demo_deploy (DeviceId ''x'') DeployDone])) (\<lambda>c. Inr None)
     1 ''1'' (empty_db\<lparr>releases := [demo_release ''a'' ''1'' RELEASED]\<rparr>)) = Inr 200"
  by code_simp

end
