(* ===== verification/Rule_Evaluation.thy ===== *)
theory Rule_Evaluation
  imports Js_Values
begin

text \<open>
  Evaluation of a rule against what a device reports (\<open>libs/common/src/rules/services/rule-evaluation.service.ts\<close>).
  The rule engine is a third-party package that looks fields up by a flat key, so the context is
  flattened first, and conditions on fields that hold a list are spread into one condition per
  element. The engine is a parameter. The order of the keys of a JavaScript object (integer-like
  keys come first) does not show in any result and is that of insertion here; a \<open>$\<close> inside a
  field path, which \<open>String.replace\<close> would read as a pattern, is not modelled.
\<close>

section \<open>Lower case\<close>

definition to_lower_char :: "char \<Rightarrow> char" where
  "to_lower_char c = (if 65 \<le> (of_char c :: nat) \<and> (of_char c :: nat) \<le> 90 then char_of ((of_char c :: nat) + 32) else c)"

definition to_lower :: "string \<Rightarrow> string" where
  "to_lower s = map to_lower_char s"

section \<open>Flattening the context\<close>

definition flat_key :: "string \<Rightarrow> string \<Rightarrow> string" where
  "flat_key prefix k = (if prefix \<noteq> [] then prefix @ ''.'' @ k else k)"

fun flattenContext :: "obj \<Rightarrow> string \<Rightarrow> obj \<Rightarrow> obj" where
  "flattenContext [] prefix result = result"
| "flattenContext ((k, JObj o1) # kvs) prefix result =
     flattenContext kvs prefix (flattenContext o1 (flat_key prefix k) result)"
| "flattenContext ((k, v) # kvs) prefix result = flattenContext kvs prefix (alist_put (flat_key prefix k) v result)"

text \<open>A string with commas is a list when it has more than one non-empty part.\<close>

definition comma_parts :: "string \<Rightarrow> string list" where
  "comma_parts s = filter (\<lambda>p. p \<noteq> []) (map js_trim (split_char (CHR '','') s))"

definition normalize_value :: "json \<Rightarrow> json" where
  "normalize_value v =
     (case v of
        JStr s \<Rightarrow> if CHR '','' \<in> set s \<and> 1 < length (comma_parts s) then JArr (map JStr (comma_parts s)) else v
      | _ \<Rightarrow> v)"

definition normalizeArrayFields :: "obj \<Rightarrow> obj" where
  "normalizeArrayFields flat = map (\<lambda>(k, v). (k, normalize_value v)) flat"

section \<open>Operators\<close>

definition getSpreadConnector :: "string \<Rightarrow> string" where
  "getSpreadConnector operator =
     (if js_trim (to_lower operator) \<in>
         {''in'', ''exists'', ''equals'', ''equal'', ''=='', ''==='', ''contains'', ''contain''}
      then ''or'' else ''and'')"

definition as_array :: "json \<Rightarrow> json" where
  "as_array v = (case v of JArr xs \<Rightarrow> v | _ \<Rightarrow> JArr [v])"

definition adaptOperatorForSpread :: "string \<Rightarrow> json \<Rightarrow> string \<times> json" where
  "adaptOperatorForSpread operator value =
     (let oper = js_trim (to_lower operator) in
      if oper = ''contains'' \<or> oper = ''contain'' then (''in'', as_array value)
      else if oper = ''not contains'' \<or> oper = ''not contain'' \<or> oper = ''notcontains''
      then (''not in'', as_array value)
      else (operator, value))"

definition normalizeFieldName :: "string \<Rightarrow> string" where
  "normalizeFieldName field = (if starts_with ''$.'' field then drop 2 field else field)"

definition indexed_key :: "string \<Rightarrow> nat \<Rightarrow> string" where
  "indexed_key k i = k @ ''_'' @ show_nat i"

text \<open>\<open>field.replace(path, path_i)\<close>: a leading \<open>$.\<close> stays in front.\<close>

definition indexed_field :: "string \<Rightarrow> nat \<Rightarrow> string" where
  "indexed_field field i =
     (if starts_with ''$.'' field then ''$.'' @ indexed_key (drop 2 field) i else indexed_key field i)"

section \<open>Spreading a condition\<close>

text \<open>An operator that is not a string has no \<open>toLowerCase\<close>: a \<open>TypeError\<close>.\<close>

definition spreadCondition :: "obj \<Rightarrow> string \<Rightarrow> json list \<Rightarrow> json result" where
  "spreadCondition condition field values =
     (case obj_get condition ''operator'' of
        JStr operator \<Rightarrow>
          (let (oper, value) = adaptOperatorForSpread operator (obj_get condition ''value'')
           in Inr (JObj [(getSpreadConnector oper,
                JArr (map (\<lambda>i. JObj (alist_put ''value'' value (alist_put ''operator'' (JStr oper)
                       (alist_put ''field'' (JStr (indexed_field field (Suc i))) condition)))) [0..<length values]))]))
      | _ \<Rightarrow> Inl ErrorException)"

type_synonym array_fields = "(string \<times> json list) list"

text \<open>
  A condition that is \<open>null\<close> or \<open>undefined\<close>, or has neither a group nor a field that is a string,
  is a \<open>TypeError\<close>. A group keeps its other keys behind \<open>and\<close> and \<open>or\<close>; an array in the place of
  a group becomes an object of its elements.
\<close>

definition other_keys :: "obj \<Rightarrow> obj" where
  "other_keys o1 = filter (\<lambda>kv. fst kv \<noteq> ''and'' \<and> fst kv \<noteq> ''or'') o1"

definition index_object :: "json list \<Rightarrow> obj" where
  "index_object xs = map (\<lambda>i. (show_nat i, xs ! i)) [0..<length xs]"

definition transform_leaf :: "array_fields \<Rightarrow> json \<Rightarrow> json result" where
  "transform_leaf af c =
     (case js_member c ''field'' of
        JStr field \<Rightarrow>
          (case (map_of af (normalizeFieldName field), c) of
             (Some values, JObj o1) \<Rightarrow> spreadCondition o1 field values
           | _ \<Rightarrow> Inr c)
      | _ \<Rightarrow> Inl ErrorException)"

definition is_group :: "json \<Rightarrow> bool" where
  "is_group c \<longleftrightarrow> js_truthy (js_member c ''and'') \<or> js_truthy (js_member c ''or'')"

lemma size_obj_get: "obj_get o1 k = v \<Longrightarrow> v \<noteq> JUndef \<Longrightarrow> size v < Suc (size_list (size_prod (\<lambda>_. 0) size) o1)"
  by (induction o1) (auto simp: obj_get_def split: if_splits)

lemma size_in_array: "obj_get o1 k = JArr cs \<Longrightarrow> size_list size cs < size_list (size_prod (\<lambda>_. 0) size) o1 + 1"
  using size_obj_get [of o1 k "JArr cs"] by simp

function (sequential) transformConditionGroup :: "array_fields \<Rightarrow> json \<Rightarrow> json result"
  and transform_conditions :: "array_fields \<Rightarrow> json list \<Rightarrow> json list result" where
  "transformConditionGroup af (JObj o1) =
     bind_r (case obj_get o1 ''and'' of
               JArr cs \<Rightarrow> bind_r (transform_conditions af cs) (\<lambda>xs. Inr [(''and'', JArr xs)]) | _ \<Rightarrow> Inr [])
       (\<lambda>a. bind_r (case obj_get o1 ''or'' of
               JArr cs \<Rightarrow> bind_r (transform_conditions af cs) (\<lambda>xs. Inr [(''or'', JArr xs)]) | _ \<Rightarrow> Inr [])
         (\<lambda>b. Inr (JObj (a @ b @ other_keys o1))))"
| "transformConditionGroup af (JArr xs) = Inr (JObj (index_object xs))"
| "transformConditionGroup af g = Inr g"
| "transform_conditions af [] = Inr []"
| "transform_conditions af (c # cs) =
     bind_r (if is_nullish c then Inl ErrorException
             else if is_group c then transformConditionGroup af c else transform_leaf af c)
       (\<lambda>x. bind_r (transform_conditions af cs) (\<lambda>xs. Inr (x # xs)))"
  by pat_completeness auto
termination
  by (relation "measure (case_sum (\<lambda>(af, g). size g) (\<lambda>(af, cs). size_list size cs))")
    (auto dest: size_in_array)

section \<open>Spreading the context and the rule\<close>

definition array_fields_of :: "obj \<Rightarrow> array_fields" where
  "array_fields_of ctx =
     List.map_filter (\<lambda>(k, v). case v of JArr xs \<Rightarrow> if xs \<noteq> [] then Some (k, xs) else None | _ \<Rightarrow> None) ctx"

definition spread_entry :: "string \<times> json \<Rightarrow> obj" where
  "spread_entry kv =
     (case snd kv of
        JArr xs \<Rightarrow> if xs \<noteq> [] then map (\<lambda>i. (indexed_key (fst kv) (Suc i), xs ! i)) [0..<length xs] else [kv]
      | _ \<Rightarrow> [kv])"

definition spread_context :: "obj \<Rightarrow> obj" where
  "spread_context ctx = put_all (concat (map spread_entry ctx)) []"

text \<open>Only a list of conditions is transformed; reading a property of \<open>null\<close> is a \<open>TypeError\<close>.\<close>

definition spread_rule :: "array_fields \<Rightarrow> json \<Rightarrow> json result" where
  "spread_rule af rule =
     (if is_nullish rule then Inl ErrorException
      else (case (rule, js_member rule ''conditions'') of
          (JObj o1, JArr groups) \<Rightarrow>
            bind_r (fold (\<lambda>g r. bind_r r (\<lambda>gs. bind_r (transformConditionGroup af g) (\<lambda>g'. Inr (gs @ [g'])))) groups (Inr []))
              (\<lambda>gs. Inr (JObj (alist_put ''conditions'' (JArr gs) o1)))
        | _ \<Rightarrow> Inr rule))"

definition spreadArrayFields :: "obj \<Rightarrow> json \<Rightarrow> (obj \<times> json) result" where
  "spreadArrayFields flat rule =
     (let ctx = normalizeArrayFields flat; af = array_fields_of ctx in
      if af = [] then Inr (ctx, rule)
      else bind_r (spread_rule af rule) (\<lambda>r. Inr (spread_context ctx, r)))"

text \<open>\<open>result?.isPassed ?? result?.result ?? result?.passed ?? false\<close>.\<close>

definition coalesce :: "json \<Rightarrow> json \<Rightarrow> json" where
  "coalesce a b = (if is_nullish a then b else a)"

definition outcome :: "json \<Rightarrow> json" where
  "outcome r =
     (case r of
        JBool b \<Rightarrow> r
      | _ \<Rightarrow> coalesce (js_member r ''isPassed'') (coalesce (js_member r ''result'')
               (coalesce (js_member r ''passed'') (JBool False))))"

definition evaluateRule :: "(json \<Rightarrow> obj \<Rightarrow> json result) \<Rightarrow> json \<Rightarrow> obj \<Rightarrow> json result" where
  "evaluateRule engine rule ctx =
     bind_r (spreadArrayFields (flattenContext ctx [] []) rule)
       (\<lambda>cr. bind_r (engine (snd cr) (fst cr)) (\<lambda>r. Inr (outcome r)))"

section \<open>Looking up in the spread context\<close>

lemma show_nat_no_underscore: "CHR ''_'' \<notin> set (show_nat n)"
  using show_nat_digits [of n] by (auto simp: is_digit_def)

lemma last_part_unique:
  "a @ d # b = a' @ d # b' \<Longrightarrow> d \<notin> set b \<Longrightarrow> d \<notin> set b' \<Longrightarrow> a = a' \<and> b = b'"
proof (induction a arbitrary: a')
  case Nil
  then show ?case by (cases a') auto
next
  case (Cons x a)
  then show ?case by (cases a') auto
qed

lemma indexed_key_inject: "indexed_key k i = indexed_key k' j \<longleftrightarrow> k = k' \<and> i = j"
  using last_part_unique [of k "CHR ''_''" "show_nat i" k' "show_nat j"]
  by (auto simp: indexed_key_def show_nat_no_underscore)

definition no_clash :: "obj \<Rightarrow> string \<Rightarrow> bool" where
  "no_clash ctx k \<longleftrightarrow> list_all (\<lambda>kv. \<not> starts_with (k @ ''_'') (fst kv)) ctx"

lemma spread_context_element:
  assumes d: "distinct (map fst ctx)" and k: "(k, JArr xs) \<in> set ctx" "i < length xs" and c: "no_clash ctx k"
  shows "map_of (spread_context ctx) (indexed_key k (Suc i)) = Some (xs ! i)"
  unfolding spread_context_def
proof (rule put_all_lookup)
  show "(indexed_key k (Suc i), xs ! i) \<in> set (concat (map spread_entry ctx))"
    using k by (auto simp: spread_entry_def intro!: bexI [of _ "(k, JArr xs)"])
  fix v' assume "(indexed_key k (Suc i), v') \<in> set (concat (map spread_entry ctx))"
  then obtain kv where kv: "kv \<in> set ctx" "(indexed_key k (Suc i), v') \<in> set (spread_entry kv)" by auto
  have "fst kv \<noteq> indexed_key k (Suc i)"
  proof
    assume "fst kv = indexed_key k (Suc i)"
    then have "starts_with (k @ ''_'') (fst kv)"
      using starts_with_append [of "k @ ''_''" "show_nat (Suc i)"] unfolding indexed_key_def by simp
    then show False using c kv(1) by (simp add: no_clash_def list_all_iff)
  qed
  then have ne: "(indexed_key k (Suc i), v') \<noteq> kv" by auto
  obtain ys where ys: "snd kv = JArr ys" "ys \<noteq> []"
    using kv(2) ne by (cases "snd kv") (auto simp: spread_entry_def split: if_splits)
  have "spread_entry kv = map (\<lambda>i. (indexed_key (fst kv) (Suc i), ys ! i)) [0..<length ys]"
    using ys by (simp add: spread_entry_def)
  then obtain j where "indexed_key k (Suc i) = indexed_key (fst kv) (Suc j)" "v' = ys ! j"
    using kv(2) by auto
  with ys(1) have "fst kv = k" "j = i" "v' = ys ! i" "snd kv = JArr ys" by (auto simp: indexed_key_inject)
  moreover have "kv = (k, JArr xs)"
    using d k(1) kv(1) \<open>fst kv = k\<close> by (metis eq_key_imp_eq_value prod.collapse)
  ultimately show "v' = xs ! i" by simp
qed

lemma array_fields_lookup:
  assumes "distinct (map fst ctx)" "(k, JArr xs) \<in> set ctx" "xs \<noteq> []"
  shows "map_of (array_fields_of ctx) k = Some xs"
  using assms
proof (induction ctx)
  case (Cons kv ctx)
  obtain k0 v0 where kv: "kv = (k0, v0)" by fastforce
  show ?case
  proof (cases "k0 = k")
    case True
    then have "v0 = JArr xs" using Cons.prems kv by (auto simp: image_iff)
    then show ?thesis using True Cons.prems(3) kv by (simp add: array_fields_of_def List.map_filter_simps)
  next
    case False
    then have "map_of (array_fields_of ctx) k = Some xs" using Cons kv by auto
    then show ?thesis using False kv
      by (auto simp: array_fields_of_def List.map_filter_simps split: json.splits option.splits)
  qed
qed simp

section \<open>What spreading means\<close>

definition sub_condition :: "obj \<Rightarrow> string \<Rightarrow> json \<Rightarrow> string \<Rightarrow> nat \<Rightarrow> obj" where
  "sub_condition c oper value field i =
     alist_put ''value'' value (alist_put ''operator'' (JStr oper) (alist_put ''field'' (JStr (indexed_field field (Suc i))) c))"

lemma sub_condition_get [simp]:
  "obj_get (sub_condition c oper value field i) ''value'' = value"
  "obj_get (sub_condition c oper value field i) ''operator'' = JStr oper"
  "obj_get (sub_condition c oper value field i) ''field'' = JStr (indexed_field field (Suc i))"
  "is_group (JObj (sub_condition c oper value field i)) = is_group (JObj c)"
  by (simp_all add: sub_condition_def is_group_def)

lemma indexed_field_path [simp]: "indexed_field (''$.'' @ k) i = ''$.'' @ indexed_key k i"
  using starts_with_append [of "''$.''" k] by (simp add: indexed_field_def)

lemma normalizeFieldName_path [simp]: "normalizeFieldName (''$.'' @ k) = k"
  using starts_with_append [of "''$.''" k] by (simp add: normalizeFieldName_def)

lemma transform_array_condition:
  assumes c: "obj_get c ''field'' = JStr (''$.'' @ k)" "obj_get c ''operator'' = JStr operator" "\<not> is_group (JObj c)"
    and af: "map_of af k = Some xs" and ad: "adaptOperatorForSpread operator (obj_get c ''value'') = (oper, value)"
  shows "transform_conditions af [JObj c] =
     Inr [JObj [(getSpreadConnector oper,
        JArr (map (\<lambda>i. JObj (sub_condition c oper value (''$.'' @ k) i)) [0..<length xs]))]]"
  using c(3) normalizeFieldName_path [of k] by (simp add: transform_leaf_def c spreadCondition_def ad af sub_condition_def)

lemma list_index_ex: "list_ex (\<lambda>i. P (xs ! i)) [0..<length xs] = list_ex P xs"
  by (auto simp: list_ex_iff in_set_conv_nth Bex_def)

lemma list_index_all: "list_all (\<lambda>i. P (xs ! i)) [0..<length xs] = list_all P xs"
  by (auto simp: list_all_iff all_set_conv_all_nth)


text \<open>An engine with these four rules, for the worked examples.\<close>

definition demo_leaf :: "obj \<Rightarrow> obj \<Rightarrow> bool" where
  "demo_leaf c t =
     (case (obj_get c ''field'', obj_get c ''value'') of
        (JStr field, JArr vs) \<Rightarrow>
          (let x = obj_get t (normalizeFieldName field) in
           if obj_get c ''operator'' = JStr ''in'' then x \<in> set vs
           else obj_get c ''operator'' = JStr ''not in'' \<and> x \<notin> set vs)
      | _ \<Rightarrow> False)"

lemma size_array_element: "c \<in> set cs \<Longrightarrow> obj_get o1 k = JArr cs \<Longrightarrow> size c < Suc (size_list (size_prod (\<lambda>_. 0) size) o1)"
  using size_in_array [of o1 k cs] size_list_estimation' [of c cs "size c" size] by simp

function (sequential) demo_holds :: "json \<Rightarrow> obj \<Rightarrow> bool" where
  "demo_holds (JObj o1) t =
     (case obj_get o1 ''or'' of
        JArr cs \<Rightarrow> list_ex (\<lambda>c. demo_holds c t) cs
      | _ \<Rightarrow> (case obj_get o1 ''and'' of JArr cs \<Rightarrow> list_all (\<lambda>c. demo_holds c t) cs | _ \<Rightarrow> demo_leaf o1 t))"
| "demo_holds c t = False"
  by pat_completeness auto
termination
  by (relation "measure (\<lambda>(c, t). size c)") (auto intro: size_array_element)

lemma demo_holds_leaf: "\<not> is_group (JObj o1) \<Longrightarrow> demo_holds (JObj o1) t = demo_leaf o1 t"
  by (auto simp: is_group_def split: json.splits)

definition demo_condition :: obj where
  "demo_condition = [(''field'', JStr ''$.device.type''), (''operator'', JStr ''Contains ''), (''value'', JStr ''agent'')]"

definition demo_types :: obj where
  "demo_types = normalizeArrayFields (flattenContext [(''device'', JObj [(''type'', JStr ''tv, agent''), (''os'', JStr ''linux'')])] [] [])"


text \<open>
  Only a list of conditions is rewritten. With the conditions given as one group the field
  \<open>device.type\<close> has left the context, but the rule still asks for it.
\<close>

lemma single_group_not_spread:
  "map_sum id (\<lambda>(t, r). (map fst t, r = JObj [(''conditions'', JObj [(''or'', JArr [JObj demo_condition])])]))
     (spreadArrayFields (flattenContext [(''device'', JObj [(''type'', JStr ''tv, agent'')])] [] [])
        (JObj [(''conditions'', JObj [(''or'', JArr [JObj demo_condition])])]))
   = Inr ([''device.type_1'', ''device.type_2''], True)"
  by code_simp

section \<open>What flattening means\<close>

text \<open>The value at a path of keys, when it is not an object itself.\<close>

fun lookup_path :: "obj \<Rightarrow> string list \<Rightarrow> json option" where
  "lookup_path o1 [] = None"
| "lookup_path o1 (k # ks) =
     (case map_of o1 k of
        None \<Rightarrow> None
      | Some (JObj o2) \<Rightarrow> lookup_path o2 ks
      | Some v \<Rightarrow> if ks = [] then Some v else None)"

definition plain_key :: "string \<Rightarrow> bool" where
  "plain_key k \<longleftrightarrow> k \<noteq> [] \<and> CHR ''.'' \<notin> set k"

fun plain_keys :: "obj \<Rightarrow> bool" where
  "plain_keys [] = True"
| "plain_keys ((k, JObj o1) # kvs) = (plain_key k \<and> k \<notin> set (map fst kvs) \<and> plain_keys o1 \<and> plain_keys kvs)"
| "plain_keys ((k, v) # kvs) = (plain_key k \<and> k \<notin> set (map fst kvs) \<and> plain_keys kvs)"

fun leaves :: "obj \<Rightarrow> (string list \<times> json) list" where
  "leaves [] = []"
| "leaves ((k, JObj o1) # kvs) = map (\<lambda>(q, v). (k # q, v)) (leaves o1) @ leaves kvs"
| "leaves ((k, v) # kvs) = ([k], v) # leaves kvs"

definition flat_leaf :: "string \<Rightarrow> string list \<times> json \<Rightarrow> string \<times> json" where
  "flat_leaf p qv = (foldl flat_key p (fst qv), snd qv)"

lemma flatten_eq_leaves: "flattenContext o1 p r = put_all (map (flat_leaf p) (leaves o1)) r"
proof (induction o1 p r rule: flattenContext.induct)
  case (2 k o1 kvs p r)
  have "flat_leaf p \<circ> (\<lambda>(q, v). (k # q, v)) = flat_leaf (flat_key p k)" by (auto simp: flat_leaf_def)
  then show ?case using 2 by (simp add: put_all_append)
qed (simp_all add: put_all_Cons flat_leaf_def, simp add: put_all_def)

lemma leaves_first: "(q, v) \<in> set (leaves o1) \<Longrightarrow> q \<noteq> [] \<and> hd q \<in> set (map fst o1)"
  by (induction o1 arbitrary: q v rule: leaves.induct) auto

lemma lookup_path_Cons:
  "lookup_path ((k, w) # kvs) (x # q) =
     (if x = k then (case w of JObj o2 \<Rightarrow> lookup_path o2 q | _ \<Rightarrow> if q = [] then Some w else None)
      else lookup_path kvs (x # q))"
  by (simp split: json.split)

lemma leaf_step:
  assumes "\<And>o2. w \<noteq> JObj o2" "leaves ((k, w) # kvs) = ([k], w) # leaves kvs" "k \<notin> set (map fst kvs)"
    and "\<And>q v. ((q, v) \<in> set (leaves kvs)) = (lookup_path kvs q = Some v)"
  shows "((q, v) \<in> set (leaves ((k, w) # kvs))) = (lookup_path ((k, w) # kvs) q = Some v)"
proof (cases q)
  case (Cons x q')
  have "lookup_path ((k, w) # kvs) q = (if x = k then if q' = [] then Some w else None else lookup_path kvs q)"
    unfolding Cons lookup_path_Cons using assms(1) by (simp split: json.split)
  moreover have "(q, v) \<notin> set (leaves kvs)" if "x = k" using leaves_first [of q v kvs] assms(3) that Cons by auto
  ultimately show ?thesis unfolding assms(2) using assms(4) Cons by auto
qed (use leaves_first [of "[]" v kvs] in \<open>auto simp: assms(2)\<close>)

lemma leaves_lookup: "plain_keys o1 \<Longrightarrow> ((q, v) \<in> set (leaves o1)) = (lookup_path o1 q = Some v)"
proof (induction o1 arbitrary: q v rule: leaves.induct)
  case (2 k o1 kvs)
  have no: "(q, v) \<notin> set (leaves kvs)" if "q \<noteq> []" "hd q = k" using leaves_first [of q v kvs] 2(3) that by auto
  show ?case
  proof (cases q)
    case (Cons x q')
    then show ?thesis
      using 2 no unfolding Cons lookup_path_Cons by (cases "x = k") auto
  qed (use leaves_first [of "[]" v kvs] in auto)
next
  case 1
  show ?case by (cases q) simp_all
qed (rule leaf_step; simp)+

lemma foldl_flat_key: "p \<noteq> [] \<Longrightarrow> foldl flat_key p q = join_char (CHR ''.'') (p # q)"
proof (induction q arbitrary: p)
  case (Cons k q)
  have "flat_key p k = p @ ''.'' @ k" using Cons.prems by (simp add: flat_key_def)
  then have "foldl flat_key p (k # q) = join_char (CHR ''.'') ((p @ ''.'' @ k) # q)"
    using Cons.IH [of "p @ ''.'' @ k"] by simp
  then show ?case by (cases q) simp_all
qed simp

lemma flat_path: "q \<noteq> [] \<Longrightarrow> list_all plain_key q \<Longrightarrow> foldl flat_key [] q = join_char (CHR ''.'') q"
  using foldl_flat_key [of "hd q" "tl q"] by (cases q) (auto simp: flat_key_def plain_key_def)

lemma join_char_inject:
  "p \<noteq> [] \<Longrightarrow> q \<noteq> [] \<Longrightarrow> list_all plain_key p \<Longrightarrow> list_all plain_key q \<Longrightarrow>
   join_char (CHR ''.'') p = join_char (CHR ''.'') q \<longleftrightarrow> p = q"
proof -
  assume p: "p \<noteq> []" "list_all plain_key p" and q: "q \<noteq> []" "list_all plain_key q"
  have "split_char (CHR ''.'') (join_char (CHR ''.'') p) = p"
    using p by (intro split_join_char) (simp_all add: plain_key_def list_all_iff)
  moreover have "split_char (CHR ''.'') (join_char (CHR ''.'') q) = q"
    using q by (intro split_join_char) (simp_all add: plain_key_def list_all_iff)
  ultimately show ?thesis by metis
qed

lemma leaves_plain: "plain_keys o1 \<Longrightarrow> (q, v) \<in> set (leaves o1) \<Longrightarrow> list_all plain_key q"
  by (induction o1 arbitrary: q v rule: leaves.induct) auto

text \<open>
  C38. Flattening loses nothing and invents nothing: when the keys of the context and of the objects
  in it are distinct, not empty and without dots, the value under a dotted key is the one at
  the path of keys in the nested context, if that is not an object, and otherwise there is none.
\<close>

theorem flatten_lookup:
  assumes keys: "plain_keys ctx" and q: "q \<noteq> []" "list_all plain_key q"
  shows "map_of (flattenContext ctx [] []) (join_char (CHR ''.'') q) = lookup_path ctx q"
proof (cases "lookup_path ctx q")
  case None
  have "join_char (CHR ''.'') q \<notin> set (map fst (map (flat_leaf []) (leaves ctx)))"
  proof
    assume "join_char (CHR ''.'') q \<in> set (map fst (map (flat_leaf []) (leaves ctx)))"
    then obtain q' v where "(q', v) \<in> set (leaves ctx)" "join_char (CHR ''.'') q = foldl flat_key [] q'"
      by (auto simp: flat_leaf_def)
    moreover from this have "q' \<noteq> []" "list_all plain_key q'" using leaves_first leaves_plain [OF keys] by blast+
    ultimately have "(q, v) \<in> set (leaves ctx)" using flat_path [of q'] join_char_inject [of q q'] q by simp
    then show False using leaves_lookup [OF keys] None by simp
  qed
  then show ?thesis using None unfolding flatten_eq_leaves by (simp add: put_all_none)
next
  case (Some v)
  then have "(q, v) \<in> set (leaves ctx)" using leaves_lookup [OF keys] by simp
  then have 1: "(join_char (CHR ''.'') q, v) \<in> set (map (flat_leaf []) (leaves ctx))"
    using flat_path [OF q] by (auto simp: flat_leaf_def intro!: image_eqI [of _ _ "(q, v)"])
  have 2: "v' = v" if "(join_char (CHR ''.'') q, v') \<in> set (map (flat_leaf []) (leaves ctx))" for v'
  proof -
    from that obtain q' where q': "(q', v') \<in> set (leaves ctx)" "join_char (CHR ''.'') q = foldl flat_key [] q'"
      by (auto simp: flat_leaf_def)
    moreover from this have "q' \<noteq> []" "list_all plain_key q'" using leaves_first leaves_plain [OF keys] by blast+
    ultimately have "q' = q" using flat_path [of q'] join_char_inject [of q q'] q by simp
    then show ?thesis using q'(1) leaves_lookup [OF keys] Some by simp
  qed
  show ?thesis unfolding flatten_eq_leaves using put_all_lookup [OF 1 2] Some by simp
qed

lemma flatten_lookup_witness:
  "map_of (flattenContext [(''device'', JObj [(''os'', JStr ''linux''), (''any'', JBool True)]), (''ip'', JNull)] [] []) ''device.os''
     = Some (JStr ''linux'')"
proof -
  let ?c = "[(''device'', JObj [(''os'', JStr ''linux''), (''any'', JBool True)]), (''ip'', JNull)]"
  have "plain_keys ?c" "[''device'', ''os''] \<noteq> []" "list_all plain_key [''device'', ''os'']"
    by (simp_all add: plain_key_def)
  from flatten_lookup [OF this] show ?thesis by simp
qed

section \<open>Rewriting keeps conditions well-formed\<close>

inductive wf_condition :: "json \<Rightarrow> bool" where
  leaf: "obj_get o1 ''field'' = JStr field \<Longrightarrow> obj_get o1 ''operator'' = JStr operator \<Longrightarrow>
         \<not> is_group (JObj o1) \<Longrightarrow> wf_condition (JObj o1)"
| group: "is_group (JObj o1) \<Longrightarrow>
          obj_get o1 ''and'' = JUndef \<or> obj_get o1 ''and'' = JArr cs \<Longrightarrow> (\<And>c. c \<in> set cs \<Longrightarrow> wf_condition c) \<Longrightarrow>
          obj_get o1 ''or'' = JUndef \<or> obj_get o1 ''or'' = JArr ds \<Longrightarrow> (\<And>d. d \<in> set ds \<Longrightarrow> wf_condition d) \<Longrightarrow>
          wf_condition (JObj o1)"

definition rewrites_well :: "array_fields \<Rightarrow> json \<Rightarrow> bool" where
  "rewrites_well af c \<longleftrightarrow> (\<exists>t. transform_conditions af [c] = Inr [t] \<and> wf_condition t)"

lemma transform_Cons:
  "transform_conditions af (c # cs) = bind_r (transform_conditions af [c]) (\<lambda>ts. bind_r (transform_conditions af cs) (\<lambda>xs. Inr (ts @ xs)))"
  by (auto simp: bind_r_def split: sum.splits)

lemma transform_list:
  "(\<And>c. c \<in> set cs \<Longrightarrow> rewrites_well af c) \<Longrightarrow>
   \<exists>ts. transform_conditions af cs = Inr ts \<and> (\<forall>t\<in>set ts. wf_condition t)"
proof (induction cs)
  case (Cons c cs)
  obtain t where "transform_conditions af [c] = Inr [t]" "wf_condition t"
    using Cons.prems [of c] by (auto simp: rewrites_well_def)
  moreover obtain ts where "transform_conditions af cs = Inr ts" "\<forall>t\<in>set ts. wf_condition t" using Cons by auto
  ultimately show ?case unfolding transform_Cons [of af c cs] by simp
qed simp

lemma wf_spread:
  assumes "\<And>c. c \<in> set cs \<Longrightarrow> wf_condition c" "k = ''and'' \<or> k = ''or''"
  shows "wf_condition (JObj [(k, JArr cs)])"
  using assms(2)
proof
  assume "k = ''and''"
  then show ?thesis by (intro wf_condition.group [where cs = cs and ds = "[]"]) (simp_all add: is_group_def obj_get_def assms(1))
next
  assume "k = ''or''"
  then show ?thesis by (intro wf_condition.group [where cs = "[]" and ds = cs]) (simp_all add: is_group_def obj_get_def assms(1))
qed

lemma obj_get_other_keys: "obj_get (other_keys o1) ''and'' = JUndef" "obj_get (other_keys o1) ''or'' = JUndef"
  by (induction o1) (auto simp: other_keys_def obj_get_def)

lemma obj_get_append: "k \<notin> set (map fst a) \<Longrightarrow> obj_get (a @ b) k = obj_get b k"
  by (induction a) (auto simp: obj_get_def)

lemma part_wf:
  assumes "obj_get o1 k = JUndef \<or> obj_get o1 k = JArr cs" "\<And>c. c \<in> set cs \<Longrightarrow> rewrites_well af c"
  shows "\<exists>a ts. (case obj_get o1 k of JArr cs \<Rightarrow> bind_r (transform_conditions af cs) (\<lambda>xs. Inr [(k, JArr xs)]) | _ \<Rightarrow> Inr []) = Inr a \<and>
     (\<forall>t\<in>set ts. wf_condition t) \<and> (obj_get o1 k = JUndef \<and> a = [] \<or> obj_get o1 k = JArr cs \<and> a = [(k, JArr ts)])"
  using assms transform_list [of cs af] by (elim disjE exE conjE) auto

text \<open>
  C39. Rewriting never fails on well-formed conditions and yields well-formed conditions: leaves
  with a field and an operator, in groups of lists of such conditions, nested to any depth.
\<close>

theorem transform_type_safe:
  "wf_condition c \<Longrightarrow> \<exists>t. transform_conditions af [c] = Inr [t] \<and> wf_condition t"
proof -
  assume "wf_condition c"
  then have "rewrites_well af c"
  proof (induction rule: wf_condition.induct)
    case (leaf o1 field operator)
    show ?case
    proof (cases "map_of af (normalizeFieldName field)")
      case None
      then show ?thesis using leaf wf_condition.leaf [OF leaf] by (simp add: rewrites_well_def transform_leaf_def)
    next
      case (Some vals)
      obtain oper val where ad: "adaptOperatorForSpread operator (obj_get o1 ''value'') = (oper, val)" by fastforce
      let ?cs = "map (\<lambda>i. JObj (sub_condition o1 oper val field i)) [0..<length vals]"
      have "wf_condition (JObj (sub_condition o1 oper val field i))" for i
        by (rule wf_condition.leaf) (simp_all add: leaf)
      then have "wf_condition (JObj [(getSpreadConnector oper, JArr ?cs)])"
        by (intro wf_spread) (auto simp: getSpreadConnector_def)
      then show ?thesis using leaf Some
        by (simp add: rewrites_well_def transform_leaf_def spreadCondition_def ad sub_condition_def)
    qed
  next
    case (group o1 cs ds)
    obtain a ts where a: "(case obj_get o1 ''and'' of JArr cs \<Rightarrow> bind_r (transform_conditions af cs) (\<lambda>xs. Inr [(''and'', JArr xs)]) | _ \<Rightarrow> Inr []) = Inr a"
      "\<forall>t\<in>set ts. wf_condition t" "obj_get o1 ''and'' = JUndef \<and> a = [] \<or> obj_get o1 ''and'' = JArr cs \<and> a = [(''and'', JArr ts)]"
      using part_wf [of o1 "''and''" cs af] group by blast
    obtain b us where b: "(case obj_get o1 ''or'' of JArr cs \<Rightarrow> bind_r (transform_conditions af cs) (\<lambda>xs. Inr [(''or'', JArr xs)]) | _ \<Rightarrow> Inr []) = Inr b"
      "\<forall>t\<in>set us. wf_condition t" "obj_get o1 ''or'' = JUndef \<and> b = [] \<or> obj_get o1 ''or'' = JArr ds \<and> b = [(''or'', JArr us)]"
      using part_wf [of o1 "''or''" ds af] group by blast
    let ?t = "a @ b @ other_keys o1"
    have g: "obj_get ?t ''and'' = (if a = [] then JUndef else JArr ts)" "obj_get ?t ''or'' = (if b = [] then JUndef else JArr us)"
      using a(3) b(3) obj_get_other_keys [of o1] by (auto simp: obj_get_append obj_get_def)
    have "is_group (JObj ?t)" using group(1) a(3) b(3) g by (auto simp: is_group_def)
    then have "wf_condition (JObj ?t)"
      by (rule wf_condition.group [where cs = ts and ds = us]) (use g a(2) b(2) in auto)
    then show ?case using group(1) a(1) b(1) by (simp add: rewrites_well_def)
  qed
  then show ?thesis by (simp add: rewrites_well_def)
qed

lemma transform_type_safe_witness:
  "\<exists>t. transform_conditions (array_fields_of demo_types)
     [JObj [(''or'', JArr [JObj demo_condition, JObj [(''and'', JArr [JObj demo_condition])]])]] = Inr [t] \<and> wf_condition t"
proof -
  have c: "wf_condition (JObj demo_condition)"
    by (rule wf_condition.leaf [of _ "''$.device.type''" "''Contains ''"]) code_simp+
  have "wf_condition (JObj [(''and'', JArr [JObj demo_condition])])" using c by (intro wf_spread) auto
  with c have "wf_condition (JObj [(''or'', JArr [JObj demo_condition, JObj [(''and'', JArr [JObj demo_condition])]])])"
    by (intro wf_spread) auto
  then show ?thesis by (rule transform_type_safe)
qed

end
