(* ===== verification/Rules.thy ===== *)
theory Rules
  imports Rule_Evaluation Releases
begin

text \<open>
  Policies and restrictions (\<open>libs/common/src/rules/services/rule.service.ts\<close>,
  \<open>rule-validation.service.ts\<close>, \<open>apps/upload/src/policy.service.ts\<close>): their validation, their
  associations with releases, device types, devices and operating systems, and what the agents
  and the users are shown. The rule engine's \<open>validate\<close>, \<open>JSON.parse\<close> and the two look-ups of the
  project service are parameters. Rows are listed in the order of their creation.
\<close>

section \<open>State\<close>

record RuleFieldEntity =
  rf_name :: string
  rf_type :: string
  rf_label :: string
  rf_description :: "string option"

record rule_state =
  rs_db :: db
  deviceTypes :: "(nat \<times> string) list"
  devices :: "string list"
  ruleDeviceTypes :: "(string \<times> nat) list"
  ruleDevices :: "(string \<times> string) list"
  ruleOs :: "(string \<times> string) list"
  ruleFields :: "RuleFieldEntity list"

record rule_env =
  JSON_parse :: "string \<Rightarrow> json result"
  engine_validate :: "json \<Rightarrow> bool"
  getUserProjectIds :: "string \<Rightarrow> nat list result"
  getProjectIdsByNames :: "string option list \<Rightarrow> nat list result"

definition update_db :: "(db \<Rightarrow> db) \<Rightarrow> rule_state \<Rightarrow> rule_state" where
  "update_db f s = s\<lparr>rs_db := f (rs_db s)\<rparr>"

section \<open>Validation\<close>

lemma size_object_value [termination_simp]:
  "(k, v) \<in> set o1 \<Longrightarrow> size v < Suc (size_list (size_prod (\<lambda>_. 0) size) o1)"
  by (induction o1) auto

text \<open>The names in the order they are found; the callers only ask which there are.\<close>

fun extractFieldNames :: "json \<Rightarrow> string list" where
  "extractFieldNames (JObj o1) =
     (case obj_get o1 ''field'' of JStr f \<Rightarrow> if f \<noteq> [] then [f] else [] | _ \<Rightarrow> []) @
     concat (map (\<lambda>(k, v). extractFieldNames v) o1)"
| "extractFieldNames (JArr xs) = concat (map extractFieldNames xs)"
| "extractFieldNames _ = []"

definition validateFieldsExist :: "string list \<Rightarrow> rule_state \<Rightarrow> unit result" where
  "validateFieldsExist names s =
     (if filter (\<lambda>n. n \<notin> set (map rf_name (ruleFields s))) names \<noteq> []
      then Inl (AppError RULE_FIELD_NOT_SUPPORTED 400) else Inr ())"

definition parsed_rule :: "rule_env \<Rightarrow> json \<Rightarrow> json result" where
  "parsed_rule V rule = (case rule of JStr text \<Rightarrow> JSON_parse V text | _ \<Rightarrow> Inr rule)"

definition validateRule :: "rule_env \<Rightarrow> json \<Rightarrow> rule_state \<Rightarrow> unit result" where
  "validateRule V rule s =
     (case parsed_rule V rule of
        Inl _ \<Rightarrow> Inl (AppError RULE_VALIDATION_FAILED 400)
      | Inr parsed \<Rightarrow>
          if \<not> engine_validate V parsed then Inl (AppError RULE_VALIDATION_FAILED 400)
          else validateFieldsExist (extractFieldNames parsed) s)"

definition addRuleField :: "RuleFieldEntity \<Rightarrow> rule_state \<Rightarrow> unit result \<times> rule_state" where
  "addRuleField f s =
     (if rf_name f \<in> set (map rf_name (ruleFields s)) then (Inl (AppError RULE_FIELD_ALREADY_EXISTS 409), s)
      else (Inr (), s\<lparr>ruleFields := ruleFields s @ [f]\<rparr>))"

definition removeRuleField :: "string \<Rightarrow> rule_state \<Rightarrow> unit result \<times> rule_state" where
  "removeRuleField n s =
     (if n \<notin> set (map rf_name (ruleFields s)) then (Inl (AppError RULE_FIELD_NOT_FOUND 404), s)
      else (Inr (), s\<lparr>ruleFields := delete_where (\<lambda>f. rf_name f = n) (ruleFields s)\<rparr>))"

record device_field =
  df_name :: string
  df_type :: string
  df_label :: "string option"
  df_description :: "string option"

definition synced_field :: "string \<Rightarrow> device_field \<Rightarrow> RuleFieldEntity" where
  "synced_field deviceId d =
     \<lparr>rf_name = df_name d, rf_type = df_type d,
      rf_label = (if truthy (df_label d) then or_empty (df_label d) else df_name d),
      rf_description = Some (if truthy (df_description d) then or_empty (df_description d)
                             else ''Field reported by device '' @ deviceId)\<rparr>"

definition syncDeviceFields :: "string \<Rightarrow> device_field list \<Rightarrow> rule_state \<Rightarrow> rule_state" where
  "syncDeviceFields deviceId dfs s =
     fold (\<lambda>d s. snd (addRuleField (synced_field deviceId d) s))
       (filter (\<lambda>d. df_name d \<notin> set (map rf_name (ruleFields s))) dfs) s"

section \<open>Associations\<close>

record ReleaseIdentifierDto =
  ri_projectId :: "string option"
  ri_projectName :: "string option"
  ri_version :: string

record RuleAssociationDto =
  as_releases :: "ReleaseIdentifierDto list option"
  as_deviceTypeNames :: "string list option"
  as_osTypes :: "string list option"
  as_deviceIds :: "string list option"

definition named_by_id :: "ReleaseIdentifierDto \<Rightarrow> bool" where
  "named_by_id r = (case ri_projectId r of None \<Rightarrow> False | Some i \<Rightarrow> js_trim i \<noteq> [])"

definition release_request_key :: "ReleaseIdentifierDto \<Rightarrow> string" where
  "release_request_key r =
     (if named_by_id r then ''projectId:'' @ js_trim (or_empty (ri_projectId r))
      else ''projectName:'' @ (case ri_projectName r of None \<Rightarrow> ''undefined'' | Some n \<Rightarrow> n)) @
     ''|version:'' @ ri_version r"

definition unique_requests :: "ReleaseIdentifierDto list \<Rightarrow> ReleaseIdentifierDto list" where
  "unique_requests rs = map snd (fold (\<lambda>r m. alist_put (release_request_key r) r m) rs [])"

text \<open>
  The condition a request becomes: an id that is no number makes the query fail, and a request
  without id and name is refused.
\<close>

definition request_error :: "ReleaseIdentifierDto \<Rightarrow> exn option" where
  "request_error r =
     (if named_by_id r then
        (if js_parseInt (or_empty (ri_projectId r)) = NaN then Some ErrorException else None)
      else if truthy (ri_projectName r) then None else Some BadRequestException)"

definition request_matches :: "db \<Rightarrow> ReleaseIdentifierDto \<Rightarrow> ReleaseEntity \<Rightarrow> bool" where
  "request_matches s q r \<longleftrightarrow>
     rel_version r = ri_version q \<and>
     (if named_by_id q then js_parseInt (or_empty (ri_projectId q)) = Fin (of_nat (rel_project r))
      else map_option pj_name (project_by_id s (rel_project r)) = ri_projectName q)"

definition link_releases :: "string \<Rightarrow> ReleaseEntity list \<Rightarrow> db \<Rightarrow> db" where
  "link_releases rid rs s =
     fold (\<lambda>r s. s\<lparr>ruleReleases := ruleReleases s @ [\<lparr>rr_id = next_id s, rr_rule = rid, rr_release = rel_catalogId r\<rparr>],
                   next_id := Suc (next_id s)\<rparr>) rs s"

definition list_or_none :: "'a list option \<Rightarrow> 'a list" where
  "list_or_none xs = (case xs of None \<Rightarrow> [] | Some ys \<Rightarrow> ys)"

definition associate_releases :: "string \<Rightarrow> RuleAssociationDto \<Rightarrow> rule_state \<Rightarrow> unit result \<times> rule_state" where
  "associate_releases rid a s =
     (let uniq = unique_requests (list_or_none (as_releases a)) in
      if uniq = [] then (Inr (), s)
      else (case List.map_filter request_error uniq of
          e # _ \<Rightarrow> (Inl e, s)
        | [] \<Rightarrow>
            let found = filter (\<lambda>r. list_ex (\<lambda>q. request_matches (rs_db s) q r) uniq) (releases (rs_db s)) in
            if length found \<noteq> length uniq then (Inl BadRequestException, s)
            else (Inr (), update_db (link_releases rid found) s)))"

definition associate_deviceTypes :: "string \<Rightarrow> RuleAssociationDto \<Rightarrow> rule_state \<Rightarrow> unit result \<times> rule_state" where
  "associate_deviceTypes rid a s =
     (let uniq = js_unique (list_or_none (as_deviceTypeNames a));
          found = filter (\<lambda>t. snd t \<in> set uniq) (deviceTypes s)
      in if length found \<noteq> length uniq then (Inl BadRequestException, s)
         else (Inr (), s\<lparr>ruleDeviceTypes := ruleDeviceTypes s @ map (\<lambda>t. (rid, fst t)) found\<rparr>))"

definition associate_devices :: "string \<Rightarrow> RuleAssociationDto \<Rightarrow> rule_state \<Rightarrow> unit result \<times> rule_state" where
  "associate_devices rid a s =
     (let uniq = js_unique (list_or_none (as_deviceIds a));
          found = filter (\<lambda>d. d \<in> set uniq) (devices s)
      in if length found \<noteq> length uniq then (Inl BadRequestException, s)
         else (Inr (), s\<lparr>ruleDevices := ruleDevices s @ map (Pair rid) found\<rparr>))"

definition associate_os :: "string \<Rightarrow> RuleAssociationDto \<Rightarrow> rule_state \<Rightarrow> unit result \<times> rule_state" where
  "associate_os rid a s =
     (Inr (), s\<lparr>ruleOs := ruleOs s @ map (Pair rid) (js_unique (list_or_none (as_osTypes a)))\<rparr>)"

text \<open>One step after the other, without a transaction: what was written before a failure stays.\<close>

definition and_then ::
  "(rule_state \<Rightarrow> unit result \<times> rule_state) \<Rightarrow> (rule_state \<Rightarrow> unit result \<times> rule_state) \<Rightarrow>
   rule_state \<Rightarrow> unit result \<times> rule_state" where
  "and_then f g s = (case f s of (Inl e, s') \<Rightarrow> (Inl e, s') | (Inr _, s') \<Rightarrow> g s')"

definition createAssociations :: "string \<Rightarrow> RuleAssociationDto \<Rightarrow> rule_state \<Rightarrow> unit result \<times> rule_state" where
  "createAssociations rid a =
     and_then (associate_releases rid a)
       (and_then (associate_deviceTypes rid a) (and_then (associate_devices rid a) (associate_os rid a)))"

definition drop_associations :: "string \<Rightarrow> rule_state \<Rightarrow> rule_state" where
  "drop_associations rid s =
     (update_db (\<lambda>d. d\<lparr>ruleReleases := delete_where (\<lambda>rr. rr_rule rr = rid) (ruleReleases d)\<rparr>) s)
       \<lparr>ruleDeviceTypes := delete_where (\<lambda>p. fst p = rid) (ruleDeviceTypes s),
        ruleDevices := delete_where (\<lambda>p. fst p = rid) (ruleDevices s),
        ruleOs := delete_where (\<lambda>p. fst p = rid) (ruleOs s)\<rparr>"

definition updateAssociations :: "string \<Rightarrow> RuleAssociationDto \<Rightarrow> rule_state \<Rightarrow> unit result \<times> rule_state" where
  "updateAssociations rid a s = createAssociations rid a (drop_associations rid s)"

section \<open>Rules\<close>

record CreateRuleDto =
  cr_name :: string
  cr_description :: "string option"
  cr_type :: RuleType
  cr_association :: RuleAssociationDto
  cr_isActive :: "bool option"
  cr_isPush :: "bool option"
  cr_rule :: json

record UpdateRuleDto =
  ur_name :: "string option"
  ur_description :: "string option"
  ur_association :: "RuleAssociationDto option"
  ur_isActive :: "bool option"
  ur_isPush :: "bool option"
  ur_rule :: json

definition association_required :: "RuleType \<Rightarrow> RuleAssociationDto \<Rightarrow> bool" where
  "association_required ty a =
     (case ty of
        POLICY \<Rightarrow> list_or_none (as_releases a) \<noteq> []
      | RESTRICTION \<Rightarrow> list_or_none (as_deviceTypeNames a) \<noteq> [] \<or> list_or_none (as_deviceIds a) \<noteq> [] \<or>
          list_or_none (as_osTypes a) \<noteq> [])"

definition findOneById :: "string \<Rightarrow> rule_state \<Rightarrow> RuleEntity result" where
  "findOneById i s = (case rule_by_id (rs_db s) i of None \<Rightarrow> Inl NotFoundException | Some u \<Rightarrow> Inr u)"

text \<open>The generated UUID is a fresh name from the sequence of ids.\<close>

definition rule_name_of :: "nat \<Rightarrow> string" where
  "rule_name_of n = ''rule-'' @ show_nat n"

definition new_rule :: "string \<Rightarrow> CreateRuleDto \<Rightarrow> RuleEntity" where
  "new_rule rid dto =
     \<lparr>rul_id = rid, rul_name = cr_name dto, rul_description = cr_description dto, rul_type = cr_type dto,
      rul_version = 1, rul_isActive = with_default True (cr_isActive dto),
      rul_isPush = with_default False (cr_isPush dto), rul_rule = cr_rule dto\<rparr>"

definition createRule :: "rule_env \<Rightarrow> CreateRuleDto \<Rightarrow> rule_state \<Rightarrow> RuleEntity result \<times> rule_state" where
  "createRule V dto s =
     (case validateRule V (cr_rule dto) s of
        Inl e \<Rightarrow> (Inl e, s)
      | Inr _ \<Rightarrow>
          if \<not> association_required (cr_type dto) (cr_association dto) then (Inl BadRequestException, s)
          else
            let rid = rule_name_of (next_id (rs_db s));
                s1 = update_db (\<lambda>d. d\<lparr>rules := rules d @ [new_rule rid dto], next_id := Suc (next_id d)\<rparr>) s
            in (case createAssociations rid (cr_association dto) s1 of
                  (Inl e, s2) \<Rightarrow> (Inl e, s2)
                | (Inr _, s2) \<Rightarrow> (findOneById rid s2, s2)))"

definition patch_rule :: "UpdateRuleDto \<Rightarrow> RuleEntity \<Rightarrow> RuleEntity" where
  "patch_rule dto u =
     u\<lparr>rul_version := (if js_truthy (ur_rule dto) then rul_version u + 1 else rul_version u),
       rul_name := with_default (rul_name u) (ur_name dto),
       rul_description := or_old (ur_description dto) (rul_description u),
       rul_isActive := with_default (rul_isActive u) (ur_isActive dto),
       rul_isPush := with_default (rul_isPush u) (ur_isPush dto),
       rul_rule := (if ur_rule dto = JUndef then rul_rule u else ur_rule dto)\<rparr>"

definition updateRule :: "rule_env \<Rightarrow> string \<Rightarrow> UpdateRuleDto \<Rightarrow> rule_state \<Rightarrow> RuleEntity result \<times> rule_state" where
  "updateRule V i dto s =
     (case findOneById i s of
        Inl e \<Rightarrow> (Inl e, s)
      | Inr u \<Rightarrow>
          (case (if js_truthy (ur_rule dto) then validateRule V (ur_rule dto) s else Inr ()) of
             Inl e \<Rightarrow> (Inl e, s)
           | Inr _ \<Rightarrow>
               let s1 = update_db (\<lambda>d. d\<lparr>rules := update_where (\<lambda>x. rul_id x = i) (\<lambda>_. patch_rule dto u) (rules d)\<rparr>) s
               in (case (case ur_association dto of None \<Rightarrow> (Inr (), s1) | Some a \<Rightarrow> updateAssociations i a s1) of
                     (Inl e, s2) \<Rightarrow> (Inl e, s2)
                   | (Inr _, s2) \<Rightarrow> (findOneById i s2, s2))))"

definition deleteRule :: "string \<Rightarrow> rule_state \<Rightarrow> unit result \<times> rule_state" where
  "deleteRule i s =
     (case findOneById i s of
        Inl e \<Rightarrow> (Inl e, s)
      | Inr u \<Rightarrow> (Inr (), update_db (\<lambda>d. d\<lparr>rules := delete_where (\<lambda>x. rul_id x = i) (rules d)\<rparr>) (drop_associations i s)))"

section \<open>Reading rules\<close>

record RuleQueryFilter =
  qf_type :: "RuleType option"
  qf_isActive :: "bool option"
  qf_releaseId :: "string option"
  qf_deviceTypeId :: "nat option"
  qf_deviceTypeName :: "string option"
  qf_deviceId :: "string option"
  qf_osType :: "string option"

record loaded_rule =
  lr_rule :: RuleEntity
  lr_releases :: "ReleaseEntity list"
  lr_deviceTypes :: "(nat \<times> string) list"
  lr_devices :: "string list"
  lr_os :: "string list"

definition releases_of_rule :: "db \<Rightarrow> string \<Rightarrow> ReleaseEntity list" where
  "releases_of_rule d rid =
     List.map_filter (\<lambda>rr. if rr_rule rr = rid then release_by_catalog d (rr_release rr) else None) (ruleReleases d)"

definition types_of_rule :: "rule_state \<Rightarrow> string \<Rightarrow> (nat \<times> string) list" where
  "types_of_rule s rid =
     List.map_filter (\<lambda>p. if fst p = rid then List.find (\<lambda>t. fst t = snd p) (deviceTypes s) else None) (ruleDeviceTypes s)"

definition devices_of_rule :: "rule_state \<Rightarrow> string \<Rightarrow> string list" where
  "devices_of_rule s rid = map snd (filter (\<lambda>p. fst p = rid) (ruleDevices s))"

definition os_of_rule :: "rule_state \<Rightarrow> string \<Rightarrow> string list" where
  "os_of_rule s rid = map snd (filter (\<lambda>p. fst p = rid) (ruleOs s))"

text \<open>
  A condition on a joined table keeps the rows that satisfy it, and with them the rule: a rule
  with no such row is left out, and of the others only the matching associations are loaded.
\<close>

definition joined :: "('a \<Rightarrow> bool) option \<Rightarrow> 'a list \<Rightarrow> 'a list option" where
  "joined cond xs =
     (case cond of None \<Rightarrow> Some xs | Some P \<Rightarrow> if filter P xs = [] then None else Some (filter P xs))"

definition both :: "('a \<Rightarrow> bool) option \<Rightarrow> ('a \<Rightarrow> bool) option \<Rightarrow> ('a \<Rightarrow> bool) option" where
  "both P Q =
     (case (P, Q) of (None, q) \<Rightarrow> q | (p, None) \<Rightarrow> p | (Some p, Some q) \<Rightarrow> Some (\<lambda>x. p x \<and> q x))"

definition when_given :: "'b option \<Rightarrow> ('b \<Rightarrow> 'a \<Rightarrow> bool) \<Rightarrow> ('a \<Rightarrow> bool) option" where
  "when_given v P = (case v of None \<Rightarrow> None | Some x \<Rightarrow> Some (P x))"

definition nonempty_text :: "string option \<Rightarrow> string option" where
  "nonempty_text x = (if truthy x then x else None)"

definition project_filter :: "RuleQueryFilter \<Rightarrow> nat list option \<Rightarrow> nat list option" where
  "project_filter q projectIds =
     (if qf_type q = Some POLICY \<and> list_or_none projectIds \<noteq> [] then projectIds else None)"

definition load_rule :: "RuleQueryFilter \<Rightarrow> nat list option \<Rightarrow> rule_state \<Rightarrow> RuleEntity \<Rightarrow> loaded_rule option" where
  "load_rule q projectIds s u =
     (if opt_matches (qf_type q) (rul_type u) \<and> opt_matches (qf_isActive q) (rul_isActive u) then
        (case (joined (both (when_given (project_filter q projectIds) (\<lambda>ids r. rel_project r \<in> set ids))
                            (when_given (nonempty_text (qf_releaseId q)) (\<lambda>c r. rel_catalogId r = c)))
                      (releases_of_rule (rs_db s) (rul_id u)),
               joined (both (when_given (case qf_deviceTypeId q of Some 0 \<Rightarrow> None | i \<Rightarrow> i) (\<lambda>i t. fst t = i))
                            (when_given (nonempty_text (qf_deviceTypeName q)) (\<lambda>n t. snd t = n)))
                      (types_of_rule s (rul_id u)),
               joined (when_given (nonempty_text (qf_deviceId q)) (\<lambda>i d. d = i)) (devices_of_rule s (rul_id u)),
               joined (when_given (nonempty_text (qf_osType q)) (\<lambda>x y. y = x)) (os_of_rule s (rul_id u))) of
           (Some rs, Some ts, Some ds, Some os) \<Rightarrow>
             Some \<lparr>lr_rule = u, lr_releases = rs, lr_deviceTypes = ts, lr_devices = ds, lr_os = os\<rparr>
         | _ \<Rightarrow> None)
      else None)"

definition findAll :: "RuleQueryFilter \<Rightarrow> nat list option \<Rightarrow> rule_state \<Rightarrow> loaded_rule list" where
  "findAll q projectIds s = List.map_filter (load_rule q projectIds s) (rev (rules (rs_db s)))"

definition findAllForReleases :: "string list \<Rightarrow> rule_state \<Rightarrow> loaded_rule list" where
  "findAllForReleases catalogIds s =
     (if catalogIds = [] then []
      else List.map_filter (\<lambda>u.
          let rs = filter (\<lambda>r. rel_catalogId r \<in> set catalogIds) (releases_of_rule (rs_db s) (rul_id u)) in
          if rul_type u = POLICY \<and> rs \<noteq> []
          then Some \<lparr>lr_rule = u, lr_releases = rs, lr_deviceTypes = types_of_rule s (rul_id u),
                     lr_devices = devices_of_rule s (rul_id u), lr_os = os_of_rule s (rul_id u)\<rparr>
          else None) (rev (rules (rs_db s))))"

record RuleDefinition =
  rdf_id :: string
  rdf_name :: string
  rdf_description :: "string option"
  rdf_type :: RuleType
  rdf_version :: nat
  rdf_isActive :: bool
  rdf_isPush :: bool
  rdf_rule :: json
  rdf_releases :: "(nat \<times> string option \<times> string) list"
  rdf_deviceTypeNames :: "string list"
  rdf_deviceIds :: "string list"
  rdf_osTypes :: "string list"

definition ruleEntityToDefinition :: "db \<Rightarrow> loaded_rule \<Rightarrow> RuleDefinition" where
  "ruleEntityToDefinition d l =
     (let u = lr_rule l in
      \<lparr>rdf_id = rul_id u, rdf_name = rul_name u, rdf_description = rul_description u, rdf_type = rul_type u,
       rdf_version = rul_version u, rdf_isActive = rul_isActive u, rdf_isPush = rul_isPush u, rdf_rule = rul_rule u,
       rdf_releases = map (\<lambda>r. (rel_project r, map_option pj_name (project_by_id d (rel_project r)), rel_version r)) (lr_releases l),
       rdf_deviceTypeNames = map snd (lr_deviceTypes l), rdf_deviceIds = lr_devices l, rdf_osTypes = lr_os l\<rparr>)"

definition load_all :: "rule_state \<Rightarrow> RuleEntity \<Rightarrow> loaded_rule" where
  "load_all s u =
     \<lparr>lr_rule = u, lr_releases = releases_of_rule (rs_db s) (rul_id u), lr_deviceTypes = types_of_rule s (rul_id u),
      lr_devices = devices_of_rule s (rul_id u), lr_os = os_of_rule s (rul_id u)\<rparr>"

section \<open>Policies\<close>

definition createPolicy :: "rule_env \<Rightarrow> CreateRuleDto \<Rightarrow> rule_state \<Rightarrow> RuleDefinition result \<times> rule_state" where
  "createPolicy V dto s =
     (case createRule V (dto\<lparr>cr_type := POLICY\<rparr>) s of
        (Inl e, s1) \<Rightarrow> (Inl e, s1)
      | (Inr u, s1) \<Rightarrow> (Inr (ruleEntityToDefinition (rs_db s1) (load_all s1 u)), s1))"

definition updatePolicy :: "rule_env \<Rightarrow> string \<Rightarrow> UpdateRuleDto \<Rightarrow> rule_state \<Rightarrow> RuleDefinition result \<times> rule_state" where
  "updatePolicy V i dto s =
     (case updateRule V i dto s of
        (Inl e, s1) \<Rightarrow> (Inl e, s1)
      | (Inr u, s1) \<Rightarrow> (Inr (ruleEntityToDefinition (rs_db s1) (load_all s1 u)), s1))"

definition getPolicy :: "string \<Rightarrow> rule_state \<Rightarrow> RuleDefinition result" where
  "getPolicy i s =
     (case findOneById i s of Inl e \<Rightarrow> Inl e | Inr u \<Rightarrow> Inr (ruleEntityToDefinition (rs_db s) (load_all s u)))"

definition validateUserAccessToPolicy :: "rule_env \<Rightarrow> RuleDefinition \<Rightarrow> string option \<Rightarrow> unit result" where
  "validateUserAccessToPolicy V policy userEmail =
     (if \<not> truthy userEmail then Inl UnauthorizedException
      else (case getUserProjectIds V (or_empty userEmail) of
          Inl e \<Rightarrow> Inl e
        | Inr userProjectIds \<Rightarrow>
            (case getProjectIdsByNames V (map (\<lambda>r. fst (snd r)) (rdf_releases policy)) of
               Inl e \<Rightarrow> Inl e
             | Inr policyProjectIds \<Rightarrow>
                 if list_ex (\<lambda>p. p \<in> set userProjectIds) policyProjectIds then Inr () else Inl UnauthorizedException)))"

definition getPolicyForUser :: "rule_env \<Rightarrow> string \<Rightarrow> string option \<Rightarrow> rule_state \<Rightarrow> RuleDefinition result" where
  "getPolicyForUser V i userEmail s =
     bind_r (getPolicy i s) (\<lambda>p. bind_r (validateUserAccessToPolicy V p userEmail) (\<lambda>_. Inr p))"

definition deletePolicyForUser :: "rule_env \<Rightarrow> string \<Rightarrow> string option \<Rightarrow> rule_state \<Rightarrow> unit result \<times> rule_state" where
  "deletePolicyForUser V i userEmail s =
     (case getPolicyForUser V i userEmail s of Inl e \<Rightarrow> (Inl e, s) | Inr _ \<Rightarrow> deleteRule i s)"

definition listPolicies :: "RuleQueryFilter \<Rightarrow> nat list option \<Rightarrow> rule_state \<Rightarrow> RuleDefinition list" where
  "listPolicies q projectIds s =
     map (ruleEntityToDefinition (rs_db s)) (findAll (q\<lparr>qf_type := Some POLICY\<rparr>) projectIds s)"

definition listPoliciesForUser ::
  "rule_env \<Rightarrow> RuleQueryFilter \<Rightarrow> string option \<Rightarrow> rule_state \<Rightarrow> RuleDefinition list result" where
  "listPoliciesForUser V q userEmail s =
     (if \<not> truthy userEmail then Inl UnauthorizedException
      else bind_r (getUserProjectIds V (or_empty userEmail)) (\<lambda>ids. Inr (listPolicies q (Some ids) s)))"

text \<open>What an agent is shown of a policy: a disabled push policy not at all, an active one as inactive.\<close>

definition hidden_push :: "RuleEntity \<Rightarrow> bool" where
  "hidden_push u \<longleftrightarrow> rul_isPush u \<and> \<not> rul_isActive u"

definition agent_view :: "db \<Rightarrow> loaded_rule \<Rightarrow> RuleDefinition" where
  "agent_view d l =
     (let x = ruleEntityToDefinition d l in
      if rul_isPush (lr_rule l) \<and> rul_isActive (lr_rule l) then x\<lparr>rdf_isActive := False\<rparr> else x)"

definition no_filter :: RuleQueryFilter where
  "no_filter = \<lparr>qf_type = None, qf_isActive = None, qf_releaseId = None, qf_deviceTypeId = None,
     qf_deviceTypeName = None, qf_deviceId = None, qf_osType = None\<rparr>"

definition getPoliciesForRelease :: "string \<Rightarrow> rule_state \<Rightarrow> RuleDefinition list" where
  "getPoliciesForRelease catalogId s =
     map (agent_view (rs_db s))
       (filter (\<lambda>l. \<not> hidden_push (lr_rule l))
         (findAll (no_filter\<lparr>qf_releaseId := Some catalogId, qf_type := Some POLICY\<rparr>) None s))"

text \<open>A definition is appended to the entry of every association with one of the releases.\<close>

definition push_definition :: "RuleDefinition \<Rightarrow> string \<Rightarrow> (string \<times> RuleDefinition list) list \<Rightarrow> (string \<times> RuleDefinition list) list" where
  "push_definition x c m =
     (case map_of m c of None \<Rightarrow> m | Some xs \<Rightarrow> if c = [] then m else alist_put c (xs @ [x]) m)"

definition getPoliciesForReleases :: "string list \<Rightarrow> rule_state \<Rightarrow> (string \<times> RuleDefinition list) list" where
  "getPoliciesForReleases catalogIds s =
     (if catalogIds = [] then []
      else
        fold (\<lambda>l m. if hidden_push (lr_rule l) then m
                    else fold (\<lambda>r. push_definition (agent_view (rs_db s) l) (rel_catalogId r)) (lr_releases l) m)
          (findAllForReleases catalogIds s) (fold (\<lambda>c. alist_put c []) catalogIds []))"


section \<open>The bulk query agrees with the single one\<close>

definition link_key :: "RuleReleaseEntity \<Rightarrow> string \<times> string" where
  "link_key x = (rr_rule x, rr_release x)"

lemma release_by_catalog_id: "release_by_catalog d c = Some r \<Longrightarrow> rel_catalogId r = c"
  unfolding release_by_catalog_def by (drule find_SomeD) simp

lemma catalog_ids_of_rule:
  "set (map rel_catalogId (releases_of_rule d rid)) \<subseteq> rr_release ` {x \<in> set (ruleReleases d). rr_rule x = rid}"
  by (auto simp: releases_of_rule_def map_filter_def image_iff split: if_splits dest: release_by_catalog_id)
    (metis option.sel release_by_catalog_id)

lemma distinct_catalog_ids_of_rule:
  assumes "distinct (map link_key (ruleReleases d))"
  shows "distinct (map rel_catalogId (releases_of_rule d rid))"
proof -
  define look where "look = (\<lambda>x :: RuleReleaseEntity. if rr_rule x = rid then release_by_catalog d (rr_release x) else None)"
  have "distinct (map link_key xs) \<Longrightarrow> distinct (map rel_catalogId (List.map_filter look xs))" for xs
  proof (induction xs)
    case (Cons x xs)
    have "rel_catalogId r \<notin> set (map rel_catalogId (List.map_filter look xs))" if r: "look x = Some r" for r
    proof
      assume "rel_catalogId r \<in> set (map rel_catalogId (List.map_filter look xs))"
      then obtain y r' where y: "y \<in> set xs" "look y = Some r'" "rel_catalogId r' = rel_catalogId r"
        by (auto simp: map_filter_def)
      then have "link_key y = link_key x"
        using r by (auto simp: look_def link_key_def split: if_splits dest!: release_by_catalog_id)
      then show False
        using Cons.prems y(1) by (metis distinct.simps(2) image_eqI list.set_map list.simps(9))
    qed
    with Cons show ?case
      by (cases "look x") (auto simp: map_filter_simps)
  qed (simp add: map_filter_simps)
  then show ?thesis
    using assms by (simp add: releases_of_rule_def look_def)
qed

lemma map_of_push_definition:
  "c \<noteq> [] \<Longrightarrow> map_of m c = Some xs \<Longrightarrow>
   map_of (push_definition x c' m) c = Some (if c' = c then xs @ [x] else xs)"
  by (auto simp: push_definition_def split: option.splits)

lemma map_of_push_all:
  fixes rs :: "ReleaseEntity list"
  assumes "c \<noteq> []" "distinct (map rel_catalogId rs)" "map_of m c = Some xs"
  shows "map_of (fold (\<lambda>r. push_definition x (rel_catalogId r)) rs m) c =
         Some (xs @ (if c \<in> rel_catalogId ` set rs then [x] else []))"
  using assms(2,3)
proof (induction rs arbitrary: m xs)
  case (Cons r rs)
  then have "map_of (push_definition x (rel_catalogId r) m) c = Some (if rel_catalogId r = c then xs @ [x] else xs)"
    using map_of_push_definition [OF assms(1)] by simp
  from Cons.IH [OF _ this] Cons.prems(1) show ?case
    by auto
qed simp

lemma map_of_push_loaded:
  assumes "c \<noteq> []" "\<And>l. l \<in> set ls \<Longrightarrow> distinct (map rel_catalogId (lr_releases l))" "map_of m c = Some xs"
  shows "map_of (fold (\<lambda>l m. if hidden_push (lr_rule l) then m
                    else fold (\<lambda>r. push_definition (view l) (rel_catalogId r)) (lr_releases l) m) ls m) c =
         Some (xs @ map view (filter (\<lambda>l. \<not> hidden_push (lr_rule l) \<and> c \<in> rel_catalogId ` set (lr_releases l)) ls))"
  using assms(2,3)
proof (induction ls arbitrary: m xs)
  case (Cons l ls)
  have "map_of (if hidden_push (lr_rule l) then m
                    else fold (\<lambda>r. push_definition (view l) (rel_catalogId r)) (lr_releases l) m) c =
        Some (xs @ (if \<not> hidden_push (lr_rule l) \<and> c \<in> rel_catalogId ` set (lr_releases l) then [view l] else []))"
    using map_of_push_all [OF assms(1) _ Cons.prems(2)] Cons.prems(1) [of l] Cons.prems(2) by auto
  from Cons.IH [OF Cons.prems(1) this] show ?case
    by simp
qed simp

lemma map_of_empty_entries: "c \<in> set ids \<or> map_of m c = Some [] \<Longrightarrow> map_of (fold (\<lambda>c. alist_put c []) ids m) c = Some []"
  by (induction ids arbitrary: m) auto

lemma joined_None [simp]: "joined None xs = Some xs"
  by (simp add: joined_def)

definition loaded_for :: "string \<Rightarrow> rule_state \<Rightarrow> RuleEntity \<Rightarrow> loaded_rule option" where
  "loaded_for c s u =
     (let l = load_all s u; rs = filter (\<lambda>r. rel_catalogId r = c) (lr_releases l) in
      if rul_type u = POLICY \<and> rs \<noteq> [] then Some (l\<lparr>lr_releases := rs\<rparr>) else None)"

lemma load_rule_policy:
  "c \<noteq> [] \<Longrightarrow> load_rule (no_filter\<lparr>qf_releaseId := Some c, qf_type := Some POLICY\<rparr>) None s = loaded_for c s"
  by (rule ext) (simp add: load_rule_def no_filter_def opt_matches_def project_filter_def list_or_none_def when_given_def
      nonempty_text_def truthy_def both_def joined_def loaded_for_def load_all_def Let_def)


definition loaded_for_any :: "string set \<Rightarrow> rule_state \<Rightarrow> RuleEntity \<Rightarrow> loaded_rule option" where
  "loaded_for_any C s u =
     (let l = load_all s u; rs = filter (\<lambda>r. rel_catalogId r \<in> C) (lr_releases l) in
      if rul_type u = POLICY \<and> rs \<noteq> [] then Some (l\<lparr>lr_releases := rs\<rparr>) else None)"

lemma findAllForReleases_any:
  "ids \<noteq> [] \<Longrightarrow> findAllForReleases ids s = List.map_filter (loaded_for_any (set ids) s) (rev (rules (rs_db s)))"
  by (simp add: findAllForReleases_def loaded_for_any_def [abs_def] load_all_def Let_def cong: if_cong)

lemma map_filter_agree:
  assumes "\<And>u. (case f u of Some l \<Rightarrow> if P l then [h l] else [] | None \<Rightarrow> []) =
                 (case g u of Some l \<Rightarrow> if Q l then [k l] else [] | None \<Rightarrow> [])"
  shows "map h (filter P (List.map_filter f us)) = map k (filter Q (List.map_filter g us))"
proof (induction us)
  case (Cons u us)
  then show ?case
    using assms [of u] by (auto simp: map_filter_simps split: option.splits if_splits)
qed (simp add: map_filter_simps)

definition without_releases :: "RuleDefinition \<Rightarrow> RuleDefinition" where
  "without_releases x = x\<lparr>rdf_releases := []\<rparr>"

lemma loaded_agree:
  "c \<in> C \<Longrightarrow>
   (case loaded_for_any C s u of
      Some l \<Rightarrow> if \<not> hidden_push (lr_rule l) \<and> c \<in> rel_catalogId ` set (lr_releases l)
                then [without_releases (agent_view d l)] else []
    | None \<Rightarrow> []) =
   (case loaded_for c s u of
      Some l \<Rightarrow> if \<not> hidden_push (lr_rule l) then [without_releases (agent_view d l)] else []
    | None \<Rightarrow> [])"
  by (auto simp: loaded_for_any_def loaded_for_def Let_def load_all_def filter_empty_conv
      without_releases_def agent_view_def ruleEntityToDefinition_def)

lemma loaded_for_any_distinct:
  assumes "distinct (map link_key (ruleReleases (rs_db s)))" "l \<in> set (List.map_filter (loaded_for_any C s) us)"
  shows "distinct (map rel_catalogId (lr_releases l))"
  using assms(2) distinct_catalog_ids_of_rule [OF assms(1)]
  by (auto simp: map_filter_def loaded_for_any_def load_all_def Let_def distinct_map_filter split: if_splits)



definition demo_rule :: "string \<Rightarrow> bool \<Rightarrow> bool \<Rightarrow> RuleEntity" where
  "demo_rule i active push =
     \<lparr>rul_id = i, rul_name = i, rul_description = None, rul_type = POLICY, rul_version = 1,
      rul_isActive = active, rul_isPush = push, rul_rule = JObj []\<rparr>"

definition demo_link :: "nat \<Rightarrow> string \<Rightarrow> string \<Rightarrow> RuleReleaseEntity" where
  "demo_link i u c = \<lparr>rr_id = i, rr_rule = u, rr_release = c\<rparr>"

definition demo_rules :: rule_state where
  "demo_rules =
     \<lparr>rs_db = empty_db\<lparr>releases := [demo_release ''a'' ''1'' RELEASED, demo_release ''b'' ''2'' RELEASED],
        rules := [demo_rule ''p'' True False, demo_rule ''q'' True True, demo_rule ''r'' False True],
        ruleReleases := [demo_link 1 ''p'' ''a'', demo_link 2 ''q'' ''a'', demo_link 3 ''r'' ''a'', demo_link 4 ''p'' ''b''],
        next_id := 5\<rparr>,
      deviceTypes = [(1, ''tablet'')], devices = [''d1''], ruleDeviceTypes = [], ruleDevices = [],
      ruleOs = [], ruleFields = []\<rparr>"


section \<open>No rule is linked twice with a release\<close>

text \<open>
  The state the operations keep: catalog ids are a key, a rule is linked with a release at most
  once, and the ids the sequence has still to give are not those of a rule or of a link.
\<close>

definition links_ok :: "db \<Rightarrow> bool" where
  "links_ok d \<longleftrightarrow> distinct (map rel_catalogId (releases d)) \<and> distinct (map link_key (ruleReleases d)) \<and>
     (\<forall>n\<ge>next_id d. rule_name_of n \<notin> rul_id ` set (rules d) \<and> rule_name_of n \<notin> rr_rule ` set (ruleReleases d))"

lemma rule_name_of_inject [simp]: "rule_name_of m = rule_name_of n \<longleftrightarrow> m = n"
proof
  assume "rule_name_of m = rule_name_of n"
  then have "js_Number (show_nat m) = js_Number (show_nat n)"
    by (simp add: rule_name_of_def)
  then show "m = n"
    by simp
qed simp

lemma link_releases_fields:
  "releases (link_releases rid rs d) = releases d"
  "rules (link_releases rid rs d) = rules d"
  "next_id (link_releases rid rs d) = next_id d + length rs"
  by (induction rs arbitrary: d) (simp_all add: link_releases_def)

lemma link_releases_keys:
  "map link_key (ruleReleases (link_releases rid rs d)) =
     map link_key (ruleReleases d) @ map (\<lambda>r. (rid, rel_catalogId r)) rs"
  by (induction rs arbitrary: d) (simp_all add: link_releases_def link_key_def)

lemma rules_of_links: "rr_rule ` set ls = fst ` set (map link_key ls)"
  by (force simp: link_key_def)

lemma links_ok_link_releases:
  assumes "links_ok d" "distinct (map rel_catalogId rs)" "rid \<notin> rr_rule ` set (ruleReleases d)"
    "\<And>n. next_id d \<le> n \<Longrightarrow> rid \<noteq> rule_name_of n"
  shows "links_ok (link_releases rid rs d)"
proof -
  let ?d = "link_releases rid rs d"
  have keys: "map link_key (ruleReleases ?d) = map link_key (ruleReleases d) @ map (\<lambda>r. (rid, rel_catalogId r)) rs"
    by (rule link_releases_keys)
  have "distinct (map (\<lambda>r. (rid, rel_catalogId r)) rs)"
    using assms(2) by (simp add: distinct_map inj_on_def)
  moreover have "set (map link_key (ruleReleases d)) \<inter> set (map (\<lambda>r. (rid, rel_catalogId r)) rs) = {}"
    using assms(3) by (auto simp: link_key_def)
  ultimately have "distinct (map link_key (ruleReleases ?d))"
    using assms(1) unfolding keys links_ok_def distinct_append by blast
  moreover have "rule_name_of n \<notin> rr_rule ` set (ruleReleases ?d)" if n: "next_id ?d \<le> n" for n
  proof -
    have "rr_rule ` set (ruleReleases ?d) \<subseteq> insert rid (rr_rule ` set (ruleReleases d))"
      unfolding rules_of_links keys by auto
    moreover have "next_id d \<le> n"
      using n by (simp add: link_releases_fields)
    ultimately show ?thesis
      using assms(1) assms(4) [of n] unfolding links_ok_def by blast
  qed
  ultimately show ?thesis
    using assms(1) by (simp add: links_ok_def link_releases_fields)
qed


lemma links_ok_associate_releases:
  assumes "links_ok (rs_db s)" "rid \<notin> rr_rule ` set (ruleReleases (rs_db s))"
    "\<And>n. next_id (rs_db s) \<le> n \<Longrightarrow> rid \<noteq> rule_name_of n"
  shows "links_ok (rs_db (snd (associate_releases rid a s)))"
proof -
  have "distinct (map rel_catalogId (filter P (releases (rs_db s))))" for P
    using assms(1) by (simp add: links_ok_def distinct_map_filter)
  then show ?thesis
    using assms links_ok_link_releases [of "rs_db s"]
    by (auto simp: associate_releases_def Let_def update_db_def split: list.splits)
qed

lemma db_of_other_associations [simp]:
  "rs_db (snd (associate_deviceTypes rid a s)) = rs_db s"
  "rs_db (snd (associate_devices rid a s)) = rs_db s"
  "rs_db (snd (associate_os rid a s)) = rs_db s"
  by (simp_all add: associate_deviceTypes_def associate_devices_def associate_os_def Let_def)

lemma db_and_then:
  "(\<And>s. rs_db (snd (g s)) = rs_db s) \<Longrightarrow> rs_db (snd (and_then f g s)) = rs_db (snd (f s))"
  by (auto simp: and_then_def split: prod.splits sum.splits)

lemma db_createAssociations:
  "rs_db (snd (createAssociations rid a s)) = rs_db (snd (associate_releases rid a s))"
  unfolding createAssociations_def by (intro db_and_then) (simp add: db_and_then)

lemma links_ok_drop: 
  assumes "links_ok (rs_db s)"
  shows "links_ok (rs_db (drop_associations rid s))"
    and "rid \<notin> rr_rule ` set (ruleReleases (rs_db (drop_associations rid s)))"
proof -
  have "distinct (map link_key (filter P (ruleReleases (rs_db s))))" for P
    using assms by (simp add: links_ok_def distinct_map_filter)
  then show "links_ok (rs_db (drop_associations rid s))"
    using assms by (auto simp: links_ok_def drop_associations_def update_db_def delete_where_def)
  show "rid \<notin> rr_rule ` set (ruleReleases (rs_db (drop_associations rid s)))"
    by (auto simp: drop_associations_def update_db_def delete_where_def)
qed

lemma links_ok_rules:
  "links_ok d \<Longrightarrow> rul_id ` set us \<subseteq> rul_id ` set (rules d) \<Longrightarrow> links_ok (d\<lparr>rules := us\<rparr>)"
  by (auto simp: links_ok_def)

lemma createRule_keeps:
  assumes "links_ok (rs_db s)"
  shows "links_ok (rs_db (snd (createRule V dto s)))"
proof -
  let ?n = "next_id (rs_db s)"
  define s1 where "s1 = update_db (\<lambda>d. d\<lparr>rules := rules d @ [new_rule (rule_name_of ?n) dto], next_id := Suc (next_id d)\<rparr>) s"
  have "links_ok (rs_db s1)" "rule_name_of ?n \<notin> rr_rule ` set (ruleReleases (rs_db s1))"
    "\<And>n. next_id (rs_db s1) \<le> n \<Longrightarrow> rule_name_of ?n \<noteq> rule_name_of n"
    using assms by (auto simp: s1_def links_ok_def update_db_def new_rule_def)
  from links_ok_associate_releases [OF this]
  have "links_ok (rs_db (snd (createAssociations (rule_name_of ?n) (cr_association dto) s1)))"
    by (simp add: db_createAssociations)
  then show ?thesis
    using assms by (auto simp: createRule_def Let_def s1_def [symmetric] split: sum.splits prod.splits)
qed

lemma patched_id: "rul_id (patch_rule dto u) = rul_id u"
  by (simp add: patch_rule_def)

lemma updateRule_keeps:
  assumes "links_ok (rs_db s)"
  shows "links_ok (rs_db (snd (updateRule V i dto s)))"
proof (cases "rule_by_id (rs_db s) i")
  case (Some u)
  then have u: "rul_id u = i" "u \<in> set (rules (rs_db s))"
    by (auto simp: rule_by_id_def dest: find_SomeD)
  define s1 where "s1 = update_db (\<lambda>d. d\<lparr>rules := update_where (\<lambda>x. rul_id x = i) (\<lambda>_. patch_rule dto u) (rules d)\<rparr>) s"
  have ok1: "links_ok (rs_db s1)"
    unfolding s1_def update_db_def
    using u by (auto simp: set_update_where patched_id intro!: links_ok_rules [OF assms])
  have free: "rul_id u \<in> rul_id ` set (rules (rs_db s1))"
  proof -
    have "map rul_id (rules (rs_db s1)) = map rul_id (rules (rs_db s))"
      using u(1) by (auto simp: s1_def update_db_def patched_id intro!: map_update_where)
    then have "rul_id ` set (rules (rs_db s1)) = rul_id ` set (rules (rs_db s))"
      by (metis list.set_map)
    then show ?thesis
      using u(2) by blast
  qed
  have "links_ok (rs_db (snd (updateAssociations i a s1)))" for a
    unfolding updateAssociations_def db_createAssociations
  proof (rule links_ok_associate_releases)
    show "i \<noteq> rule_name_of n" if "next_id (rs_db (drop_associations i s1)) \<le> n" for n
      using that ok1 free u(1) by (force simp: links_ok_def drop_associations_def update_db_def)
  qed (rule links_ok_drop [OF ok1])+
  then show ?thesis
    using assms ok1 Some
    by (auto simp: updateRule_def findOneById_def Let_def s1_def [symmetric] split: sum.splits prod.splits option.splits)
      (metis snd_conv)+
qed (use assms in \<open>simp add: updateRule_def findOneById_def\<close>)

lemma deleteRule_keeps: "links_ok (rs_db s) \<Longrightarrow> links_ok (rs_db (snd (deleteRule i s)))"
  using links_ok_drop(1) [of s i]
  by (auto simp: deleteRule_def update_db_def delete_where_def split: sum.splits intro!: links_ok_rules)


inductive rule_step :: "rule_env \<Rightarrow> rule_state \<Rightarrow> rule_state \<Rightarrow> bool" for V where
  create_rule: "rule_step V s (snd (createRule V dto s))"
| update_rule: "rule_step V s (snd (updateRule V i dto s))"
| delete_rule: "rule_step V s (snd (deleteRule i s))"
| add_field: "rule_step V s (snd (addRuleField f s))"
| remove_field: "rule_step V s (snd (removeRuleField n s))"
| sync_fields: "rule_step V s (syncDeviceFields i fs s)"

inductive rules_reach :: "rule_env \<Rightarrow> rule_state \<Rightarrow> rule_state \<Rightarrow> bool" for V where
  start: "rules_reach V s s"
| step: "rules_reach V s s' \<Longrightarrow> rule_step V s' s'' \<Longrightarrow> rules_reach V s s''"

lemma db_addRuleField [simp]: "rs_db (snd (addRuleField f s)) = rs_db s"
  by (simp add: addRuleField_def)

lemma db_removeRuleField [simp]: "rs_db (snd (removeRuleField n s)) = rs_db s"
  by (simp add: removeRuleField_def)

lemma db_syncDeviceFields [simp]: "rs_db (syncDeviceFields i fs s) = rs_db s"
  unfolding syncDeviceFields_def
  by (rule fold_invariant [where Q = "\<lambda>_. True" and P = "\<lambda>s'. rs_db s' = rs_db s"]) simp_all

lemma rule_step_keeps: "rule_step V s s' \<Longrightarrow> links_ok (rs_db s) \<Longrightarrow> links_ok (rs_db s')"
  by (induction rule: rule_step.induct) (simp_all add: createRule_keeps updateRule_keeps deleteRule_keeps)

text \<open>
  C35. Whatever the operations on rules and rule fields do, failing or not, no rule is ever linked
  twice with one release, and the ids still to be given stay free: from a well-formed state only
  well-formed states are reached. A failed creation or update, which is not rolled back, is
  included.
\<close>

theorem rule_links_invariant:
  assumes "rules_reach V s s'" "links_ok (rs_db s)"
  shows "links_ok (rs_db s')"
  using assms by (induction rule: rules_reach.induct) (auto intro: rule_step_keeps)

definition demo_rule_env :: rule_env where
  "demo_rule_env = \<lparr>JSON_parse = (\<lambda>t. Inl ErrorException), engine_validate = is_object,
     getUserProjectIds = (\<lambda>e. if e = ''ann'' then Inr [1] else Inr []),
     getProjectIdsByNames = (\<lambda>ns. Inr (if Some ''one'' \<in> set ns then [1] else []))\<rparr>"

definition demo_policy_dto :: CreateRuleDto where
  "demo_policy_dto =
     \<lparr>cr_name = ''n'', cr_description = None, cr_type = POLICY,
      cr_association = \<lparr>as_releases = Some [\<lparr>ri_projectId = Some ''1'', ri_projectName = None, ri_version = ''1''\<rparr>,
          \<lparr>ri_projectId = Some '' 1'', ri_projectName = None, ri_version = ''1''\<rparr>],
        as_deviceTypeNames = None, as_osTypes = None, as_deviceIds = None\<rparr>,
      cr_isActive = None, cr_isPush = None, cr_rule = JObj []\<rparr>"

lemma demo_rules_ok: "links_ok (rs_db demo_rules)"
proof -
  have "distinct (map rel_catalogId (releases (rs_db demo_rules)))"
    "distinct (map link_key (ruleReleases (rs_db demo_rules)))"
    by code_simp+
  then show ?thesis
    by (simp add: links_ok_def demo_rules_def demo_rule_def demo_link_def rule_name_of_def)
qed

lemma rule_links_invariant_witness:
  "is_ok (fst (createRule demo_rule_env demo_policy_dto demo_rules)) \<and>
   links_ok (rs_db (snd (createRule demo_rule_env demo_policy_dto demo_rules)))"
proof
  show "is_ok (fst (createRule demo_rule_env demo_policy_dto demo_rules))"
    by code_simp
  show "links_ok (rs_db (snd (createRule demo_rule_env demo_policy_dto demo_rules)))"
    by (rule rule_links_invariant [OF rules_reach.step [OF rules_reach.start rule_step.create_rule] demo_rules_ok])
qed


section \<open>Stored rules only mention known fields\<close>

text \<open>\<open>inside r r'\<close>: the value \<open>r'\<close> is \<open>r\<close> or is found in it, at any depth.\<close>

inductive inside :: "json \<Rightarrow> json \<Rightarrow> bool" where
  here: "inside r r"
| in_object: "(k, v) \<in> set o1 \<Longrightarrow> inside v r \<Longrightarrow> inside (JObj o1) r"
| in_array: "v \<in> set xs \<Longrightarrow> inside v r \<Longrightarrow> inside (JArr xs) r"

lemma extracted_inside:
  "inside r r' \<Longrightarrow> r' = JObj o1 \<Longrightarrow> obj_get o1 ''field'' = JStr f \<Longrightarrow> f \<noteq> [] \<Longrightarrow>
   f \<in> set (extractFieldNames r)"
  by (induction rule: inside.induct) force+

lemma validateRule_fields:
  "validateRule V rule s = Inr () \<longleftrightarrow>
   (\<exists>p. parsed_rule V rule = Inr p \<and> engine_validate V p \<and>
        set (extractFieldNames p) \<subseteq> rf_name ` set (ruleFields s))"
  by (auto simp: validateRule_def validateFieldsExist_def filter_empty_conv split: sum.splits)

lemma createRule_Inr:
  "createRule V dto s = (Inr u, s') \<Longrightarrow> validateRule V (cr_rule dto) s = Inr ()"
  by (auto simp: createRule_def split: sum.splits)


definition demo_field :: RuleFieldEntity where
  "demo_field = \<lparr>rf_name = ''os'', rf_type = ''string'', rf_label = ''OS'', rf_description = None\<rparr>"

definition demo_condition_on :: "string \<Rightarrow> obj" where
  "demo_condition_on f = [(''field'', JStr f), (''operator'', JStr ''equals''), (''value'', JStr ''x'')]"

definition demo_policy_on :: "string \<Rightarrow> CreateRuleDto" where
  "demo_policy_on f = demo_policy_dto\<lparr>cr_rule := JObj [(''conditions'', JObj [(''and'', JArr [JObj (demo_condition_on f)])])]\<rparr>"


section \<open>Who may see and delete a policy\<close>

text \<open>
  C33. A user deletes, or is shown, a policy only when the policy is associated with a project the
  user is a member of; in every other case the deletion fails and the state is the one before.
\<close>

theorem policy_delete_needs_membership:
  assumes "deletePolicyForUser V i userEmail s = (r, s')"
  shows "(r = Inr () \<longrightarrow> (\<exists>e p mine theirs. userEmail = Some e \<and> getPolicy i s = Inr p \<and>
            getUserProjectIds V e = Inr mine \<and>
            getProjectIdsByNames V (map (\<lambda>x. fst (snd x)) (rdf_releases p)) = Inr theirs \<and>
            set mine \<inter> set theirs \<noteq> {}) \<and> i \<notin> rul_id ` set (rules (rs_db s'))) \<and>
         (r \<noteq> Inr () \<longrightarrow> s' = s)"
proof (cases "getPolicyForUser V i userEmail s")
  case (Inl e)
  then show ?thesis
    using assms by (auto simp: deletePolicyForUser_def)
next
  case (Inr p)
  then have del: "deleteRule i s = (r, s')" and p: "getPolicy i s = Inr p"
    and access: "validateUserAccessToPolicy V p userEmail = Inr ()"
    using assms by (auto simp: deletePolicyForUser_def getPolicyForUser_def bind_r_def split: sum.splits)
  have "\<exists>e mine theirs. userEmail = Some e \<and> getUserProjectIds V e = Inr mine \<and>
          getProjectIdsByNames V (map (\<lambda>x. fst (snd x)) (rdf_releases p)) = Inr theirs \<and> set mine \<inter> set theirs \<noteq> {}"
    using access by (auto simp: validateUserAccessToPolicy_def truthy_def or_empty_def list_ex_iff
        split: if_splits sum.splits option.splits)
  moreover have "r = Inr () \<Longrightarrow> i \<notin> rul_id ` set (rules (rs_db s'))" "r \<noteq> Inr () \<Longrightarrow> s' = s"
    using del by (auto simp: deleteRule_def update_db_def delete_where_def split: sum.splits)
  ultimately show ?thesis
    using p by blast
qed


definition demo_shared_rules :: rule_state where
  "demo_shared_rules = demo_rules\<lparr>rs_db := (rs_db demo_rules)\<lparr>projects := [\<lparr>pj_id = 1, pj_name = ''one''\<rparr>]\<rparr>\<rparr>"


lemma policy_delete_needs_membership_witness:
  "fst (deletePolicyForUser demo_rule_env ''p'' (Some ''ann'') demo_shared_rules) = Inr () \<and>
   fst (deletePolicyForUser demo_rule_env ''p'' (Some ''bob'') demo_shared_rules) \<noteq> Inr () \<and>
   snd (deletePolicyForUser demo_rule_env ''p'' (Some ''bob'') demo_shared_rules) = demo_shared_rules \<and>
   ''p'' \<notin> rul_id ` set (rules (rs_db (snd (deletePolicyForUser demo_rule_env ''p'' (Some ''ann'') demo_shared_rules))))"
proof -
  let ?run = "\<lambda>m. deletePolicyForUser demo_rule_env ''p'' (Some m) demo_shared_rules"
  have "fst (?run ''ann'') = Inr ()" "fst (?run ''bob'') = Inl UnauthorizedException"
    by code_simp+
  then show ?thesis
    using policy_delete_needs_membership [of demo_rule_env "''p''" "Some ''ann''" demo_shared_rules]
      policy_delete_needs_membership [of demo_rule_env "''p''" "Some ''bob''" demo_shared_rules]
    by (metis Inl_Inr_False prod.collapse)
qed

section \<open>What the code does not promise\<close>

text \<open>
  A user who is a member of no project is listed every policy: the project filter is only applied
  to a non-empty list of projects.
\<close>

lemma no_projects_lists_all:
  assumes "truthy userEmail" "getUserProjectIds V (or_empty userEmail) = Inr []"
  shows "listPoliciesForUser V q userEmail s = Inr (listPolicies q None s)"
proof -
  have "load_rule q' (Some []) s = load_rule q' None s" for q'
    by (rule ext) (simp add: load_rule_def project_filter_def list_or_none_def)
  then show ?thesis
    using assms by (simp add: listPoliciesForUser_def listPolicies_def findAll_def)
qed

text \<open>
  A creation that fails on its associations leaves the rule behind, and an update that fails on
  them leaves the rule without the associations it had: neither runs in a transaction.
\<close>

definition demo_unknown_release :: RuleAssociationDto where
  "demo_unknown_release =
     \<lparr>as_releases = Some [\<lparr>ri_projectId = Some ''1'', ri_projectName = None, ri_version = ''9''\<rparr>],
      as_deviceTypeNames = None, as_osTypes = None, as_deviceIds = None\<rparr>"

lemma failed_creation_leaves_rule:
  "fst (createRule demo_rule_env (demo_policy_dto\<lparr>cr_association := demo_unknown_release\<rparr>) demo_rules) = Inl BadRequestException"
  "map rul_id (rules (rs_db (snd (createRule demo_rule_env (demo_policy_dto\<lparr>cr_association := demo_unknown_release\<rparr>) demo_rules)))) =
     [''p'', ''q'', ''r'', ''rule-5'']"
  by code_simp+

definition demo_update :: UpdateRuleDto where
  "demo_update = \<lparr>ur_name = None, ur_description = None, ur_association = Some demo_unknown_release,
     ur_isActive = None, ur_isPush = None, ur_rule = JUndef\<rparr>"

lemma failed_update_loses_associations:
  "fst (updateRule demo_rule_env ''p'' demo_update demo_rules) = Inl BadRequestException"
  "map rel_catalogId (releases_of_rule (rs_db demo_rules) ''p'') = [''a'', ''b'']"
  "releases_of_rule (rs_db (snd (updateRule demo_rule_env ''p'' demo_update demo_rules))) ''p'' = []"
  by code_simp+

text \<open>One release named once by the id and once by the name of its project counts as two.\<close>

definition demo_named_twice :: RuleAssociationDto where
  "demo_named_twice = demo_unknown_release\<lparr>as_releases := Some
     [\<lparr>ri_projectId = Some ''1'', ri_projectName = None, ri_version = ''1''\<rparr>,
      \<lparr>ri_projectId = None, ri_projectName = Some ''one'', ri_version = ''1''\<rparr>]\<rparr>"

lemma release_named_twice_refused:
  "fst (createRule demo_rule_env (demo_policy_dto\<lparr>cr_association := demo_named_twice\<rparr>) demo_shared_rules) =
     Inl BadRequestException"
  by code_simp

end
