(* ===== verification/Vault.thy ===== *)
theory Vault
  imports Permissions
begin

text \<open>
  The client of HashiCorp Vault (\<open>libs/common/src/vault/vault.service.ts\<close>): the references it
  hands out for stored secrets, the operations on the fields of a secret and the start of the
  module. The server is not code of the repository: it is modelled by the fields it holds per
  mount and secret name and by the fault it answers a request with, if any. A secret name is a
  segment of an URL and taken to need no escaping. The contract the clients rely on is the locale
  \<open>secret_store\<close>.
\<close>

section \<open>Configuration and server\<close>

datatype VaultSecretField = ssh_key | https_password | config_value

fun field_text :: "VaultSecretField \<Rightarrow> string" where
  "field_text ssh_key = ''ssh_key''"
| "field_text https_password = ''https_password''"
| "field_text config_value = ''config_value''"

record vault_config =
  VAULT_ADDR :: "string option"
  VAULT_MOUNT_PATH :: "string option"
  VAULT_TOKEN :: "string option"
  VAULT_DEV_ROOT_TOKEN_ID :: "string option"
  VAULT_ROLE_ID :: "string option"
  VAULT_SECRET_ID :: "string option"
  approle_token :: "string \<Rightarrow> string \<Rightarrow> string"

datatype vault_request =
    GetData string string
  | PostData string string
  | PostMetadata string string
  | DeleteMetadata string string
  | GetMounts
  | PostMount string
  | Login

text \<open>A response with a status, or a failure below HTTP with its \<open>code\<close>.\<close>

datatype http_fault = HttpStatus nat | NetCode string

record vault_state =
  vaultAddr :: string
  token :: "string option"
  kv :: "string \<times> string \<Rightarrow> (string \<times> string) list option"
  kv_metadata :: "string \<times> string \<Rightarrow> (string \<times> string) list"
  mounts :: "string list"
  vfault :: "string \<Rightarrow> vault_request \<Rightarrow> http_fault option"

definition request_fault :: "vault_state \<Rightarrow> vault_request \<Rightarrow> http_fault option" where
  "request_fault vs r = vfault vs (vaultAddr vs) r"

definition strip_slash :: "string \<Rightarrow> string" where
  "strip_slash s = (if s \<noteq> [] \<and> last s = CHR ''/'' then butlast s else s)"

definition mountPath :: "vault_config \<Rightarrow> string" where
  "mountPath V = (case VAULT_MOUNT_PATH V of None \<Rightarrow> ''getapp-secrets'' | Some m \<Rightarrow> m)"

text \<open>\<open>x?.trim()\<close>, with the empty string for what is falsy.\<close>

definition trimmed :: "string option \<Rightarrow> string" where
  "trimmed x = (case x of None \<Rightarrow> [] | Some s \<Rightarrow> js_trim s)"

definition static_token :: "vault_config \<Rightarrow> string" where
  "static_token V = (if trimmed (VAULT_TOKEN V) \<noteq> [] then trimmed (VAULT_TOKEN V) else trimmed (VAULT_DEV_ROOT_TOKEN_ID V))"

definition isEnabled :: "vault_config \<Rightarrow> bool" where
  "isEnabled V \<longleftrightarrow>
     static_token V \<noteq> [] \<or> (trimmed (VAULT_ROLE_ID V) \<noteq> [] \<and> trimmed (VAULT_SECRET_ID V) \<noteq> [])"

section \<open>References\<close>

definition VAULT_REF_PREFIX :: string where
  "VAULT_REF_PREFIX = ''vault:''"

definition isVaultRef :: "string option \<Rightarrow> bool" where
  "isVaultRef v = (case v of None \<Rightarrow> False | Some s \<Rightarrow> starts_with VAULT_REF_PREFIX s)"

definition vault_ref :: "vault_config \<Rightarrow> string \<Rightarrow> VaultSecretField \<Rightarrow> string" where
  "vault_ref V secretName f = VAULT_REF_PREFIX @ mountPath V @ ''/'' @ secretName @ ''#'' @ field_text f"

text \<open>
  \<open>slice(0, i)\<close> and \<open>slice(i + 1)\<close> at the last index of a character; the index of a missing one
  is -1, so \<open>slice(0, -1)\<close> drops the last character and \<open>slice(0)\<close> is everything.
\<close>

definition before_last :: "char \<Rightarrow> string \<Rightarrow> string" where
  "before_last c s = (if c \<in> set s then rev (tl (dropWhile (\<lambda>x. x \<noteq> c) (rev s))) else butlast s)"

definition after_last :: "char \<Rightarrow> string \<Rightarrow> string" where
  "after_last c s = rev (takeWhile (\<lambda>x. x \<noteq> c) (rev s))"

definition parseVaultRef :: "string \<Rightarrow> string \<times> string \<times> string" where
  "parseVaultRef ref =
     (let r = drop (length VAULT_REF_PREFIX) ref; path = before_last (CHR ''#'') r
      in (before_last (CHR ''/'') path, after_last (CHR ''/'') path, after_last (CHR ''#'') r))"

section \<open>Operations\<close>

definition fetchRawSecrets :: "vault_config \<Rightarrow> string \<Rightarrow> vault_state \<Rightarrow> (string \<times> string) list option result" where
  "fetchRawSecrets V secretName vs =
     (case request_fault vs (GetData (mountPath V) secretName) of
        Some (HttpStatus n) \<Rightarrow> if n = 404 then Inr None else Inl VaultOperationError
      | Some (NetCode _) \<Rightarrow> Inl VaultOperationError
      | None \<Rightarrow> Inr (kv vs (mountPath V, secretName)))"

definition write_fields :: "vault_config \<Rightarrow> string \<Rightarrow> (string \<times> string) list \<Rightarrow> vault_state \<Rightarrow> vault_state" where
  "write_fields V secretName o1 vs = vs\<lparr>kv := (kv vs)((mountPath V, secretName) := Some o1)\<rparr>"

definition storeSecret ::
  "vault_config \<Rightarrow> string \<Rightarrow> VaultSecretField \<Rightarrow> string \<Rightarrow> (string \<times> string) list \<Rightarrow> vault_state \<Rightarrow>
   string result \<times> vault_state" where
  "storeSecret V secretName f x metadata vs =
     (if secretName = [] \<or> \<not> isEnabled V then (Inl ErrorException, vs)
      else (case fetchRawSecrets V secretName vs of
          Inl e \<Rightarrow> (Inl e, vs)
        | Inr existing \<Rightarrow>
            if request_fault vs (PostData (mountPath V) secretName) \<noteq> None then (Inl VaultOperationError, vs)
            else
              let vs1 = write_fields V secretName
                    (alist_put (field_text f) x (case existing of None \<Rightarrow> [] | Some o1 \<Rightarrow> o1)) vs;
                  vs2 = (if metadata \<noteq> [] \<and> request_fault vs (PostMetadata (mountPath V) secretName) = None
                         then vs1\<lparr>kv_metadata := (kv_metadata vs1)((mountPath V, secretName) := metadata)\<rparr>
                         else vs1)
              in (Inr (vault_ref V secretName f), vs2)))"

definition deleteSecret ::
  "vault_config \<Rightarrow> string \<Rightarrow> VaultSecretField \<Rightarrow> vault_state \<Rightarrow> unit result \<times> vault_state" where
  "deleteSecret V secretName f vs =
     (if \<not> isEnabled V then (Inr (), vs)
      else (case fetchRawSecrets V secretName vs of
          Inl e \<Rightarrow> (Inl e, vs)
        | Inr None \<Rightarrow> (Inr (), vs)
        | Inr (Some existing) \<Rightarrow>
            let rest = alist_del (field_text f) existing in
            if rest = [] then
              (Inr (), if request_fault vs (DeleteMetadata (mountPath V) secretName) = None
                       then vs\<lparr>kv := (kv vs)((mountPath V, secretName) := None),
                               kv_metadata := (kv_metadata vs)((mountPath V, secretName) := [])\<rparr>
                       else vs)
            else if request_fault vs (PostData (mountPath V) secretName) \<noteq> None then (Inl ErrorException, vs)
            else (Inr (), write_fields V secretName rest vs)))"

definition resolveSecret :: "vault_config \<Rightarrow> vault_state \<Rightarrow> string option \<Rightarrow> string option result" where
  "resolveSecret V vs v =
     (if \<not> truthy v \<or> \<not> isVaultRef v then Inr v
      else if \<not> isEnabled V then Inl ErrorException
      else (case parseVaultRef (the v) of (m, i, f) \<Rightarrow>
          if request_fault vs (GetData m i) \<noteq> None then Inl ErrorException
          else (case kv vs (m, i) of None \<Rightarrow> Inl ErrorException | Some o1 \<Rightarrow> Inr (map_of o1 f))))"

section \<open>The start of the module\<close>

definition authenticate :: "vault_config \<Rightarrow> vault_state \<Rightarrow> http_fault option \<times> vault_state" where
  "authenticate V vs =
     (if static_token V \<noteq> [] then (None, vs\<lparr>token := Some (static_token V)\<rparr>)
      else (case request_fault vs Login of
          Some e \<Rightarrow> (Some e, vs)
        | None \<Rightarrow> (None, vs\<lparr>token := Some (approle_token V (trimmed (VAULT_ROLE_ID V)) (trimmed (VAULT_SECRET_ID V)))\<rparr>)))"

definition ensureMount :: "vault_config \<Rightarrow> vault_state \<Rightarrow> http_fault option \<times> vault_state" where
  "ensureMount V vs =
     (let forgive = (\<lambda>e. if e = HttpStatus 403 then None else Some e) in
      case request_fault vs GetMounts of
        Some e \<Rightarrow> (forgive e, vs)
      | None \<Rightarrow>
          if mountPath V \<in> set (mounts vs) then (None, vs)
          else (case request_fault vs (PostMount (mountPath V)) of
              Some e \<Rightarrow> (forgive e, vs)
            | None \<Rightarrow> (None, vs\<lparr>mounts := mounts vs @ [mountPath V]\<rparr>)))"

definition candidates :: "vault_config \<Rightarrow> string list" where
  "candidates V =
     (if trimmed (VAULT_ADDR V) \<noteq> [] then [strip_slash (trimmed (VAULT_ADDR V))]
      else [''http://vault:8200'', ''http://localhost:8200''])"

definition unreachable :: "http_fault \<Rightarrow> bool" where
  "unreachable e \<longleftrightarrow> e = NetCode ''ENOTFOUND'' \<or> e = NetCode ''ECONNREFUSED''"

fun try_candidates :: "vault_config \<Rightarrow> string list \<Rightarrow> vault_state \<Rightarrow> unit result \<times> vault_state" where
  "try_candidates V [] vs = (Inr (), vs)"
| "try_candidates V (a # as) vs =
     (case authenticate V (vs\<lparr>vaultAddr := a\<rparr>) of
        (Some e, vs1) \<Rightarrow> if unreachable e \<and> as \<noteq> [] then try_candidates V as vs1 else (Inl ErrorException, vs1)
      | (None, vs1) \<Rightarrow>
          (case ensureMount V vs1 of
             (Some e, vs2) \<Rightarrow> if unreachable e \<and> as \<noteq> [] then try_candidates V as vs2 else (Inl ErrorException, vs2)
           | (None, vs2) \<Rightarrow> (Inr (), vs2)))"

definition onModuleInit :: "vault_config \<Rightarrow> vault_state \<Rightarrow> unit result \<times> vault_state" where
  "onModuleInit V vs = (if isEnabled V then try_candidates V (candidates V) vs else (Inr (), vs))"


section \<open>The contract of a store of secrets\<close>

text \<open>
  What the clients rely on: a stored value is found under the reference returned for it, unless
  the look-up fails, the reference depends on the name alone, and other names keep what they had.
\<close>

locale secret_store =
  fixes put :: "string \<Rightarrow> string \<Rightarrow> 'm \<Rightarrow> 's \<Rightarrow> string result \<times> 's"
    and get :: "'s \<Rightarrow> string option \<Rightarrow> string option result"
    and ref :: "string \<Rightarrow> string"
    and good :: "string \<Rightarrow> bool"
  assumes put_ref: "put n x m s = (Inr r, s') \<Longrightarrow> r = ref n"
    and put_get: "good n \<Longrightarrow> put n x m s = (Inr r, s') \<Longrightarrow> get s' (Some r) = Inr w \<Longrightarrow> w = Some x"
    and put_other: "good n \<Longrightarrow> good n' \<Longrightarrow> n' \<noteq> n \<Longrightarrow> get (snd (put n x m s)) (Some (ref n')) = get s (Some (ref n'))"
begin

lemma put_get_ref:
  "good n \<Longrightarrow> fst (put n x m s) = Inr r \<Longrightarrow> get (snd (put n x m s)) (Some (ref n)) = Inr w \<Longrightarrow> w = Some x"
  using put_ref [of n x m s] put_get [of n x m s] by (metis prod.collapse)

text \<open>Storing one value after the other, the first failure ends it.\<close>

fun put_all_secrets :: "(string \<times> string \<times> 'm) list \<Rightarrow> 's \<Rightarrow> unit result \<times> 's" where
  "put_all_secrets [] s = (Inr (), s)"
| "put_all_secrets ((n, x, m) # kvs) s =
     (case put n x m s of (Inl e, s1) \<Rightarrow> (Inl e, s1) | (Inr _, s1) \<Rightarrow> put_all_secrets kvs s1)"

lemma put_all_other:
  "good n' \<Longrightarrow> \<forall>n\<in>fst ` set kvs. good n \<and> n \<noteq> n' \<Longrightarrow>
   get (snd (put_all_secrets kvs s)) (Some (ref n')) = get s (Some (ref n'))"
proof (induction kvs s rule: put_all_secrets.induct)
  case (2 n x m kvs s)
  then have one: "get (snd (put n x m s)) (Some (ref n')) = get s (Some (ref n'))"
    by (intro put_other) auto
  show ?case
  proof (cases "put n x m s")
    case (Pair r s1)
    with 2 one show ?thesis
      by (cases r) auto
  qed
qed simp

lemma put_all_get:
  "distinct (map fst kvs) \<Longrightarrow> \<forall>n\<in>fst ` set kvs. good n \<Longrightarrow> fst (put_all_secrets kvs s) = Inr () \<Longrightarrow>
   (n, x, m) \<in> set kvs \<Longrightarrow> get (snd (put_all_secrets kvs s)) (Some (ref n)) = Inr w \<Longrightarrow> w = Some x"
proof (induction kvs s rule: put_all_secrets.induct)
  case (2 n' y m' kvs s)
  obtain r s1 where put: "put n' y m' s = (Inr r, s1)"
    using "2.prems"(3) by (cases "put n' y m' s"; cases "fst (put n' y m' s)") auto
  show ?case
  proof (cases "n = n'")
    case True
    then have x: "x = y"
      using "2.prems"(1,4) by (auto simp: image_iff)
    have "n' \<notin> fst ` set kvs"
      using "2.prems"(1) by simp
    then have "\<forall>n\<in>fst ` set kvs. good n \<and> n \<noteq> n'"
      using "2.prems"(2) by auto
    from put_all_other [OF _ this, of s1] have "get s1 (Some (ref n')) = Inr w"
      using "2.prems"(2,5) put True by simp
    then show ?thesis
      using put_get_ref [of n' y m' s r w] put "2.prems"(2) x by simp
  next
    case False
    then show ?thesis
      using 2 put by auto
  qed
qed simp

end

section \<open>The client satisfies the contract\<close>

lemma before_last_eq: "c \<notin> set b \<Longrightarrow> before_last c (a @ c # b) = a"
  by (simp add: before_last_def dropWhile_append)

lemma after_last_eq: "c \<notin> set b \<Longrightarrow> after_last c (a @ c # b) = b"
  by (auto simp: after_last_def takeWhile_append rev_swap [symmetric] takeWhile_eq_all_conv)

definition plain_name :: "string \<Rightarrow> bool" where
  "plain_name n \<longleftrightarrow> n \<noteq> [] \<and> CHR ''/'' \<notin> set n"

lemma hash_not_in_field: "CHR ''#'' \<notin> set (field_text f)"
  by (cases f) auto

lemma parse_vault_ref:
  assumes "plain_name n"
  shows "parseVaultRef (vault_ref V n f) = (mountPath V, n, field_text f)"
proof -
  have ref: "drop (length VAULT_REF_PREFIX) (vault_ref V n f) =
      (mountPath V @ CHR ''/'' # n) @ CHR ''#'' # field_text f"
    by (simp add: vault_ref_def)
  show ?thesis
    using assms unfolding parseVaultRef_def ref Let_def
    by (simp only: before_last_eq [OF hash_not_in_field] after_last_eq [OF hash_not_in_field])
      (simp add: before_last_eq after_last_eq plain_name_def)
qed

lemma vault_ref_is_ref [simp]: "isVaultRef (Some (vault_ref V n f))"
  by (simp add: isVaultRef_def vault_ref_def)

lemma truthy_vault_ref [simp]: "truthy (Some (vault_ref V n f))"
  by (simp add: truthy_def vault_ref_def VAULT_REF_PREFIX_def)

lemma storeSecret_frame:
  "vfault (snd (storeSecret V n f x md vs)) = vfault vs" "vaultAddr (snd (storeSecret V n f x md vs)) = vaultAddr vs"
  by (auto simp: storeSecret_def write_fields_def Let_def split: sum.splits)

lemma storeSecret_Inr:
  assumes "storeSecret V n f x md vs = (Inr r, vs')"
  shows "isEnabled V" "n \<noteq> []" "r = vault_ref V n f"
    "kv vs' = (kv vs)((mountPath V, n) := Some (alist_put (field_text f) x
       (case fetchRawSecrets V n vs of Inr (Some o1) \<Rightarrow> o1 | _ \<Rightarrow> [])))"
  using assms by (auto simp: storeSecret_def write_fields_def Let_def split: if_splits sum.splits option.splits)

lemma kv_storeSecret_other:
  "p \<noteq> (mountPath V, n) \<Longrightarrow> kv (snd (storeSecret V n f x md vs)) p = kv vs p"
  by (auto simp: storeSecret_def write_fields_def Let_def split: sum.splits)

lemma resolve_ref:
  "plain_name n \<Longrightarrow> resolveSecret V vs (Some (vault_ref V n f)) =
   (if \<not> isEnabled V \<or> request_fault vs (GetData (mountPath V) n) \<noteq> None then Inl ErrorException
    else case kv vs (mountPath V, n) of None \<Rightarrow> Inl ErrorException | Some o1 \<Rightarrow> Inr (map_of o1 (field_text f)))"
  by (simp add: resolveSecret_def parse_vault_ref)

lemma store_resolve:
  assumes "plain_name n" "storeSecret V n f x md vs = (Inr r, vs')" "resolveSecret V vs' (Some r) = Inr w"
  shows "w = Some x"
  using assms(3) storeSecret_Inr [OF assms(2)] resolve_ref [OF assms(1)] by (auto split: if_splits)

lemma resolve_other:
  assumes "plain_name n" "plain_name m" "m \<noteq> n"
  shows "resolveSecret V (snd (storeSecret V n f x md vs)) (Some (vault_ref V m g)) =
         resolveSecret V vs (Some (vault_ref V m g))"
  using assms by (simp add: resolve_ref kv_storeSecret_other request_fault_def storeSecret_frame)

interpretation config_vault: secret_store
  "\<lambda>n. storeSecret V n config_value" "resolveSecret V" "\<lambda>n. vault_ref V n config_value" plain_name for V
proof unfold_locales
  fix n x m s r s'
  assume "storeSecret V n config_value x m s = (Inr r, s')"
  then show "r = vault_ref V n config_value"
    by (rule storeSecret_Inr(3))
qed (rule store_resolve resolve_other; assumption)+


section \<open>A map from names and fields to secrets\<close>

definition secrets_of :: "vault_config \<Rightarrow> vault_state \<Rightarrow> string \<times> VaultSecretField \<Rightarrow> string option" where
  "secrets_of V vs = (\<lambda>(n, f). case kv vs (mountPath V, n) of None \<Rightarrow> None | Some o1 \<Rightarrow> map_of o1 (field_text f))"

definition no_faults :: "vault_state \<Rightarrow> bool" where
  "no_faults vs \<longleftrightarrow> (\<forall>r. request_fault vs r = None)"

lemma field_text_inject [simp]: "field_text f = field_text g \<longleftrightarrow> f = g"
  by (cases f; cases g) auto

lemma secrets_store:
  assumes "isEnabled V" "n \<noteq> []" "no_faults vs"
  shows "fst (storeSecret V n f x md vs) = Inr (vault_ref V n f)"
    and "secrets_of V (snd (storeSecret V n f x md vs)) = (secrets_of V vs)((n, f) \<mapsto> x)"
proof -
  from assms show "fst (storeSecret V n f x md vs) = Inr (vault_ref V n f)"
    by (auto simp: storeSecret_def fetchRawSecrets_def no_faults_def Let_def)
  from assms show "secrets_of V (snd (storeSecret V n f x md vs)) = (secrets_of V vs)((n, f) \<mapsto> x)"
    by (auto simp: storeSecret_def fetchRawSecrets_def no_faults_def Let_def write_fields_def fun_eq_iff
        secrets_of_def split: option.splits)
qed

lemma secrets_delete:
  assumes "isEnabled V" "no_faults vs"
  shows "fst (deleteSecret V n f vs) = Inr ()"
    and "secrets_of V (snd (deleteSecret V n f vs)) = (secrets_of V vs)((n, f) := None)"
proof -
  have none: "alist_del k o1 = [] \<Longrightarrow> map_of o1 k' = (if k' = k then map_of o1 k else None)" for k k' o1
    by (metis fun_upd_apply map_of.simps(1) map_of_alist_del)
  from assms show "fst (deleteSecret V n f vs) = Inr ()"
    by (auto simp: deleteSecret_def fetchRawSecrets_def no_faults_def Let_def split: option.splits)
  from assms show "secrets_of V (snd (deleteSecret V n f vs)) = (secrets_of V vs)((n, f) := None)"
    by (auto simp: deleteSecret_def fetchRawSecrets_def no_faults_def Let_def write_fields_def fun_eq_iff
        secrets_of_def none split: option.splits)
qed

text \<open>
  C22. Against a server that answers, the client implements a map from secret names and fields to
  values: storing a field returns its reference and changes nothing but that field, the reference
  resolves to the value, and deleting a field removes it and keeps the other fields of the secret,
  whether or not it was the last one. The reference survives being parsed even when the mount path
  contains slashes.
\<close>

theorem vault_refines_map:
  assumes "isEnabled V" "plain_name n" "no_faults vs"
  shows "fst (storeSecret V n f x md vs) = Inr (vault_ref V n f) \<and>
         secrets_of V (snd (storeSecret V n f x md vs)) = (secrets_of V vs)((n, f) \<mapsto> x) \<and>
         resolveSecret V (snd (storeSecret V n f x md vs)) (Some (vault_ref V n f)) = Inr (Some x) \<and>
         fst (deleteSecret V n f vs) = Inr () \<and>
         secrets_of V (snd (deleteSecret V n f vs)) = (secrets_of V vs)((n, f) := None)"
proof -
  have n: "n \<noteq> []"
    using assms(2) by (simp add: plain_name_def)
  let ?vs = "snd (storeSecret V n f x md vs)"
  have "request_fault ?vs r = None" for r
    using assms(3) by (simp add: request_fault_def storeSecret_frame no_faults_def)
  moreover have "secrets_of V ?vs (n, f) = Some x"
    using secrets_store [OF assms(1) n assms(3)] by simp
  ultimately have "resolveSecret V ?vs (Some (vault_ref V n f)) = Inr (Some x)"
    using assms(1) by (auto simp: resolve_ref [OF assms(2)] secrets_of_def split: option.splits)
  then show ?thesis
    using secrets_store [OF assms(1) n assms(3)] secrets_delete [OF assms(1,3)] by simp
qed

definition demo_vault_config :: vault_config where
  "demo_vault_config = \<lparr>VAULT_ADDR = None, VAULT_MOUNT_PATH = Some ''a/b'', VAULT_TOKEN = Some ''t'',
     VAULT_DEV_ROOT_TOKEN_ID = None, VAULT_ROLE_ID = None, VAULT_SECRET_ID = None, approle_token = (\<lambda>a b. a @ b)\<rparr>"

definition demo_vault :: vault_state where
  "demo_vault = \<lparr>vaultAddr = ''http://vault:8200'', token = None, kv = (\<lambda>_. None), kv_metadata = (\<lambda>_. []),
     mounts = [], vfault = (\<lambda>_ _. None)\<rparr>"

lemma demo_vault_ok: "isEnabled demo_vault_config" "no_faults demo_vault"
  by (code_simp, simp add: no_faults_def request_fault_def demo_vault_def)

lemma vault_refines_map_witness:
  "resolveSecret demo_vault_config (snd (storeSecret demo_vault_config ''s'' ssh_key ''k'' [] demo_vault))
     (Some ''vault:a/b/s#ssh_key'') = Inr (Some ''k'')"
proof -
  have "plain_name ''s''" "vault_ref demo_vault_config ''s'' ssh_key = ''vault:a/b/s#ssh_key''"
    by code_simp+
  then show ?thesis
    using vault_refines_map [OF demo_vault_ok(1), of "''s''" demo_vault ssh_key "''k''" "[]"] demo_vault_ok(2)
    by simp
qed

text \<open>A secret name with a slash is stored but cannot be resolved: the reference is cut at the last slash.\<close>

lemma slash_name_unresolvable:
  "fst (storeSecret demo_vault_config ''p/q'' config_value ''k'' [] demo_vault) = Inr ''vault:a/b/p/q#config_value''"
  "resolveSecret demo_vault_config (snd (storeSecret demo_vault_config ''p/q'' config_value ''k'' [] demo_vault))
     (Some ''vault:a/b/p/q#config_value'') = Inl ErrorException"
  by code_simp+

text \<open>
  The start of the module succeeds when the last candidate address does, whatever went wrong below
  HTTP with the ones before it.
\<close>

lemma second_candidate_used:
  assumes "static_token V \<noteq> []" "trimmed (VAULT_ADDR V) = []" "unreachable e"
    and "vfault vs ''http://vault:8200'' GetMounts = Some e"
    and "vfault vs ''http://localhost:8200'' = (\<lambda>_. None)"
  shows "fst (onModuleInit V vs) = Inr () \<and> vaultAddr (snd (onModuleInit V vs)) = ''http://localhost:8200''"
proof -
  have "e \<noteq> HttpStatus 403"
    using assms(3) by (auto simp: unreachable_def)
  then show ?thesis
    using assms by (simp add: onModuleInit_def isEnabled_def candidates_def authenticate_def ensureMount_def
        request_fault_def Let_def)
qed

end
