(* ===== verification/Config_Values.thy ===== *)
theory Config_Values
  imports Vault "HOL-Library.Countable"
begin

text \<open>
  The values of configuration groups (\<open>apps/upload/src/config/config.service.ts\<close>): the tree a
  group's YAML parses to, dotted paths into it, the masking of sensitive values and the semantic
  version of a revision. Parsing and printing YAML (\<open>js-yaml\<close>) are parameters of the theories
  that need them. Values that are no JSON (dates) and the properties of arrays and strings other
  than their elements are not modelled, and an object lists its keys in the order of insertion.
\<close>

section \<open>Texts of values\<close>

text \<open>\<open>String(n)\<close>: plain decimal notation, with up to 17 digits after the point.\<close>

fun fraction_digits :: "nat \<Rightarrow> rat \<Rightarrow> string" where
  "fraction_digits 0 q = []"
| "fraction_digits (Suc n) q =
     (if q = 0 then [] else show_nat (nat \<lfloor>q * 10\<rfloor>) @ fraction_digits n (q * 10 - of_int \<lfloor>q * 10\<rfloor>))"

definition decimal_text :: "rat \<Rightarrow> string" where
  "decimal_text q =
     (let a = \<bar>q\<bar>; i = \<lfloor>a\<rfloor> in
      (if q < 0 then ''-'' else []) @ show_nat (nat i) @
      (if a = of_int i then [] else ''.'' @ fraction_digits 17 (a - of_int i)))"

fun number_text :: "jsnum \<Rightarrow> string" where
  "number_text NaN = ''NaN''"
| "number_text PosInf = ''Infinity''"
| "number_text NegInf = ''-Infinity''"
| "number_text (Fin q) = decimal_text q"

text \<open>\<open>String(v)\<close>.\<close>

fun js_String :: "json \<Rightarrow> string" where
  "js_String JUndef = ''undefined''"
| "js_String JNull = ''null''"
| "js_String (JBool b) = (if b then ''true'' else ''false'')"
| "js_String (JNum n) = number_text n"
| "js_String (JStr s) = s"
| "js_String (JArr xs) = join_char (CHR '','') (map (\<lambda>x. if is_nullish x then [] else js_String x) xs)"
| "js_String (JObj _) = ''[object Object]''"

text \<open>\<open>JSON.stringify(v)\<close>, with \<open>undefined\<close> for what has no text.\<close>

definition hex_digit :: "nat \<Rightarrow> char" where
  "hex_digit n = ''0123456789abcdef'' ! n"

definition escaped :: "char \<Rightarrow> string" where
  "escaped c =
     (let n = of_char c :: nat in
      if n = 34 then [CHR 0x5C, CHR 0x22]
      else if n = 92 then [CHR 0x5C, CHR 0x5C]
      else if n = 8 then [CHR 0x5C, CHR ''b'']
      else if n = 9 then [CHR 0x5C, CHR ''t'']
      else if n = 10 then [CHR 0x5C, CHR ''n'']
      else if n = 12 then [CHR 0x5C, CHR ''f'']
      else if n = 13 then [CHR 0x5C, CHR ''r'']
      else if n < 32 then [CHR 0x5C, CHR ''u'', CHR ''0'', CHR ''0'', hex_digit (n div 16), hex_digit (n mod 16)]
      else [c])"

definition quoted :: "string \<Rightarrow> string" where
  "quoted s = CHR 0x22 # concat (map escaped s) @ [CHR 0x22]"

fun JSON_stringify :: "json \<Rightarrow> string" where
  "JSON_stringify JUndef = ''undefined''"
| "JSON_stringify JNull = ''null''"
| "JSON_stringify (JBool b) = (if b then ''true'' else ''false'')"
| "JSON_stringify (JNum n) = (if js_is_finite n then number_text n else ''null'')"
| "JSON_stringify (JStr s) = quoted s"
| "JSON_stringify (JArr xs) =
     ''['' @ join_char (CHR '','') (map (\<lambda>x. if x = JUndef then ''null'' else JSON_stringify x) xs) @ '']''"
| "JSON_stringify (JObj o1) =
     ''{'' @ join_char (CHR '','')
       (map (\<lambda>(k, t). quoted k @ '':'' @ t)
         (filter (\<lambda>(k, t). t \<noteq> ''undefined'') (map (\<lambda>(k, v). (k, JSON_stringify v)) o1))) @ ''}''"

section \<open>Dotted paths\<close>

definition path_keys :: "string \<Rightarrow> string list" where
  "path_keys path = split_char (CHR ''.'') path"

fun get_path :: "json \<Rightarrow> string list \<Rightarrow> json" where
  "get_path v [] = v"
| "get_path v (k # ks) = get_path (if is_nullish v then JUndef else js_member v k) ks"

definition getByPath :: "json \<Rightarrow> string \<Rightarrow> json" where
  "getByPath v path = get_path v (path_keys path)"

text \<open>A step into something that is no object replaces it by an empty object.\<close>

definition object_or_new :: "json \<Rightarrow> json" where
  "object_or_new v = (if is_object v then v else JObj [])"

fun set_path :: "json \<Rightarrow> string list \<Rightarrow> json \<Rightarrow> json" where
  "set_path v [] x = x"
| "set_path v (k # ks) x = js_assign (object_or_new v) k (set_path (js_member (object_or_new v) k) ks x)"

definition setByPath :: "json \<Rightarrow> string \<Rightarrow> json \<Rightarrow> json" where
  "setByPath v path x = set_path v (path_keys path) x"

fun delete_path :: "json \<Rightarrow> string list \<Rightarrow> json" where
  "delete_path v [] = v"
| "delete_path v [k] = js_delete v k"
| "delete_path v (k # ks) =
     (if is_nullish (js_member v k) then v else js_assign v k (delete_path (js_member v k) ks))"

definition deleteByPath :: "json \<Rightarrow> string \<Rightarrow> json" where
  "deleteByPath v path = delete_path v (path_keys path)"

lemma path_keys_not_Nil [simp]: "path_keys p \<noteq> []"
  by (simp add: path_keys_def)

lemma get_path_undef [simp]: "get_path JUndef ks = JUndef"
  by (induction ks) auto

lemma get_path_null [simp]: "get_path JNull (k # ks) = JUndef"
  by simp

section \<open>Masking\<close>

definition mask_text :: json where
  "mask_text = JStr ''***''"

definition mask_path :: "string list \<Rightarrow> json \<Rightarrow> json" where
  "mask_path p v = (if is_nullish (get_path v p) then v else set_path v p mask_text)"

definition mask_keys :: "string list \<Rightarrow> json \<Rightarrow> json" where
  "mask_keys sensitiveKeys v = fold (\<lambda>k. mask_path (path_keys k)) sensitiveKeys v"

text \<open>What \<open>upsertGroup\<close> does with a masked value it is given back.\<close>

definition restore_path :: "json \<Rightarrow> string list \<Rightarrow> json \<Rightarrow> json" where
  "restore_path existing p v =
     (if get_path v p = mask_text then
        (if is_nullish (get_path existing p) then delete_path v p else set_path v p (get_path existing p))
      else v)"

definition restore_keys :: "string list \<Rightarrow> json \<Rightarrow> json \<Rightarrow> json" where
  "restore_keys sensitiveKeys existing v = fold (\<lambda>k. restore_path existing (path_keys k)) sensitiveKeys v"


section \<open>Masking hides the sensitive values\<close>

text \<open>
  \<open>agree S v w\<close>: the two values differ at most below the paths in \<open>S\<close>, where both have some
  value.
\<close>

inductive agree :: "(string list \<Rightarrow> bool) \<Rightarrow> json \<Rightarrow> json \<Rightarrow> bool" where
  same: "agree S v v"
| hidden: "S [] \<Longrightarrow> \<not> is_nullish v \<Longrightarrow> \<not> is_nullish w \<Longrightarrow> agree S v w"
| members: "list_all2 (\<lambda>x y. fst x = fst y \<and> agree (\<lambda>p. S (fst x # p)) (snd x) (snd y)) o1 o2 \<Longrightarrow>
    distinct (map fst o1) \<Longrightarrow> agree S (JObj o1) (JObj o2)"

lemma agree_nullish: "agree S v w \<Longrightarrow> is_nullish v = is_nullish w"
  by (erule agree.cases) auto

lemma agree_null_eq: "agree S v w \<Longrightarrow> is_nullish v \<Longrightarrow> v = w"
  by (erule agree.cases) auto

lemma agree_nothing: "agree S v w \<Longrightarrow> (\<And>p. \<not> S p) \<Longrightarrow> v = w"
proof (induction rule: agree.induct)
  case (members S o1 o2)
  then have "list_all2 (=) o1 o2"
    by (auto elim!: list_all2_mono simp: prod_eq_iff)
  then show ?case
    by (simp add: list.rel_eq)
qed auto

lemma same_keys:
  "list_all2 (\<lambda>x y. fst x = fst y \<and> P x y) o1 o2 \<Longrightarrow> map fst o1 = map fst o2"
  by (induction o1 o2 rule: list_all2_induct) auto

lemma obj_get_members:
  "list_all2 (\<lambda>x y. fst x = fst y \<and> agree (T (fst x)) (snd x) (snd y)) o1 o2 \<Longrightarrow>
   agree (T k) (obj_get o1 k) (obj_get o2 k)"
proof (induction o1 o2 rule: list_all2_induct)
  case (Cons x o1 y o2)
  then show ?case
    by (cases x; cases y) (auto simp: obj_get_def)
qed (simp add: agree.same)

lemma members_same:
  assumes "list_all2 (\<lambda>x y. fst x = fst y \<and> agree (T (fst x)) (snd x) (snd y)) o1 o2"
    and "\<And>k. k \<in> set (map fst o1) \<Longrightarrow> T' k = T k"
  shows "list_all2 (\<lambda>x y. fst x = fst y \<and> agree (T' (fst x)) (snd x) (snd y)) o1 o2"
proof (rule list.rel_mono_strong [OF assms(1)])
  fix x y
  assume x: "x \<in> set o1" and xy: "fst x = fst y \<and> agree (T (fst x)) (snd x) (snd y)"
  from x have "fst x \<in> set (map fst o1)"
    by auto
  then have "T' (fst x) = T (fst x)"
    by (rule assms(2))
  with xy show "fst x = fst y \<and> agree (T' (fst x)) (snd x) (snd y)"
    by metis
qed

lemma members_put:
  assumes "list_all2 (\<lambda>x y. fst x = fst y \<and> agree (T (fst x)) (snd x) (snd y)) o1 o2"
    and "distinct (map fst o1)" "agree (T' k) v w" "\<And>k'. k' \<noteq> k \<Longrightarrow> T' k' = T k'"
  shows "list_all2 (\<lambda>x y. fst x = fst y \<and> agree (T' (fst x)) (snd x) (snd y)) (alist_put k v o1) (alist_put k w o2)"
  using assms(1,2)
proof (induction o1 o2 rule: list_all2_induct)
  case (Cons x o1 y o2)
  obtain a b c d where xy: "x = (a, b)" "y = (c, d)"
    by fastforce
  have rest: "list_all2 (\<lambda>x y. fst x = fst y \<and> agree (T' (fst x)) (snd x) (snd y)) o1 o2" if "k \<notin> set (map fst o1)"
    by (rule members_same [OF Cons.hyps(2)]) (use that assms(4) in metis)
  show ?case
    using Cons xy assms(3,4) rest by auto
qed (use assms(3) in simp)


lemma mask_Nil: "mask_path [] v = (if is_nullish v then v else mask_text)"
  by (simp add: mask_path_def)

lemma js_assign_not_nullish: "\<not> is_nullish v \<Longrightarrow> \<not> is_nullish (js_assign v k x)"
  by (cases v) (auto split: option.splits)

lemma set_path_not_nullish: "\<not> is_nullish x \<Longrightarrow> \<not> is_nullish (set_path v p x)"
  by (cases p) (auto simp: object_or_new_def intro!: js_assign_not_nullish elim!: is_object.elims)

lemma mask_not_nullish: "\<not> is_nullish v \<Longrightarrow> \<not> is_nullish (mask_path p v)"
  by (auto simp: mask_path_def mask_text_def intro!: set_path_not_nullish)

lemma alist_put_same: "map_of o1 k = Some v \<Longrightarrow> alist_put k v o1 = o1"
  by (induction k v o1 rule: alist_put.induct) (auto split: if_splits)

lemma object_or_new_obj [simp]: "object_or_new (JObj o1) = JObj o1"
  by (simp add: object_or_new_def)

lemma mask_member:
  "mask_path (k # ks) (JObj o1) =
   (if is_nullish (get_path (obj_get o1 k) ks) then JObj o1
    else JObj (alist_put k (mask_path ks (obj_get o1 k)) o1))"
  by (simp add: mask_path_def)

lemma mask_member_present:
  assumes "k \<in> set (map fst o1)"
  shows "mask_path (k # ks) (JObj o1) = JObj (alist_put k (mask_path ks (obj_get o1 k)) o1)"
proof -
  obtain v where "map_of o1 k = Some v"
    using assms by (metis map_of_eq_None_iff not_None_eq set_map)
  then have "alist_put k (obj_get o1 k) o1 = o1"
    by (simp add: obj_get_def alist_put_same)
  then show ?thesis
    by (auto simp: mask_member mask_path_def)
qed

lemma mask_member_absent: "k \<notin> set (map fst o1) \<Longrightarrow> mask_path (k # ks) (JObj o1) = JObj o1"
  by (simp add: mask_member obj_get_def map_of_eq_None_iff [THEN iffD2])

lemma mask_agree:
  "agree S v w \<Longrightarrow> agree (\<lambda>q. S q \<and> q \<noteq> p) (mask_path p v) (mask_path p w)"
proof (induction p arbitrary: S v w)
  case Nil
  then show ?case
    using agree_nullish [OF Nil] agree_null_eq [OF Nil] by (auto simp: mask_Nil intro: agree.same)
next
  case (Cons k ks)
  from Cons.prems show ?case
  proof (cases rule: agree.cases)
    case hidden
    then show ?thesis
      by (auto intro!: agree.hidden mask_not_nullish)
  next
    case (members o1 o2)
    note keys = same_keys [OF members(3)]
    define T where "T = (\<lambda>k p. S (k # p))"
    define T' where "T' = (\<lambda>k' q. S (k' # q) \<and> k' # q \<noteq> k # ks)"
    have all: "list_all2 (\<lambda>x y. fst x = fst y \<and> agree (T (fst x)) (snd x) (snd y)) o1 o2"
      using members(3) by (simp add: T_def)
    have at: "agree (T' k) (mask_path ks (obj_get o1 k)) (mask_path ks (obj_get o2 k))"
      using Cons.IH [OF obj_get_members [OF all]] by (simp add: T'_def T_def)
    show ?thesis
    proof (cases "k \<in> set (map fst o1)")
      case True
      have "list_all2 (\<lambda>x y. fst x = fst y \<and> agree (T' (fst x)) (snd x) (snd y))
              (alist_put k (mask_path ks (obj_get o1 k)) o1) (alist_put k (mask_path ks (obj_get o2 k)) o2)"
        by (rule members_put [where T = T and T' = T'])
          (use all members(4) at in \<open>auto simp: T'_def T_def\<close>)
      then have "agree (\<lambda>q. S q \<and> q \<noteq> k # ks) (JObj (alist_put k (mask_path ks (obj_get o1 k)) o1))
              (JObj (alist_put k (mask_path ks (obj_get o2 k)) o2))"
        by (intro agree.members) (simp_all add: T'_def distinct_alist_put members(4))
      with True show ?thesis
        using keys by (simp add: members(1,2) mask_member_present)
    next
      case False
      have "list_all2 (\<lambda>x y. fst x = fst y \<and> agree (T' (fst x)) (snd x) (snd y)) o1 o2"
        by (rule members_same [OF all]) (use False in \<open>auto simp: T'_def T_def\<close>)
      then have "agree (\<lambda>q. S q \<and> q \<noteq> k # ks) (JObj o1) (JObj o2)"
        by (intro agree.members) (simp_all add: T'_def members(4))
      moreover have "k \<notin> set (map fst o2)"
        using False keys by simp
      ultimately show ?thesis
        using False by (simp add: members(1,2) mask_member_absent)
    qed
  qed (auto intro: agree.same)
qed

lemma mask_keys_agree:
  "agree (\<lambda>q. S q \<or> q \<in> path_keys ` set ks) v w \<Longrightarrow> agree S (mask_keys ks v) (mask_keys ks w)"
proof (induction ks arbitrary: v w)
  case (Cons k ks)
  have weaken: "agree P v w \<Longrightarrow> (\<And>q. P q \<Longrightarrow> Q q) \<Longrightarrow> agree Q v w" for P Q v w
  proof (induction arbitrary: Q rule: agree.induct)
    case (members S o1 o2)
    then show ?case
      by (intro agree.members) (auto elim!: list_all2_mono)
  qed (auto intro: agree.intros)
  have "agree (\<lambda>q. S q \<or> q \<in> path_keys ` set ks) (mask_path (path_keys k) v) (mask_path (path_keys k) w)"
    using mask_agree [OF Cons.prems] by (rule weaken) auto
  then show ?case
    using Cons.IH by (simp add: mask_keys_def)
qed (simp add: mask_keys_def)

lemma mask_keys_hides:
  "agree (\<lambda>q. q \<in> path_keys ` set ks) v w \<Longrightarrow> mask_keys ks v = mask_keys ks w"
  using mask_keys_agree [of "\<lambda>_. False" ks v w] by (auto intro: agree_nothing)


section \<open>A masked document given back unchanged\<close>

text \<open>A path that exists and leads through objects, and two paths neither of which continues the other.\<close>

fun obj_path :: "json \<Rightarrow> string list \<Rightarrow> bool" where
  "obj_path v [] = True"
| "obj_path (JObj o1) (k # ks) = (k \<in> set (map fst o1) \<and> obj_path (obj_get o1 k) ks)"
| "obj_path v (k # ks) = False"

fun diverge :: "string list \<Rightarrow> string list \<Rightarrow> bool" where
  "diverge (a # p) (b # q) = (a \<noteq> b \<or> diverge p q)"
| "diverge p q = False"

lemma diverge_sym: "diverge p q = diverge q p"
  by (induction p q rule: diverge.induct) auto

lemma alist_put_put: "alist_put k x (alist_put k y o1) = alist_put k x o1"
  by (induction k y o1 rule: alist_put.induct) auto

lemma alist_put_swap:
  "k \<noteq> l \<Longrightarrow> k \<in> fst ` set o1 \<Longrightarrow> l \<in> fst ` set o1 \<Longrightarrow>
   alist_put k x (alist_put l y o1) = alist_put l y (alist_put k x o1)"
proof (induction o1)
  case (Cons kv o1)
  have "m \<notin> fst ` set o1 \<Longrightarrow> m \<noteq> n \<Longrightarrow> m \<notin> fst ` set (alist_put n z o1)" for m n z
    using keys_alist_put [of n z o1] by auto
  with Cons show ?case
    by (cases kv) auto
qed simp

lemma put_obj_get: "k \<in> fst ` set o1 \<Longrightarrow> alist_put k (obj_get o1 k) o1 = o1"
  using alist_put_same [of o1 k] by (cases "map_of o1 k") (auto simp: obj_get_def map_of_eq_None_iff)

lemma set_path_set: "obj_path v p \<Longrightarrow> set_path (set_path v p x) p y = set_path v p y"
  by (induction v p rule: obj_path.induct) (auto simp: alist_put_put)

lemma set_path_get: "obj_path v p \<Longrightarrow> set_path v p (get_path v p) = v"
  by (induction v p rule: obj_path.induct) (auto simp: put_obj_get)

lemma get_set_path: "obj_path v p \<Longrightarrow> get_path (set_path v p x) p = x"
  by (induction v p rule: obj_path.induct) auto

lemma get_set_other: "obj_path v p \<Longrightarrow> diverge p q \<Longrightarrow> get_path (set_path v p x) q = get_path v q"
proof (induction v p arbitrary: q rule: obj_path.induct)
  case (2 o1 k ks)
  then show ?case by (cases q) auto
qed auto

lemma keys_put [simp]: "fst ` set (alist_put k x o1) = insert k (fst ` set o1)"
  using keys_alist_put [of k x o1] by simp

lemma obj_path_set: "obj_path v p \<Longrightarrow> diverge p q \<Longrightarrow> obj_path (set_path v p x) q = obj_path v q"
proof (induction v p arbitrary: q rule: obj_path.induct)
  case (2 o1 k ks)
  then show ?case by (cases q) auto
qed auto

lemma obj_path_set_self: "obj_path v p \<Longrightarrow> obj_path (set_path v p x) p"
  by (induction v p rule: obj_path.induct) auto

lemma set_path_swap:
  "obj_path v p \<Longrightarrow> obj_path v q \<Longrightarrow> diverge p q \<Longrightarrow>
   set_path (set_path v p x) q y = set_path (set_path v q y) p x"
proof (induction v p arbitrary: q rule: obj_path.induct)
  case (2 o1 k ks)
  then show ?case
    by (cases q) (auto simp: alist_put_put alist_put_swap)
qed auto

definition path_ok :: "json \<Rightarrow> string list \<Rightarrow> bool" where
  "path_ok v p \<longleftrightarrow> is_nullish (get_path v p) \<or> obj_path v p"

lemma path_ok_set: "obj_path v p \<Longrightarrow> diverge p q \<Longrightarrow> path_ok (set_path v p x) q = path_ok v q"
  by (simp add: path_ok_def get_set_other obj_path_set)

lemma mask_other:
  assumes "path_ok v p" "diverge p q"
  shows "get_path (mask_path p v) q = get_path v q" "path_ok (mask_path p v) q = path_ok v q"
    "obj_path (mask_path p v) q = obj_path v q"
  using assms by (auto simp: mask_path_def path_ok_def get_set_other obj_path_set)

lemma mask_set_swap:
  "path_ok v q \<Longrightarrow> obj_path v p \<Longrightarrow> diverge p q \<Longrightarrow>
   mask_path q (set_path v p x) = set_path (mask_path q v) p x"
  by (auto simp: mask_path_def path_ok_def get_set_other intro: set_path_swap)

lemma fold_mask_other:
  "(\<And>q. q \<in> set qs \<Longrightarrow> path_ok v q \<and> diverge p q) \<Longrightarrow> sorted_wrt diverge qs \<Longrightarrow>
   get_path (fold mask_path qs v) p = get_path v p \<and> obj_path (fold mask_path qs v) p = obj_path v p"
proof (induction qs arbitrary: v)
  case (Cons q qs)
  then have "path_ok v q" "diverge q p"
    using diverge_sym by auto
  note step = mask_other [OF this]
  have "\<And>r. r \<in> set qs \<Longrightarrow> path_ok (mask_path q v) r \<and> diverge p r"
    using Cons.prems mask_other(2) [OF \<open>path_ok v q\<close>] by auto
  then show ?case
    using Cons.IH [of "mask_path q v"] Cons.prems(2) step by simp
qed simp

lemma fold_mask_set:
  "(\<And>q. q \<in> set qs \<Longrightarrow> path_ok v q \<and> diverge p q) \<Longrightarrow> sorted_wrt diverge qs \<Longrightarrow> obj_path v p \<Longrightarrow>
   set_path (fold mask_path qs v) p x = fold mask_path qs (set_path v p x)"
proof (induction qs arbitrary: v)
  case (Cons q qs)
  then have q: "path_ok v q" "diverge q p" "diverge p q"
    using diverge_sym by auto
  have "\<And>r. r \<in> set qs \<Longrightarrow> path_ok (mask_path q v) r \<and> diverge p r"
    using Cons.prems mask_other(2) [OF q(1)] by auto
  then have "set_path (fold mask_path qs (mask_path q v)) p x = fold mask_path qs (set_path (mask_path q v) p x)"
    using Cons.IH [of "mask_path q v"] Cons.prems(2,3) mask_other(3) [OF q(1,2)] by simp
  then show ?case
    using mask_set_swap [OF q(1) Cons.prems(3) q(3)] by simp
qed simp

lemma restore_mask:
  "(\<And>p. p \<in> set ps \<Longrightarrow> path_ok v p \<and> get_path v p = get_path e p) \<Longrightarrow> sorted_wrt diverge ps \<Longrightarrow>
   fold (restore_path e) ps (fold mask_path ps v) = v"
proof (induction ps arbitrary: v)
  case (Cons p ps)
  have p: "path_ok v p" "get_path v p = get_path e p" and div: "\<And>q. q \<in> set ps \<Longrightarrow> diverge p q"
    using Cons.prems by auto
  let ?w = "mask_path p v"
  have ok: "\<And>q. q \<in> set ps \<Longrightarrow> path_ok ?w q \<and> diverge p q"
    using Cons.prems(1) mask_other(2) [OF p(1)] div by auto
  have sorted: "sorted_wrt diverge ps"
    using Cons.prems(2) by simp
  have get: "get_path (fold mask_path ps ?w) p = get_path ?w p"
    using fold_mask_other [OF ok sorted] by simp
  have "restore_path e p (fold mask_path ps ?w) = fold mask_path ps v"
  proof (cases "is_nullish (get_path v p)")
    case True
    then show ?thesis
      using get by (auto simp: restore_path_def mask_path_def mask_text_def)
  next
    case False
    then have obj: "obj_path v p" and w: "?w = set_path v p mask_text"
      using p(1) by (auto simp: path_ok_def mask_path_def)
    have "obj_path ?w p"
      unfolding w by (rule obj_path_set_self [OF obj])
    from fold_mask_set [OF ok sorted this]
    have "set_path (fold mask_path ps ?w) p (get_path e p) = fold mask_path ps (set_path ?w p (get_path v p))"
      using p(2) by simp
    also have "set_path ?w p (get_path v p) = v"
      unfolding w by (simp add: set_path_set [OF obj] set_path_get [OF obj])
    finally show ?thesis
      using False p(2) get get_set_path [OF obj] by (simp add: restore_path_def w)
  qed
  then show ?case
    using Cons.IH [of v] Cons.prems by simp
qed simp


section \<open>Documents\<close>

text \<open>The values a document can be printed from: objects in which nothing is \<open>undefined\<close>.\<close>

fun defined_value :: "json \<Rightarrow> bool" where
  "defined_value JUndef = False"
| "defined_value (JArr xs) = list_all defined_value xs"
| "defined_value (JObj o1) = list_all (\<lambda>(k, v). defined_value v) o1"
| "defined_value v = True"

definition is_document :: "json \<Rightarrow> bool" where
  "is_document v \<longleftrightarrow> (\<exists>o1. v = JObj o1) \<and> defined_value v"

lemma document_obj [simp]: "is_document (JObj o1) = list_all (\<lambda>(k, v). defined_value v) o1"
  by (simp add: is_document_def)

lemma list_all_alist_put:
  "list_all (\<lambda>(k, v). P v) o1 \<Longrightarrow> P x \<Longrightarrow> list_all (\<lambda>(k, v). P v) (alist_put k x o1)"
  by (induction k x o1 rule: alist_put.induct) auto

lemma defined_obj_get: "list_all (\<lambda>(k, v). defined_value v) o1 \<Longrightarrow> k \<in> fst ` set o1 \<Longrightarrow> defined_value (obj_get o1 k)"
  unfolding obj_get_def
  by (cases "map_of o1 k") (auto simp: map_of_eq_None_iff list_all_iff dest: map_of_SomeD)

lemma defined_set_path:
  "obj_path v p \<Longrightarrow> defined_value v \<Longrightarrow> defined_value x \<Longrightarrow> defined_value (set_path v p x)"
  by (induction v p rule: obj_path.induct) (auto simp: list_all_alist_put defined_obj_get)

lemma document_set_path:
  assumes "obj_path v p" "p \<noteq> []" "is_document v" "defined_value x"
  shows "is_document (set_path v p x)"
proof -
  obtain k ks o1 where "v = JObj o1" "p = k # ks"
    using assms(2,3) by (cases p) (auto simp: is_document_def)
  then show ?thesis
    using defined_set_path [OF assms(1) _ assms(4)] assms(3) by (simp add: is_document_def)
qed

lemma document_mask_path: "path_ok v p \<Longrightarrow> p \<noteq> [] \<Longrightarrow> is_document v \<Longrightarrow> is_document (mask_path p v)"
  by (auto simp: mask_path_def path_ok_def mask_text_def intro!: document_set_path)

lemma document_fold_mask:
  "(\<And>p. p \<in> set ps \<Longrightarrow> path_ok v p \<and> p \<noteq> []) \<Longrightarrow> sorted_wrt diverge ps \<Longrightarrow> is_document v \<Longrightarrow>
   is_document (fold mask_path ps v)"
proof (induction ps arbitrary: v)
  case (Cons p ps)
  have "path_ok v p" "p \<noteq> []"
    using Cons.prems(1) by auto
  then have "is_document (mask_path p v)"
    using Cons.prems(3) by (rule document_mask_path)
  moreover have "path_ok (mask_path p v) q \<and> q \<noteq> []" if "q \<in> set ps" for q
    using that Cons.prems(1,2) mask_other(2) [OF \<open>path_ok v p\<close>, of q] by auto
  ultimately show ?case
    using Cons.IH [of "mask_path p v"] Cons.prems(2) by simp
qed simp

text \<open>What is used of the YAML library: it reads back what it printed.\<close>

definition yaml_round_trip :: "(string \<Rightarrow> json result) \<Rightarrow> (json \<Rightarrow> string) \<Rightarrow> bool" where
  "yaml_round_trip load dump \<longleftrightarrow> (\<forall>v. is_document v \<longrightarrow> load (dump v) = Inr v \<and> dump v \<noteq> [])"


text \<open>A printer and a reader that satisfy it: a document is printed as its number in unary.\<close>

instance jsnum :: countable
  by countable_datatype

instance json :: countable
  by countable_datatype

definition demo_dump :: "json \<Rightarrow> string" where
  "demo_dump v = replicate (Suc (to_nat v)) (CHR ''d'')"

definition demo_load :: "string \<Rightarrow> json result" where
  "demo_load t = Inr (from_nat (length t - 1))"

lemma demo_yaml [simp]: "demo_load (demo_dump v) = Inr v" "demo_dump v \<noteq> []" "truthy (Some (demo_dump v))"
  by (simp_all add: demo_load_def demo_dump_def truthy_def)

lemma demo_yaml_round_trip: "yaml_round_trip demo_load demo_dump"
  by (simp add: yaml_round_trip_def)

end
