(* ===== verification/Effects.thy ===== *)
theory Effects
  imports Prelude
begin

text \<open>
  Operations on a state that may throw: an \<open>async\<close> method with its awaits in order. A failure keeps
  what was written before it. Then the two ways the components reason about them: a property of the
  state that every step keeps, and triples with a postcondition for the result and one for a failure.
\<close>

section \<open>Operations that may throw\<close>

type_synonym ('s, 'a) action = "'s \<Rightarrow> 'a result \<times> 's"

definition return_op :: "'a \<Rightarrow> ('s, 'a) action" where
  "return_op x s = (Inr x, s)"

definition throw_op :: "exn \<Rightarrow> ('s, 'a) action" where
  "throw_op e s = (Inl e, s)"

definition bind_op :: "('s, 'a) action \<Rightarrow> ('a \<Rightarrow> ('s, 'b) action) \<Rightarrow> ('s, 'b) action" where
  "bind_op m f s = (case m s of (Inl e, s') \<Rightarrow> (Inl e, s') | (Inr x, s') \<Rightarrow> f x s')"

text \<open>A step that always returns.\<close>

definition lift_op :: "('s \<Rightarrow> 'a \<times> 's) \<Rightarrow> ('s, 'a) action" where
  "lift_op f s = (case f s of (x, s') \<Rightarrow> (Inr x, s'))"

definition modify_op :: "('s \<Rightarrow> 's) \<Rightarrow> ('s, unit) action" where
  "modify_op f s = (Inr (), f s)"

definition gets_op :: "('s \<Rightarrow> 'a) \<Rightarrow> ('s, 'a) action" where
  "gets_op f s = (Inr (f s), s)"

fun each_op :: "('a \<Rightarrow> ('s, unit) action) \<Rightarrow> 'a list \<Rightarrow> ('s, unit) action" where
  "each_op f [] = return_op ()"
| "each_op f (x # xs) = bind_op (f x) (\<lambda>_. each_op f xs)"

text \<open>\<open>.catch(...)\<close>: what was written before the failure stays.\<close>

definition catch_op :: "('s, unit) action \<Rightarrow> ('s, unit) action" where
  "catch_op m s = (Inr (), snd (m s))"

text \<open>\<open>try\<close> and \<open>catch\<close> when the handler needs to know which it was.\<close>

definition attempt_op :: "('s, 'a) action \<Rightarrow> ('s, 'a result) action" where
  "attempt_op m s = (case m s of (r, s') \<Rightarrow> (Inr r, s'))"

section \<open>Properties that are kept\<close>

text \<open>An operation keeps a property of the state, whether it returns or throws.\<close>

definition op_keeps :: "('s \<Rightarrow> bool) \<Rightarrow> ('s, 'a) action \<Rightarrow> bool" where
  "op_keeps P m \<longleftrightarrow> (\<forall>s. P s \<longrightarrow> P (snd (m s)))"

named_theorems op_keeps_intros

lemma keeps_return [op_keeps_intros]: "op_keeps P (return_op x)"
  by (simp add: op_keeps_def return_op_def)

lemma keeps_throw [op_keeps_intros]: "op_keeps P (throw_op e)"
  by (simp add: op_keeps_def throw_op_def)

lemma keeps_gets [op_keeps_intros]: "op_keeps P (gets_op f)"
  by (simp add: op_keeps_def gets_op_def)

lemma keeps_bind [op_keeps_intros]:
  "op_keeps P m \<Longrightarrow> (\<And>x. op_keeps P (f x)) \<Longrightarrow> op_keeps P (bind_op m f)"
  unfolding op_keeps_def bind_op_def
  by (auto split: prod.splits sum.splits)

lemma keeps_catch [op_keeps_intros]: "op_keeps P m \<Longrightarrow> op_keeps P (catch_op m)"
  by (simp add: op_keeps_def catch_op_def)

lemma keeps_each [op_keeps_intros]: "(\<And>x. x \<in> set xs \<Longrightarrow> op_keeps P (f x)) \<Longrightarrow> op_keeps P (each_op f xs)"
  by (induction xs) (auto intro!: op_keeps_intros)

lemma keeps_modify: "(\<And>s. P s \<Longrightarrow> P (f s)) \<Longrightarrow> op_keeps P (modify_op f)"
  by (simp add: op_keeps_def modify_op_def)

lemma keeps_lift: "(\<And>s. P s \<Longrightarrow> P (snd (f s))) \<Longrightarrow> op_keeps P (lift_op f)"
  by (simp add: op_keeps_def lift_op_def split: prod.splits) (metis snd_conv)

lemma keepsD: "op_keeps P m \<Longrightarrow> P s \<Longrightarrow> P (snd (m s))"
  by (simp add: op_keeps_def)

lemma keeps_if [op_keeps_intros]: "(b \<Longrightarrow> op_keeps P m) \<Longrightarrow> (\<not> b \<Longrightarrow> op_keeps P m') \<Longrightarrow> op_keeps P (if b then m else m')"
  by simp

lemma keeps_option [op_keeps_intros]:
  "op_keeps P m \<Longrightarrow> (\<And>x. y = Some x \<Longrightarrow> op_keeps P (f x)) \<Longrightarrow> op_keeps P (case y of None \<Rightarrow> m | Some x \<Rightarrow> f x)"
  by (simp split: option.split)

section \<open>Triples\<close>

text \<open>
  \<open>op_triple P m Q E\<close>: from a state with \<open>P\<close>, the operation ends in a state with \<open>Q\<close> for its
  result, or throws and leaves \<open>E\<close>.
\<close>

definition op_triple ::
  "('s \<Rightarrow> bool) \<Rightarrow> ('s, 'a) action \<Rightarrow> ('a \<Rightarrow> 's \<Rightarrow> bool) \<Rightarrow> ('s \<Rightarrow> bool) \<Rightarrow> bool" where
  "op_triple P m Q E \<longleftrightarrow> (\<forall>s. P s \<longrightarrow> (case m s of (Inl e, s') \<Rightarrow> E s' | (Inr x, s') \<Rightarrow> Q x s'))"

named_theorems triple_intros

lemma triple_bind [triple_intros]:
  "op_triple P m Q E \<Longrightarrow> (\<And>x. op_triple (Q x) (f x) R E) \<Longrightarrow> op_triple P (bind_op m f) R E"
  unfolding op_triple_def bind_op_def by (fastforce split: prod.splits sum.splits)

lemma triple_return: "(\<And>s. P s \<Longrightarrow> Q x s) \<Longrightarrow> op_triple P (return_op x) Q E"
  by (simp add: op_triple_def return_op_def)

lemma triple_throw: "(\<And>s. P s \<Longrightarrow> E s) \<Longrightarrow> op_triple P (throw_op e) Q E"
  by (simp add: op_triple_def throw_op_def)

lemma triple_gets: "(\<And>s. P s \<Longrightarrow> Q (f s) s) \<Longrightarrow> op_triple P (gets_op f) Q E"
  by (simp add: op_triple_def gets_op_def)

lemma triple_modify: "(\<And>s. P s \<Longrightarrow> Q () (f s)) \<Longrightarrow> op_triple P (modify_op f) Q E"
  by (simp add: op_triple_def modify_op_def)

lemma triple_lift: "(\<And>s x s'. P s \<Longrightarrow> f s = (x, s') \<Longrightarrow> Q x s') \<Longrightarrow> op_triple P (lift_op f) Q E"
  by (auto simp: op_triple_def lift_op_def split: prod.splits)

lemma triple_conseq:
  "op_triple P m Q E \<Longrightarrow> (\<And>s. P' s \<Longrightarrow> P s) \<Longrightarrow> (\<And>x s. Q x s \<Longrightarrow> Q' x s) \<Longrightarrow> op_triple P' m Q' E"
  unfolding op_triple_def by (fastforce split: prod.splits sum.splits)

lemma triple_fact: "(\<And>s. P s \<Longrightarrow> F) \<Longrightarrow> (F \<Longrightarrow> op_triple P m Q E) \<Longrightarrow> op_triple P m Q E"
  unfolding op_triple_def by fastforce

lemma triple_snd: "op_triple P m (\<lambda>_. E) E \<Longrightarrow> P s \<Longrightarrow> E (snd (m s))"
  unfolding op_triple_def by (fastforce split: prod.splits sum.splits)

end
