(* ===== verification/Config_Model.thy ===== *)
theory Config_Model
  imports Effects Config_Values Releases
begin

text \<open>
  The state of the configuration service (\<open>apps/upload/src/config/config.service.ts\<close>): the tables
  of revisions, groups, associations and offerings beside the database of the releases, the
  secrets in Vault, the in-memory cache of projects and the calls that were started without being
  awaited. The project and device services and the YAML library are parameters. Then the project
  cache, and the drafts and groups of a revision.
\<close>

section \<open>Entities\<close>

datatype ProjectType = PRODUCT | APPLICATION | LIB | BUNDLE | INFRA | CONFIG | CONFIG_MAP

fun project_type_text :: "ProjectType \<Rightarrow> string" where
  "project_type_text PRODUCT = ''product''"
| "project_type_text APPLICATION = ''application''"
| "project_type_text LIB = ''lib''"
| "project_type_text BUNDLE = ''bundle''"
| "project_type_text INFRA = ''infra''"
| "project_type_text CONFIG = ''config''"
| "project_type_text CONFIG_MAP = ''config_map''"

datatype ConfigRevisionStatus = DRAFT | ACTIVE | ARCHIVED

datatype OfferingActionEnum = OFFERING | PUSH

record ConfigProject =
  cp_id :: nat
  cp_name :: string
  cp_projectType :: ProjectType

record ConfigRevisionEntity =
  rev_id :: nat
  rev_projectId :: nat
  rev_revisionNumber :: nat
  rev_status :: ConfigRevisionStatus
  rev_appliedBy :: "string option"
  rev_appliedAt :: "nat option"
  rev_semVer :: "string option"
  rev_createdAt :: nat

text \<open>The id 0 stands for an entity that has not been saved.\<close>

record ConfigGroupEntity =
  grp_id :: nat
  grp_revisionId :: nat
  grp_name :: string
  grp_displayName :: "string option"
  grp_isGlobal :: bool
  grp_gitFilePath :: "string option"
  grp_yamlContent :: "string option"
  grp_sensitiveKeys :: "string list"
  grp_position :: nat

record ConfigMapAssociationEntity =
  cma_id :: nat
  cma_configMapProjectId :: nat
  cma_deviceTypeId :: "nat option"
  cma_deviceId :: "string option"
  cma_configProjectId :: "nat option"

record ComponentOfferingEntity =
  off_device :: string
  off_release :: string
  off_action :: OfferingActionEnum

section \<open>State and parameters\<close>

text \<open>A cached project with the time its entry expires.\<close>

datatype config_task =
    CascadeRevision nat
  | CascadeAssociation nat "nat list" "string list"

record config_state =
  cs_db :: db
  cs_revisions :: "ConfigRevisionEntity list"
  cs_groups :: "ConfigGroupEntity list"
  cs_associations :: "ConfigMapAssociationEntity list"
  cs_offerings :: "ComponentOfferingEntity list"
  cs_vault :: vault_state
  projectCache :: "(string \<times> ConfigProject \<times> nat) list"
  cs_tasks :: "config_task list"

text \<open>A call to another service that fails is \<open>None\<close>, or the empty list where the code puts one.\<close>

record config_env =
  ce_env :: env
  ce_vault :: vault_config
  yaml_load :: "string \<Rightarrow> json result"
  yaml_dump :: "json \<Rightarrow> string"
  json_parse :: "string \<Rightarrow> json result"
  toISOString :: "nat \<Rightarrow> string"
  remote_project :: "ident \<Rightarrow> ConfigProject option"
  remote_project_named :: "string \<Rightarrow> ProjectType \<Rightarrow> ConfigProject option"
  device_type_exists :: "nat \<Rightarrow> bool"
  types_of_device :: "string \<Rightarrow> nat list"
  devices_of_types :: "nat list \<Rightarrow> string list"

definition now :: "config_state \<Rightarrow> nat" where
  "now s = clock (cs_db s)"

definition fresh_id :: "config_state \<Rightarrow> nat \<times> config_state" where
  "fresh_id s = (next_id (cs_db s), s\<lparr>cs_db := (cs_db s)\<lparr>next_id := Suc (next_id (cs_db s))\<rparr>\<rparr>)"

section \<open>Operations that may throw\<close>

type_synonym 'a op = "(config_state, 'a) action"

section \<open>The cache of projects\<close>

definition PROJECT_CACHE_TTL_MS :: nat where
  "PROJECT_CACHE_TTL_MS = 30000"

definition ident_text :: "ident \<Rightarrow> string" where
  "ident_text i = (case i of IdNum n \<Rightarrow> show_nat n | IdStr t \<Rightarrow> t)"

definition id_cache_key :: "ident \<Rightarrow> string" where
  "id_cache_key i = ''id:'' @ ident_text i"

definition name_cache_key :: "string \<Rightarrow> ProjectType \<Rightarrow> string" where
  "name_cache_key n ty = ''name:'' @ n @ '':'' @ project_type_text ty"

definition cached_project :: "string \<Rightarrow> config_state \<Rightarrow> ConfigProject option" where
  "cached_project k s =
     (case map_of (projectCache s) k of
        Some (p, expiresAt) \<Rightarrow> if now s < expiresAt then Some p else None
      | None \<Rightarrow> None)"

definition cache_project :: "string list \<Rightarrow> ConfigProject \<Rightarrow> config_state \<Rightarrow> config_state" where
  "cache_project ks p s =
     s\<lparr>projectCache := fold (\<lambda>k. alist_put k (p, now s + PROJECT_CACHE_TTL_MS)) ks (projectCache s)\<rparr>"

definition getProjectByIdentifier :: "config_env \<Rightarrow> ident \<Rightarrow> config_state \<Rightarrow> ConfigProject option \<times> config_state" where
  "getProjectByIdentifier C i s =
     (case cached_project (id_cache_key i) s of
        Some p \<Rightarrow> (Some p, s)
      | None \<Rightarrow>
          (case remote_project C i of
             None \<Rightarrow> (None, s)
           | Some p \<Rightarrow>
               (Some p, cache_project ([id_cache_key i, id_cache_key (IdNum (cp_id p))] @
                  (if cp_name p \<noteq> [] then [name_cache_key (cp_name p) (cp_projectType p)] else [])) p s)))"

definition getProjectByNameAndType ::
  "config_env \<Rightarrow> string \<Rightarrow> ProjectType \<Rightarrow> config_state \<Rightarrow> ConfigProject option \<times> config_state" where
  "getProjectByNameAndType C n ty s =
     (case cached_project (name_cache_key n ty) s of
        Some p \<Rightarrow> (Some p, s)
      | None \<Rightarrow>
          (case remote_project_named C n ty of
             None \<Rightarrow> (None, s)
           | Some p \<Rightarrow>
               if cp_projectType p \<noteq> ty then (None, s)
               else (Some p, cache_project [name_cache_key n ty, id_cache_key (IdNum (cp_id p))] p s)))"

definition requireProject :: "config_env \<Rightarrow> ident \<Rightarrow> ProjectType list \<Rightarrow> ConfigProject op" where
  "requireProject C i types =
     bind_op (lift_op (getProjectByIdentifier C i)) (\<lambda>p.
       case p of
         None \<Rightarrow> throw_op NotFoundException
       | Some p \<Rightarrow> if cp_projectType p \<in> set types then return_op p else throw_op BadRequestException)"

text \<open>
  \<open>config:<deviceId>\<close>: the name of a device's project, and the device of a project's name.
\<close>

definition config_prefix :: string where
  "config_prefix = ''config:''"

definition config_project_name :: "string \<Rightarrow> string" where
  "config_project_name deviceId = config_prefix @ deviceId"

definition device_of_project :: "string \<Rightarrow> string option" where
  "device_of_project n = (if starts_with config_prefix n then Some (drop (length config_prefix) n) else None)"

section \<open>Revisions and groups\<close>

definition revision_with :: "nat \<Rightarrow> ConfigRevisionStatus \<Rightarrow> ConfigRevisionEntity \<Rightarrow> bool" where
  "revision_with pid st r \<longleftrightarrow> rev_projectId r = pid \<and> rev_status r = st"

definition find_revision :: "nat \<Rightarrow> ConfigRevisionStatus \<Rightarrow> config_state \<Rightarrow> ConfigRevisionEntity option" where
  "find_revision pid st s = List.find (revision_with pid st) (cs_revisions s)"

definition groups_of :: "nat \<Rightarrow> config_state \<Rightarrow> ConfigGroupEntity list" where
  "groups_of rid s = filter (\<lambda>g. grp_revisionId g = rid) (cs_groups s)"

definition find_group :: "nat \<Rightarrow> string \<Rightarrow> config_state \<Rightarrow> ConfigGroupEntity option" where
  "find_group rid n s = List.find (\<lambda>g. grp_revisionId g = rid \<and> grp_name g = n) (cs_groups s)"

definition max_revision :: "nat \<Rightarrow> config_state \<Rightarrow> nat" where
  "max_revision pid s = fold max (map rev_revisionNumber (filter (\<lambda>r. rev_projectId r = pid) (cs_revisions s))) 0"

definition new_revision :: "nat \<Rightarrow> nat \<Rightarrow> config_state \<Rightarrow> ConfigRevisionEntity \<times> config_state" where
  "new_revision pid n s =
     (case fresh_id s of
        (i, s1) \<Rightarrow>
          let r = \<lparr>rev_id = i, rev_projectId = pid, rev_revisionNumber = n, rev_status = DRAFT,
                   rev_appliedBy = None, rev_appliedAt = None, rev_semVer = None, rev_createdAt = now s\<rparr>
          in (r, s1\<lparr>cs_revisions := cs_revisions s1 @ [r]\<rparr>))"

definition update_revisions ::
  "(ConfigRevisionEntity \<Rightarrow> bool) \<Rightarrow> (ConfigRevisionEntity \<Rightarrow> ConfigRevisionEntity) \<Rightarrow> config_state \<Rightarrow> config_state" where
  "update_revisions P f s = s\<lparr>cs_revisions := update_where P f (cs_revisions s)\<rparr>"

definition getOrCreateDraftRevision :: "nat \<Rightarrow> config_state \<Rightarrow> ConfigRevisionEntity \<times> config_state" where
  "getOrCreateDraftRevision pid s =
     (case find_revision pid DRAFT s of
        Some r \<Rightarrow> (r, s)
      | None \<Rightarrow> new_revision pid (max_revision pid s + 1) s)"

definition getNextGroupPosition :: "nat \<Rightarrow> config_state \<Rightarrow> nat" where
  "getNextGroupPosition rid s =
     (case groups_of rid s of [] \<Rightarrow> 0 | gs \<Rightarrow> fold max (map grp_position gs) 0 + 1)"

text \<open>\<open>groupRepo.save\<close>: an update, or an insert that gives the id.\<close>

definition save_group :: "ConfigGroupEntity \<Rightarrow> config_state \<Rightarrow> ConfigGroupEntity \<times> config_state" where
  "save_group g s =
     (if grp_id g \<noteq> 0 then (g, s\<lparr>cs_groups := update_where (\<lambda>x. grp_id x = grp_id g) (\<lambda>_. g) (cs_groups s)\<rparr>)
      else (case fresh_id s of
          (i, s1) \<Rightarrow> (g\<lparr>grp_id := i\<rparr>, s1\<lparr>cs_groups := cs_groups s1 @ [g\<lparr>grp_id := i\<rparr>]\<rparr>)))"

definition parseYaml :: "config_env \<Rightarrow> string option \<Rightarrow> json" where
  "parseYaml C content =
     (if \<not> truthy content then JObj []
      else (case yaml_load C (or_empty content) of Inr (JObj o1) \<Rightarrow> JObj o1 | _ \<Rightarrow> JObj []))"

definition members_of :: "json \<Rightarrow> obj" where
  "members_of v = (case v of JObj o1 \<Rightarrow> o1 | _ \<Rightarrow> [])"

text \<open>\<open>Object.keys(v).length > 0 ? yaml.dump(v) : null\<close>.\<close>

definition dump_or_null :: "config_env \<Rightarrow> json \<Rightarrow> string option" where
  "dump_or_null C v = (if members_of v \<noteq> [] then Some (yaml_dump C v) else None)"

section \<open>What the API shows\<close>

record ConfigGroupDto =
  gd_id :: nat
  gd_name :: string
  gd_displayName :: "string option"
  gd_isGlobal :: bool
  gd_gitFilePath :: "string option"
  gd_sensitiveKeys :: "string list"
  gd_yamlContent :: "string option"

definition mapGroupToDto :: "config_env \<Rightarrow> ConfigGroupEntity \<Rightarrow> ConfigGroupDto" where
  "mapGroupToDto C g =
     \<lparr>gd_id = grp_id g, gd_name = grp_name g, gd_displayName = grp_displayName g, gd_isGlobal = grp_isGlobal g,
      gd_gitFilePath = grp_gitFilePath g, gd_sensitiveKeys = grp_sensitiveKeys g,
      gd_yamlContent =
        (if grp_sensitiveKeys g \<noteq> [] \<and> truthy (grp_yamlContent g)
         then Some (yaml_dump C (mask_keys (grp_sensitiveKeys g) (parseYaml C (grp_yamlContent g))))
         else grp_yamlContent g)\<rparr>"

record ConfigRevisionDto =
  rv_id :: nat
  rv_projectId :: nat
  rv_revisionNumber :: nat
  rv_status :: ConfigRevisionStatus
  rv_appliedBy :: "string option"
  rv_appliedAt :: "nat option"
  rv_semVer :: "string option"
  rv_createdAt :: nat
  rv_groups :: "ConfigGroupDto list option"

definition mapRevisionToDto :: "config_env \<Rightarrow> ConfigRevisionEntity \<Rightarrow> ConfigGroupEntity list option \<Rightarrow> ConfigRevisionDto" where
  "mapRevisionToDto C r gs =
     \<lparr>rv_id = rev_id r, rv_projectId = rev_projectId r, rv_revisionNumber = rev_revisionNumber r,
      rv_status = rev_status r, rv_appliedBy = rev_appliedBy r, rv_appliedAt = rev_appliedAt r,
      rv_semVer = rev_semVer r, rv_createdAt = rev_createdAt r,
      rv_groups = map_option (\<lambda>gs. map (mapGroupToDto C) (sort_key grp_position gs)) gs\<rparr>"

end
