(* ===== verification/Config_Groups.thy ===== *)
theory Config_Groups
  imports Config_Model
begin

text \<open>
  The groups of a draft revision (\<open>upsertGroup\<close>, \<open>deleteGroup\<close> and their helpers in
  \<open>apps/upload/src/config/config.service.ts\<close>): sensitive values move into Vault, are masked when a
  group is shown, and are kept when a masked document is given back.
\<close>

section \<open>Sensitive values in Vault\<close>

text \<open>One secret per group and key path; the dots of the path become two underscores.\<close>

definition undotted :: "string \<Rightarrow> string" where
  "undotted p = concat (map (\<lambda>c. if c = CHR ''.'' then ''__'' else [c]) p)"

definition key_secret_name :: "nat \<Rightarrow> string \<Rightarrow> string" where
  "key_secret_name gid keyPath = ''config-group-'' @ show_nat gid @ ''-key-'' @ undotted keyPath"

definition holds_ref :: "json \<Rightarrow> bool" where
  "holds_ref v \<longleftrightarrow> \<not> is_nullish v \<and> isVaultRef (Some (js_String v))"

definition holds_plain :: "json \<Rightarrow> bool" where
  "holds_plain v \<longleftrightarrow> \<not> is_nullish v \<and> \<not> isVaultRef (Some (js_String v))"

definition put_secret :: "config_env \<Rightarrow> string \<Rightarrow> string \<Rightarrow> (string \<times> string) list \<Rightarrow> string op" where
  "put_secret C n x md s =
     (case storeSecret (ce_vault C) n config_value x md (cs_vault s) of (r, vs) \<Rightarrow> (r, s\<lparr>cs_vault := vs\<rparr>))"

definition key_metadata :: "ConfigProject \<Rightarrow> string \<Rightarrow> string \<Rightarrow> (string \<times> string) list" where
  "key_metadata p groupName keyPath =
     [(''projectId'', show_nat (cp_id p)), (''groupName'', groupName), (''keyPath'', keyPath)]"

fun store_sensitive :: "config_env \<Rightarrow> nat \<Rightarrow> (string \<Rightarrow> (string \<times> string) list) \<Rightarrow> string list \<Rightarrow> json \<Rightarrow> json op" where
  "store_sensitive C gid md [] parsed = return_op parsed"
| "store_sensitive C gid md (k # ks) parsed =
     (let v = getByPath parsed k in
      if holds_plain v then
        bind_op (put_secret C (key_secret_name gid k) (js_String v) (md k))
          (\<lambda>ref. store_sensitive C gid md ks (setByPath parsed k (JStr ref)))
      else store_sensitive C gid md ks parsed)"

definition delete_key_secret :: "config_env \<Rightarrow> ConfigGroupEntity \<Rightarrow> json \<Rightarrow> string \<Rightarrow> unit op" where
  "delete_key_secret C g parsed keyPath =
     (if holds_ref (getByPath parsed keyPath)
      then catch_op (\<lambda>s. case deleteSecret (ce_vault C) (key_secret_name (grp_id g) keyPath) config_value (cs_vault s) of
                          (r, vs) \<Rightarrow> (r, s\<lparr>cs_vault := vs\<rparr>))
      else return_op ())"

definition deleteGroupVaultSecrets :: "config_env \<Rightarrow> ConfigGroupEntity \<Rightarrow> unit op" where
  "deleteGroupVaultSecrets C g =
     (if \<not> isEnabled (ce_vault C) \<or> grp_sensitiveKeys g = [] \<or> \<not> truthy (grp_yamlContent g) then return_op ()
      else each_op (delete_key_secret C g (parseYaml C (grp_yamlContent g))) (grp_sensitiveKeys g))"

section \<open>Changing and deleting a group\<close>

text \<open>\<open>displayName\<close> distinguishes a field that is absent from one that is \<open>null\<close>.\<close>

record UpsertConfigGroupDto =
  uc_projectIdentifier :: ident
  uc_name :: string
  uc_displayName :: "string option option"
  uc_isGlobal :: "bool option"
  uc_gitFilePath :: "string option"
  uc_sensitiveKeys :: "string list option"
  uc_yamlContent :: "string option"

definition new_group :: "nat \<Rightarrow> string \<Rightarrow> nat \<Rightarrow> ConfigGroupEntity" where
  "new_group rid n pos =
     \<lparr>grp_id = 0, grp_revisionId = rid, grp_name = n, grp_displayName = None, grp_isGlobal = False,
      grp_gitFilePath = None, grp_yamlContent = None, grp_sensitiveKeys = [], grp_position = pos\<rparr>"

definition draft_group :: "nat \<Rightarrow> string \<Rightarrow> config_state \<Rightarrow> ConfigGroupEntity" where
  "draft_group rid n s =
     (case find_group rid n s of Some g \<Rightarrow> g | None \<Rightarrow> new_group rid n (getNextGroupPosition rid s))"

definition patched_group :: "UpsertConfigGroupDto \<Rightarrow> ConfigGroupEntity \<Rightarrow> ConfigGroupEntity" where
  "patched_group dto g =
     g\<lparr>grp_isGlobal := with_default (grp_isGlobal g) (uc_isGlobal dto),
       grp_displayName := with_default (grp_displayName g) (uc_displayName dto),
       grp_gitFilePath := or_old (uc_gitFilePath dto) (grp_gitFilePath g),
       grp_sensitiveKeys := with_default (grp_sensitiveKeys g) (uc_sensitiveKeys dto)\<rparr>"

definition submitted_yaml :: "config_env \<Rightarrow> ConfigGroupEntity \<Rightarrow> string \<Rightarrow> json" where
  "submitted_yaml C g content =
     (let parsed = parseYaml C (Some content) in
      if grp_sensitiveKeys g \<noteq> [] \<and> truthy (grp_yamlContent g)
      then restore_keys (grp_sensitiveKeys g) (parseYaml C (grp_yamlContent g)) parsed else parsed)"

definition store_content :: "config_env \<Rightarrow> ConfigProject \<Rightarrow> UpsertConfigGroupDto \<Rightarrow> ConfigGroupEntity \<Rightarrow> ConfigGroupEntity op" where
  "store_content C p dto g =
     (case uc_yamlContent dto of
        None \<Rightarrow> return_op g
      | Some content \<Rightarrow>
          let parsed = submitted_yaml C g content in
          if grp_sensitiveKeys g \<noteq> [] \<and> isEnabled (ce_vault C) then
            bind_op (if grp_id g = 0 then lift_op (save_group g) else return_op g) (\<lambda>g1.
            bind_op (store_sensitive C (grp_id g1) (key_metadata p (uc_name dto)) (grp_sensitiveKeys g1) parsed) (\<lambda>v.
              return_op (g1\<lparr>grp_yamlContent := dump_or_null C v\<rparr>)))
          else return_op (g\<lparr>grp_yamlContent := dump_or_null C parsed\<rparr>))"

definition upsertGroup :: "config_env \<Rightarrow> UpsertConfigGroupDto \<Rightarrow> ConfigGroupDto op" where
  "upsertGroup C dto =
     bind_op (requireProject C (uc_projectIdentifier dto) [CONFIG, CONFIG_MAP]) (\<lambda>p.
     bind_op (lift_op (getOrCreateDraftRevision (cp_id p))) (\<lambda>draft.
     bind_op (gets_op (draft_group (rev_id draft) (uc_name dto))) (\<lambda>g.
     bind_op (store_content C p dto (patched_group dto g)) (\<lambda>g1.
     bind_op (lift_op (save_group g1)) (\<lambda>saved.
       return_op (mapGroupToDto C saved))))))"

definition deleteGroup :: "config_env \<Rightarrow> ident \<Rightarrow> string \<Rightarrow> unit op" where
  "deleteGroup C i groupName =
     bind_op (requireProject C i [CONFIG, CONFIG_MAP]) (\<lambda>p.
     bind_op (lift_op (getOrCreateDraftRevision (cp_id p))) (\<lambda>draft.
     bind_op (gets_op (find_group (rev_id draft) groupName)) (\<lambda>g.
       case g of
         None \<Rightarrow> throw_op NotFoundException
       | Some g \<Rightarrow>
           bind_op (deleteGroupVaultSecrets C g) (\<lambda>_.
             modify_op (\<lambda>s. s\<lparr>cs_groups := delete_where (\<lambda>x. grp_id x = grp_id g) (cs_groups s)\<rparr>)))))"


section \<open>Frames\<close>

lemma tables_cache_project [simp]:
  "cs_db (cache_project ks p s) = cs_db s" "cs_revisions (cache_project ks p s) = cs_revisions s"
  "cs_groups (cache_project ks p s) = cs_groups s" "cs_vault (cache_project ks p s) = cs_vault s"
  "cs_associations (cache_project ks p s) = cs_associations s" "cs_offerings (cache_project ks p s) = cs_offerings s"
  by (simp_all add: cache_project_def)

lemma same_cache: "\<exists>c. s = s\<lparr>projectCache := c\<rparr>"
  by (rule exI [where x = "projectCache s"]) simp

lemma getProjectByIdentifier_cache: "\<exists>c. snd (getProjectByIdentifier C i s) = s\<lparr>projectCache := c\<rparr>"
  unfolding getProjectByIdentifier_def cache_project_def by (auto intro: same_cache split: option.splits)

lemma getProjectByNameAndType_cache: "\<exists>c. snd (getProjectByNameAndType C n ty s) = s\<lparr>projectCache := c\<rparr>"
  unfolding getProjectByNameAndType_def cache_project_def by (auto intro: same_cache split: option.splits)

lemma requireProject_cache: "\<exists>c. snd (requireProject C i ts s) = s\<lparr>projectCache := c\<rparr>"
proof -
  obtain p s1 where get: "getProjectByIdentifier C i s = (p, s1)"
    by fastforce
  then have "snd (requireProject C i ts s) = s1"
    by (auto simp: requireProject_def bind_op_def lift_op_def throw_op_def return_op_def split: option.splits)
  then show ?thesis
    using getProjectByIdentifier_cache [of C i s] get by simp
qed

lemma requireProject_type: "requireProject C i ts s = (Inr p, s') \<Longrightarrow> cp_projectType p \<in> set ts"
  by (auto simp: requireProject_def bind_op_def lift_op_def throw_op_def return_op_def
      split: option.splits prod.splits if_splits)

section \<open>Masking\<close>

text \<open>
  C24. What the API shows of a group does not depend on the values at its sensitive keys: two
  contents that differ only there, however the values or the paths overlap, are shown as the same
  document.
\<close>

theorem masked_group_hides:
  assumes "truthy (Some y)" "truthy (Some y')" "grp_sensitiveKeys g \<noteq> []"
    and "agree (\<lambda>q. q \<in> path_keys ` set (grp_sensitiveKeys g)) (parseYaml C (Some y)) (parseYaml C (Some y'))"
  shows "mapGroupToDto C (g\<lparr>grp_yamlContent := Some y\<rparr>) = mapGroupToDto C (g\<lparr>grp_yamlContent := Some y'\<rparr>)"
  using assms mask_keys_hides [OF assms(4)] by (simp add: mapGroupToDto_def)

section \<open>Storing the sensitive values\<close>

definition moved_value :: "vault_config \<Rightarrow> nat \<Rightarrow> string \<Rightarrow> json \<Rightarrow> json" where
  "moved_value V gid k v =
     (if holds_plain (getByPath v k) then setByPath v k (JStr (vault_ref V (key_secret_name gid k) config_value)) else v)"

definition secrets_to_store :: "nat \<Rightarrow> (string \<Rightarrow> (string \<times> string) list) \<Rightarrow> string list \<Rightarrow> json \<Rightarrow> (string \<times> string \<times> (string \<times> string) list) list" where
  "secrets_to_store gid md ks v =
     map (\<lambda>k. (key_secret_name gid k, js_String (getByPath v k), md k)) (filter (\<lambda>k. holds_plain (getByPath v k)) ks)"

definition keys_ok :: "string list \<Rightarrow> json \<Rightarrow> bool" where
  "keys_ok ks v \<longleftrightarrow> sorted_wrt diverge (map path_keys ks) \<and> (\<forall>k\<in>set ks. path_ok v (path_keys k))"

lemma keys_ok_Cons:
  "keys_ok (k # ks) v \<longleftrightarrow> path_ok v (path_keys k) \<and> (\<forall>l\<in>set ks. diverge (path_keys k) (path_keys l)) \<and> keys_ok ks v"
  by (auto simp: keys_ok_def)

lemma holds_plain_obj_path: "path_ok v p \<Longrightarrow> holds_plain (get_path v p) \<Longrightarrow> obj_path v p"
  by (auto simp: path_ok_def holds_plain_def)

lemma moved_other:
  assumes "path_ok v (path_keys k)" "diverge (path_keys k) q"
  shows "get_path (moved_value V gid k v) q = get_path v q" "path_ok (moved_value V gid k v) q = path_ok v q"
  using assms holds_plain_obj_path
  by (auto simp: moved_value_def getByPath_def setByPath_def get_set_other path_ok_set)

lemma keys_ok_moved: "keys_ok (k # ks) v \<Longrightarrow> keys_ok ks (moved_value V gid k v)"
  using moved_other by (auto simp: keys_ok_Cons keys_ok_def)

lemma secrets_to_store_moved:
  "keys_ok (k # ks) v \<Longrightarrow> secrets_to_store gid md ks (moved_value V gid k v) = secrets_to_store gid md ks v"
proof -
  assume ok: "keys_ok (k # ks) v"
  have "getByPath (moved_value V gid k v) l = getByPath v l" if "l \<in> set ks" for l
    using ok that moved_other [of v k] by (auto simp: keys_ok_Cons getByPath_def)
  then show ?thesis
    unfolding secrets_to_store_def by (auto cong: filter_cong map_cong)
qed

lemma store_sensitive_run:
  "keys_ok ks v \<Longrightarrow>
   store_sensitive C gid md ks v s =
     (case config_vault.put_all_secrets (ce_vault C) (secrets_to_store gid md ks v) (cs_vault s) of
        (Inl e, vs) \<Rightarrow> (Inl e, s\<lparr>cs_vault := vs\<rparr>)
      | (Inr _, vs) \<Rightarrow> (Inr (fold (moved_value (ce_vault C) gid) ks v), s\<lparr>cs_vault := vs\<rparr>))"
proof (induction ks arbitrary: v s)
  case Nil
  then show ?case
    by (simp add: secrets_to_store_def return_op_def)
next
  case (Cons k ks)
  note IH = Cons.IH [OF keys_ok_moved [OF Cons.prems]]
  show ?case
  proof (cases "holds_plain (getByPath v k)")
    case True
    obtain r vs where put: "storeSecret (ce_vault C) (key_secret_name gid k) config_value
        (js_String (getByPath v k)) (md k) (cs_vault s) = (r, vs)"
      by fastforce
    show ?thesis
    proof (cases r)
      case (Inl e)
      then show ?thesis
        using True put by (simp add: bind_op_def put_secret_def secrets_to_store_def Let_def)
    next
      case (Inr ref)
      then have "ref = vault_ref (ce_vault C) (key_secret_name gid k) config_value"
        using put by (auto dest: storeSecret_Inr(3))
      then have "setByPath v k (JStr ref) = moved_value (ce_vault C) gid k v"
        using True by (simp add: moved_value_def)
      then show ?thesis
        using True put Inr IH [of "ce_vault C" gid "s\<lparr>cs_vault := vs\<rparr>"]
          secrets_to_store_moved [OF Cons.prems, of gid md "ce_vault C"]
        by (simp add: bind_op_def put_secret_def Let_def) (simp add: secrets_to_store_def split: sum.split prod.split)
    qed
  next
    case False
    then have "moved_value (ce_vault C) gid k v = v"
      by (simp add: moved_value_def)
    then show ?thesis
      using False IH [of "ce_vault C" gid s] by (simp add: Let_def) (simp add: secrets_to_store_def split: sum.split prod.split)
  qed
qed


lemma moved_fold_other:
  "keys_ok ks v \<Longrightarrow> path_ok v (path_keys l) \<Longrightarrow> (\<And>k. k \<in> set ks \<Longrightarrow> diverge (path_keys k) (path_keys l)) \<Longrightarrow>
   getByPath (fold (moved_value V gid) ks v) l = getByPath v l"
proof (induction ks arbitrary: v)
  case (Cons k ks)
  have k: "path_ok v (path_keys k)" "diverge (path_keys k) (path_keys l)"
    using Cons.prems by (auto simp: keys_ok_Cons)
  have "getByPath (fold (moved_value V gid) ks (moved_value V gid k v)) l = getByPath (moved_value V gid k v) l"
    by (rule Cons.IH [OF keys_ok_moved [OF Cons.prems(1)]]) (use Cons.prems moved_other [OF k] in auto)
  then show ?case
    using moved_other [OF k] by (simp add: getByPath_def)
qed simp

lemma ref_not_plain: "\<not> holds_plain (JStr (vault_ref V n f))"
  by (simp add: holds_plain_def)

text \<open>After the move a sensitive key holds its reference, or what it held when that was no plain value.\<close>

lemma moved_fold_get:
  "keys_ok ks v \<Longrightarrow> k \<in> set ks \<Longrightarrow>
   getByPath (fold (moved_value V gid) ks v) k =
     (if holds_plain (getByPath v k) then JStr (vault_ref V (key_secret_name gid k) config_value) else getByPath v k)"
proof (induction ks arbitrary: v)
  case (Cons l ks)
  have l: "path_ok v (path_keys l)" and div: "\<And>m. m \<in> set ks \<Longrightarrow> diverge (path_keys l) (path_keys m)"
    using Cons.prems(1) by (auto simp: keys_ok_Cons)
  show ?case
  proof (cases "k = l \<and> k \<notin> set ks")
    case True
    have at: "getByPath (moved_value V gid k v) k =
        (if holds_plain (getByPath v k) then JStr (vault_ref V (key_secret_name gid k) config_value) else getByPath v k)"
      using l True holds_plain_obj_path [OF l]
      by (auto simp: moved_value_def getByPath_def setByPath_def get_set_path)
    have "path_ok (moved_value V gid k v) (path_keys k)"
      using l True holds_plain_obj_path [OF l] obj_path_set_self
      by (auto simp: moved_value_def path_ok_def getByPath_def setByPath_def)
    then have "getByPath (fold (moved_value V gid) ks (moved_value V gid k v)) k = getByPath (moved_value V gid k v) k"
      using True div diverge_sym by (intro moved_fold_other keys_ok_moved [of k]) (use Cons.prems(1) in auto)
    then show ?thesis
      using True at by simp
  next
    case False
    then have k: "k \<in> set ks" "diverge (path_keys l) (path_keys k)"
      using Cons.prems(2) div by auto
    have "getByPath (moved_value V gid l v) k = getByPath v k"
      using moved_other(1) [OF l k(2)] by (simp add: getByPath_def)
    then show ?thesis
      using Cons.IH [OF keys_ok_moved [OF Cons.prems(1)] k(1)] by simp
  qed
qed simp


lemma parse_dump_or_null:
  assumes "yaml_round_trip (yaml_load C) (yaml_dump C)" "is_document v"
  shows "parseYaml C (dump_or_null C v) = v"
proof -
  obtain o1 where v: "v = JObj o1"
    using assms(2) by (auto simp: is_document_def)
  show ?thesis
    using assms unfolding v
    by (auto simp: parseYaml_def dump_or_null_def members_of_def truthy_def or_empty_def yaml_round_trip_def)
qed

lemma document_moved:
  "keys_ok ks v \<Longrightarrow> is_document v \<Longrightarrow> is_document (fold (moved_value V gid) ks v)"
proof (induction ks arbitrary: v)
  case (Cons k ks)
  have "is_document (moved_value V gid k v)"
    using Cons.prems holds_plain_obj_path [of v "path_keys k"]
    by (auto simp: moved_value_def keys_ok_Cons getByPath_def setByPath_def intro!: document_set_path)
  then show ?case
    using Cons.IH [OF keys_ok_moved [OF Cons.prems(1)]] by simp
qed simp

lemma store_content_vault:
  assumes "store_content C p dto g s = (Inr g', s')" "uc_yamlContent dto = Some content"
    and "isEnabled (ce_vault C)" "grp_sensitiveKeys g \<noteq> []"
  obtains g1 s1 where
    "bind_op (store_sensitive C (grp_id g1) (key_metadata p (uc_name dto)) (grp_sensitiveKeys g) (submitted_yaml C g content))
        (\<lambda>v. return_op (g1\<lparr>grp_yamlContent := dump_or_null C v\<rparr>)) s1 = (Inr g', s')"
proof (cases "grp_id g = 0")
  case True
  obtain i s1 where i: "fresh_id s = (i, s1)"
    by fastforce
  show ?thesis
    by (rule that [of "g\<lparr>grp_id := i\<rparr>" "s1\<lparr>cs_groups := cs_groups s1 @ [g\<lparr>grp_id := i\<rparr>]\<rparr>"])
      (use assms True i in \<open>simp add: store_content_def Let_def bind_op_def [of "lift_op _"] lift_op_def save_group_def\<close>)
next
  case False
  show ?thesis
    by (rule that [of g s]) (use assms False in \<open>simp add: store_content_def Let_def bind_op_def [of "return_op _"] return_op_def [of g]\<close>)
qed

lemma diverge_irrefl [simp]: "\<not> diverge p p"
  by (induction p) auto

lemma distinct_keys: "sorted_wrt diverge (map path_keys ks) \<Longrightarrow> distinct ks"
  by (induction ks) auto

lemma distinct_secret_names:
  assumes "keys_ok ks v" "inj_on undotted (set ks)"
  shows "distinct (map fst (secrets_to_store gid md ks v))"
proof -
  have "inj_on (key_secret_name gid) (set ks)"
    using assms(2) by (auto simp: inj_on_def key_secret_name_def)
  then show ?thesis
    using distinct_keys assms(1)
    by (auto simp: secrets_to_store_def keys_ok_def comp_def distinct_map intro: inj_on_subset)
qed

lemma plain_secret_name: "CHR ''/'' \<notin> set k \<Longrightarrow> plain_name (key_secret_name gid k)"
proof -
  assume "CHR ''/'' \<notin> set k"
  then have "CHR ''/'' \<notin> set (undotted k)"
    by (auto simp: undotted_def)
  moreover have "CHR ''/'' \<notin> set (show_nat gid)"
    using show_nat_digits [of gid] by (auto simp: is_digit_def)
  ultimately show ?thesis
    by (simp add: plain_name_def key_secret_name_def)
qed

text \<open>
  C23. With Vault enabled, the content a group is saved with holds no plain value at a sensitive
  key: every such value has become the reference of a secret of its own, and the reference resolves
  to the text of the value that was submitted, unless Vault fails. The keys must not contain each
  other, and no two of them may have the same secret name.
\<close>

theorem secrets_leave_the_row:
  assumes "store_content C p dto g s = (Inr g', s')" "uc_yamlContent dto = Some content"
    and "isEnabled (ce_vault C)" "grp_sensitiveKeys g \<noteq> []"
    and "yaml_round_trip (yaml_load C) (yaml_dump C)" "is_document (submitted_yaml C g content)"
    and "keys_ok (grp_sensitiveKeys g) (submitted_yaml C g content)"
    and "inj_on undotted (set (grp_sensitiveKeys g))" "\<forall>k\<in>set (grp_sensitiveKeys g). CHR ''/'' \<notin> set k"
    and "k \<in> set (grp_sensitiveKeys g)"
  shows "\<not> holds_plain (getByPath (parseYaml C (grp_yamlContent g')) k) \<and>
         (holds_plain (getByPath (submitted_yaml C g content) k) \<longrightarrow>
            (\<exists>ref. getByPath (parseYaml C (grp_yamlContent g')) k = JStr ref \<and>
               (\<forall>w. resolveSecret (ce_vault C) (cs_vault s') (Some ref) = Inr w \<longrightarrow>
                    w = Some (js_String (getByPath (submitted_yaml C g content) k)))))"
proof -
  let ?v = "submitted_yaml C g content" and ?V = "ce_vault C"
  obtain g1 s1 where run: "bind_op (store_sensitive C (grp_id g1) (key_metadata p (uc_name dto)) (grp_sensitiveKeys g) ?v)
        (\<lambda>v. return_op (g1\<lparr>grp_yamlContent := dump_or_null C v\<rparr>)) s1 = (Inr g', s')"
    by (rule store_content_vault [OF assms(1-4)])
  define kvs where "kvs = secrets_to_store (grp_id g1) (key_metadata p (uc_name dto)) (grp_sensitiveKeys g) ?v"
  define v' where "v' = fold (moved_value ?V (grp_id g1)) (grp_sensitiveKeys g) ?v"
  have put: "fst (config_vault.put_all_secrets ?V kvs (cs_vault s1)) = Inr ()"
    and vault: "cs_vault s' = snd (config_vault.put_all_secrets ?V kvs (cs_vault s1))"
    and g': "grp_yamlContent g' = dump_or_null C v'"
    using run store_sensitive_run [OF assms(7), of C "grp_id g1" "key_metadata p (uc_name dto)" s1]
    by (auto simp: bind_op_def return_op_def kvs_def v'_def split: prod.splits sum.splits)
  have parsed: "parseYaml C (grp_yamlContent g') = v'"
    unfolding g' v'_def by (rule parse_dump_or_null [OF assms(5) document_moved [OF assms(7,6)]])
  have at: "getByPath v' k = (if holds_plain (getByPath ?v k)
      then JStr (vault_ref ?V (key_secret_name (grp_id g1) k) config_value) else getByPath ?v k)"
    unfolding v'_def by (rule moved_fold_get [OF assms(7,10)])
  have "w = Some (js_String (getByPath ?v k))"
    if plain: "holds_plain (getByPath ?v k)"
      and res: "resolveSecret ?V (cs_vault s') (Some (vault_ref ?V (key_secret_name (grp_id g1) k) config_value)) = Inr w" for w
  proof (rule config_vault.put_all_get [of kvs ?V "cs_vault s1"])
    show "distinct (map fst kvs)"
      unfolding kvs_def by (rule distinct_secret_names [OF assms(7,8)])
    show "\<forall>n\<in>fst ` set kvs. plain_name n"
      using assms(9) by (auto simp: kvs_def secrets_to_store_def plain_secret_name)
    show "(key_secret_name (grp_id g1) k, js_String (getByPath ?v k), key_metadata p (uc_name dto) k) \<in> set kvs"
      using plain assms(10) by (auto simp: kvs_def secrets_to_store_def)
  qed (use put res vault in simp_all)
  then show ?thesis
    using at parsed ref_not_plain by auto
qed


section \<open>A masked document given back\<close>

lemma mask_keys_fold: "mask_keys ks v = fold mask_path (map path_keys ks) v"
  by (simp add: mask_keys_def fold_map comp_def)

lemma restore_keys_fold: "restore_keys ks e v = fold (restore_path e) (map path_keys ks) v"
  by (simp add: restore_keys_def fold_map comp_def)

lemma restore_mask_keys: "keys_ok ks v \<Longrightarrow> restore_keys ks v (mask_keys ks v) = v"
  unfolding mask_keys_fold restore_keys_fold by (rule restore_mask) (auto simp: keys_ok_def)

lemma document_mask_keys: "keys_ok ks v \<Longrightarrow> is_document v \<Longrightarrow> is_document (mask_keys ks v)"
  unfolding mask_keys_fold by (rule document_fold_mask) (auto simp: keys_ok_def)

lemma store_sensitive_none:
  "(\<And>k. k \<in> set ks \<Longrightarrow> \<not> holds_plain (getByPath v k)) \<Longrightarrow> store_sensitive C gid md ks v s = (Inr v, s)"
  by (induction ks) (auto simp: return_op_def Let_def)

definition resubmission :: "config_env \<Rightarrow> ident \<Rightarrow> ConfigGroupEntity \<Rightarrow> UpsertConfigGroupDto" where
  "resubmission C i g =
     \<lparr>uc_projectIdentifier = i, uc_name = grp_name g, uc_displayName = None, uc_isGlobal = None,
      uc_gitFilePath = None, uc_sensitiveKeys = None, uc_yamlContent = gd_yamlContent (mapGroupToDto C g)\<rparr>"

text \<open>
  C25. Giving back the masked document the API showed, unchanged, keeps the group: every masked
  value is put back in its place, nothing is written to Vault, and the group has the content it
  had (printed anew). The keys must not contain each other and, with Vault enabled, their values
  must already have moved there.
\<close>

theorem resubmitted_group_unchanged:
  fixes C g
  defines "g' \<equiv> g\<lparr>grp_yamlContent := dump_or_null C (parseYaml C (grp_yamlContent g))\<rparr>"
  assumes "requireProject C i [CONFIG, CONFIG_MAP] s = (Inr p, s1)"
    and "find_revision (cp_id p) DRAFT s = Some r" "find_group (rev_id r) (grp_name g) s = Some g"
    and "grp_id g \<noteq> 0" "truthy (grp_yamlContent g)" "grp_sensitiveKeys g \<noteq> []"
    and "yaml_round_trip (yaml_load C) (yaml_dump C)" "is_document (parseYaml C (grp_yamlContent g))"
    and "keys_ok (grp_sensitiveKeys g) (parseYaml C (grp_yamlContent g))"
    and "isEnabled (ce_vault C) \<Longrightarrow>
         \<forall>k\<in>set (grp_sensitiveKeys g). \<not> holds_plain (getByPath (parseYaml C (grp_yamlContent g)) k)"
  shows "fst (upsertGroup C (resubmission C i g) s) = Inr (mapGroupToDto C g') \<and>
         cs_groups (snd (upsertGroup C (resubmission C i g) s)) =
           update_where (\<lambda>x. grp_id x = grp_id g) (\<lambda>_. g') (cs_groups s) \<and>
         cs_vault (snd (upsertGroup C (resubmission C i g) s)) = cs_vault s"
proof -
  let ?dto = "resubmission C i g" and ?e = "parseYaml C (grp_yamlContent g)"
  obtain c where s1: "s1 = s\<lparr>projectCache := c\<rparr>"
    using requireProject_cache [of C i "[CONFIG, CONFIG_MAP]" s] assms(2) by auto
  have draft: "getOrCreateDraftRevision (cp_id p) s1 = (r, s1)"
    using assms(3) by (simp add: s1 getOrCreateDraftRevision_def find_revision_def)
  have group: "draft_group (rev_id r) (grp_name g) s1 = g"
    using assms(4) by (simp add: s1 draft_group_def find_group_def)
  have dto: "uc_projectIdentifier ?dto = i" "uc_name ?dto = grp_name g"
    by (simp_all add: resubmission_def)
  have patched: "patched_group ?dto g = g"
    by (simp add: patched_group_def resubmission_def with_default_def or_old_def)
  define y where "y = yaml_dump C (mask_keys (grp_sensitiveKeys g) ?e)"
  have shown: "uc_yamlContent ?dto = Some y"
    using assms(6,7) by (simp add: resubmission_def mapGroupToDto_def y_def)
  have "parseYaml C (Some y) = mask_keys (grp_sensitiveKeys g) ?e"
    using assms(8) document_mask_keys [OF assms(10,9)]
    by (auto simp: y_def yaml_round_trip_def parseYaml_def truthy_def or_empty_def is_document_def)
  then have submitted: "submitted_yaml C g y = ?e"
    using assms(6,7) restore_mask_keys [OF assms(10)] by (simp add: submitted_yaml_def Let_def)
  have content: "store_content C p ?dto g s1 = (Inr g', s1)"
    using assms(5,11) store_sensitive_none [of "grp_sensitiveKeys g" ?e C "grp_id g" "key_metadata p (uc_name ?dto)" s1]
    by (auto simp: store_content_def shown submitted Let_def bind_op_def return_op_def g'_def)
  have "upsertGroup C ?dto s = (Inr (mapGroupToDto C g'), snd (save_group g' s1))"
    using assms(2,5) draft group patched content dto
    by (simp add: upsertGroup_def bind_op_def lift_op_def gets_op_def return_op_def save_group_def g'_def)
  then show ?thesis
    using assms(5) by (simp add: save_group_def g'_def s1)
qed


section \<open>Worked examples\<close>

definition demo_config_env :: config_env where
  "demo_config_env =
     \<lparr>ce_env = demo_env, ce_vault = demo_vault_config, yaml_load = demo_load, yaml_dump = demo_dump,
      json_parse = demo_load, toISOString = show_nat,
      remote_project = (\<lambda>i. if i = IdNum 1 then Some \<lparr>cp_id = 1, cp_name = ''config:d1'', cp_projectType = CONFIG\<rparr>
                            else if i = IdNum 2 then Some \<lparr>cp_id = 2, cp_name = ''map'', cp_projectType = CONFIG_MAP\<rparr>
                            else None),
      remote_project_named = (\<lambda>n ty. if n = ''config:d1'' then Some \<lparr>cp_id = 1, cp_name = n, cp_projectType = CONFIG\<rparr> else None),
      device_type_exists = (\<lambda>t. t = 7), types_of_device = (\<lambda>d. [7]), devices_of_types = (\<lambda>ts. [''d1''])\<rparr>"

definition demo_revision :: ConfigRevisionEntity where
  "demo_revision = \<lparr>rev_id = 1, rev_projectId = 1, rev_revisionNumber = 1, rev_status = DRAFT,
     rev_appliedBy = None, rev_appliedAt = None, rev_semVer = None, rev_createdAt = 0\<rparr>"

definition demo_ref :: string where
  "demo_ref = ''vault:a/b/config-group-2-key-password#config_value''"

definition demo_document :: json where
  "demo_document = JObj [(''host'', JStr ''h''), (''password'', JStr demo_ref)]"

definition demo_group :: ConfigGroupEntity where
  "demo_group = (new_group 1 ''g'' 0)\<lparr>grp_id := 2, grp_sensitiveKeys := [''password''],
     grp_yamlContent := Some (demo_dump demo_document)\<rparr>"

definition demo_config :: config_state where
  "demo_config =
     \<lparr>cs_db = empty_db\<lparr>next_id := 3\<rparr>, cs_revisions = [demo_revision], cs_groups = [demo_group],
      cs_associations = [], cs_offerings = [], cs_vault = demo_vault, projectCache = [], cs_tasks = []\<rparr>"

lemma demo_parse [simp]: "parseYaml demo_config_env (Some (demo_dump (JObj o1))) = JObj o1"
  by (simp add: parseYaml_def demo_config_env_def or_empty_def)

lemma demo_keys_ok: "keys_ok [''password''] (JObj [(''host'', JStr x), (''password'', JStr y)])"
  by (simp add: keys_ok_def path_ok_def path_keys_def obj_get_def)

lemma masked_group_hides_witness:
  "mapGroupToDto demo_config_env (demo_group\<lparr>grp_yamlContent := Some (demo_dump (JObj [(''host'', JStr ''h''), (''password'', JStr ''p'')]))\<rparr>) =
   mapGroupToDto demo_config_env (demo_group\<lparr>grp_yamlContent := Some (demo_dump (JObj [(''host'', JStr ''h''), (''password'', JNum NaN)]))\<rparr>)"
proof (rule masked_group_hides)
  have "agree (\<lambda>p. ''password'' # p = [''password'']) (JStr ''p'') (JNum NaN)"
    by (rule agree.hidden) simp_all
  then show "agree (\<lambda>q. q \<in> path_keys ` set (grp_sensitiveKeys demo_group))
      (parseYaml demo_config_env (Some (demo_dump (JObj [(''host'', JStr ''h''), (''password'', JStr ''p'')]))))
      (parseYaml demo_config_env (Some (demo_dump (JObj [(''host'', JStr ''h''), (''password'', JNum NaN)]))))"
    by (auto simp: demo_group_def path_keys_def intro!: agree.members intro: agree.same)
qed (simp_all add: demo_group_def)


lemma demo_config_parts:
  "ce_vault demo_config_env = demo_vault_config" "yaml_load demo_config_env = demo_load"
  "yaml_dump demo_config_env = demo_dump" "cs_vault demo_config = demo_vault"
  "grp_sensitiveKeys demo_group = [''password'']" "grp_id demo_group = 2" "grp_name demo_group = ''g''"
  "grp_yamlContent demo_group = Some (demo_dump demo_document)"
  by (simp_all add: demo_config_env_def demo_config_def demo_group_def new_group_def)

lemma demo_require: "\<exists>s1. requireProject demo_config_env (IdNum 1) [CONFIG, CONFIG_MAP] demo_config =
    (Inr \<lparr>cp_id = 1, cp_name = ''config:d1'', cp_projectType = CONFIG\<rparr>, s1)"
  by (simp add: requireProject_def bind_op_def lift_op_def getProjectByIdentifier_def cached_project_def
      demo_config_def demo_config_env_def return_op_def)

lemma demo_find:
  "find_revision 1 DRAFT demo_config = Some demo_revision" "find_group 1 ''g'' demo_config = Some demo_group"
  by (simp_all add: find_revision_def find_group_def demo_config_def revision_with_def demo_revision_def
      demo_group_def new_group_def)

lemma demo_ref_held: "\<not> holds_plain (JStr demo_ref)"
  by code_simp

lemma resubmitted_group_unchanged_witness:
  "cs_vault (snd (upsertGroup demo_config_env (resubmission demo_config_env (IdNum 1) demo_group) demo_config)) = demo_vault"
proof -
  obtain s1 where "requireProject demo_config_env (IdNum 1) [CONFIG, CONFIG_MAP] demo_config =
      (Inr \<lparr>cp_id = 1, cp_name = ''config:d1'', cp_projectType = CONFIG\<rparr>, s1)"
    using demo_require by blast
  then have "cs_vault (snd (upsertGroup demo_config_env (resubmission demo_config_env (IdNum 1) demo_group) demo_config)) =
      cs_vault demo_config"
    by (rule resubmitted_group_unchanged [where r = demo_revision, THEN conjunct2, THEN conjunct2])
      (use demo_find demo_keys_ok demo_yaml_round_trip demo_ref_held in
        \<open>simp_all add: demo_config_parts demo_revision_def demo_document_def getByPath_def path_keys_def obj_get_def\<close>)
  then show ?thesis
    by (simp add: demo_config_def)
qed

definition demo_upsert :: UpsertConfigGroupDto where
  "demo_upsert = \<lparr>uc_projectIdentifier = IdNum 1, uc_name = ''g'', uc_displayName = None, uc_isGlobal = None,
     uc_gitFilePath = None, uc_sensitiveKeys = None,
     uc_yamlContent = Some (demo_dump (JObj [(''host'', JStr ''h''), (''password'', JStr ''p'')]))\<rparr>"

lemma demo_submitted:
  "submitted_yaml demo_config_env demo_group (demo_dump (JObj [(''host'', JStr ''h''), (''password'', JStr ''p'')])) =
   JObj [(''host'', JStr ''h''), (''password'', JStr ''p'')]"
  by (simp add: submitted_yaml_def demo_group_def restore_keys_def restore_path_def demo_document_def
      path_keys_def obj_get_def mask_text_def Let_def)

lemma secrets_leave_the_row_witness:
  "\<exists>g' s'. store_content demo_config_env \<lparr>cp_id = 1, cp_name = ''config:d1'', cp_projectType = CONFIG\<rparr> demo_upsert
      demo_group demo_config = (Inr g', s') \<and>
    \<not> holds_plain (getByPath (parseYaml demo_config_env (grp_yamlContent g')) ''password'')"
proof -
  let ?p = "\<lparr>cp_id = 1, cp_name = ''config:d1'', cp_projectType = CONFIG\<rparr>"
  let ?v = "JObj [(''host'', JStr ''h''), (''password'', JStr ''p'')]"
  have plain: "holds_plain (getByPath ?v ''password'')"
    by code_simp
  define md where "md = key_metadata ?p ''g'' ''password''"
  define x where "x = js_String (getByPath ?v ''password'')"
  have "key_secret_name 2 ''password'' \<noteq> []"
    by (simp add: key_secret_name_def)
  then obtain ref vs where put: "storeSecret demo_vault_config (key_secret_name 2 ''password'') config_value x md demo_vault = (Inr ref, vs)"
    using secrets_store(1) [OF demo_vault_ok(1) _ demo_vault_ok(2)] by (metis prod.collapse)
  have "store_sensitive demo_config_env 2 (key_metadata ?p ''g'') [''password''] ?v demo_config =
      (Inr (setByPath ?v ''password'' (JStr ref)), demo_config\<lparr>cs_vault := vs\<rparr>)"
    using plain put
    by (simp add: Let_def bind_op_def return_op_def put_secret_def demo_config_parts x_def md_def del: js_String.simps)
  then have "\<exists>g' s'. store_content demo_config_env ?p demo_upsert demo_group demo_config = (Inr g', s')"
    using demo_vault_ok(1) demo_submitted
    by (simp add: store_content_def demo_upsert_def Let_def bind_op_def return_op_def demo_config_parts)
  then obtain g' s' where run: "store_content demo_config_env ?p demo_upsert demo_group demo_config = (Inr g', s')"
    by blast
  have "\<not> holds_plain (getByPath (parseYaml demo_config_env (grp_yamlContent g')) ''password'')"
    by (rule secrets_leave_the_row [where content = "demo_dump ?v", OF run, THEN conjunct1])
      (use demo_yaml_round_trip demo_vault_ok(1) demo_keys_ok in
        \<open>simp_all add: demo_upsert_def demo_config_parts demo_submitted\<close>)
  with run show ?thesis
    by blast
qed


text \<open>
  Two sensitive keys whose paths only differ in a dot and two underscores share one secret: the
  value of the first is lost.
\<close>

lemma colliding_keys:
  "key_secret_name g ''db.pw'' = key_secret_name g ''db__pw''"
  by (simp add: key_secret_name_def undotted_def)

lemma colliding_keys_lose_value:
  "fst (store_sensitive (demo_config_env\<lparr>yaml_load := (\<lambda>_. Inl ErrorException), yaml_dump := (\<lambda>_. [])\<rparr>) 2 (\<lambda>_. [])
      [''db.pw'', ''db__pw''] (JObj [(''db'', JObj [(''pw'', JStr ''one'')]), (''db__pw'', JStr ''two'')])
      (demo_config\<lparr>cs_groups := []\<rparr>)) =
   Inr (JObj [(''db'', JObj [(''pw'', JStr ''vault:a/b/config-group-2-key-db__pw#config_value'')]),
              (''db__pw'', JStr ''vault:a/b/config-group-2-key-db__pw#config_value'')])"
  by code_simp

text \<open>A sensitive value that is an object is stored as the text \<open>[object Object]\<close>.\<close>

lemma object_value_lost: "js_String (JObj o1) = ''[object Object]''"
  by simp

text \<open>A key with a slash is stored under a name whose reference cannot be resolved.\<close>

lemma slash_key_not_plain: "\<not> plain_name (key_secret_name g ''a/b'')"
  by (simp add: plain_name_def key_secret_name_def undotted_def)

end
