(* ===== verification/Config_Device.thy ===== *)
theory Config_Device
  imports Config_Groups Rule_Evaluation
begin

text \<open>
  The configuration a device receives (\<open>getDeviceConfig\<close>, \<open>getDeviceConfigByVersion\<close>,
  \<open>buildDeviceConfigPayload\<close> and the helpers they use in \<open>config.service.ts\<close>) and its cache in the
  bucket (\<open>config-cache.service.ts\<close>): the active revision of the device's project over the active
  revisions of the config maps that apply to it, with the secrets resolved. \<open>JSON.parse\<close> and the
  text of a time are parameters.
\<close>

section \<open>The values of a group\<close>

definition resolve_key :: "config_env \<Rightarrow> config_state \<Rightarrow> string \<Rightarrow> json \<Rightarrow> json" where
  "resolve_key C s k v =
     (if holds_ref (getByPath v k) then
        setByPath v k (case resolveSecret (ce_vault C) (cs_vault s) (Some (js_String (getByPath v k))) of
                         Inr (Some x) \<Rightarrow> JStr x
                       | _ \<Rightarrow> JNull)
      else v)"

definition resolveGroupYaml :: "config_env \<Rightarrow> config_state \<Rightarrow> ConfigGroupEntity \<Rightarrow> obj \<Rightarrow> obj" where
  "resolveGroupYaml C s g globals =
     (let parsed = parseYaml C (grp_yamlContent g);
          v = (if isEnabled (ce_vault C) then fold (resolve_key C s) (grp_sensitiveKeys g) parsed else parsed)
      in put_all (members_of v) globals)"

definition collectGlobals :: "config_env \<Rightarrow> config_state \<Rightarrow> ConfigGroupEntity list \<Rightarrow> obj" where
  "collectGlobals C s gs =
     fold (\<lambda>g r. if grp_isGlobal g then put_all (resolveGroupYaml C s g []) r else r) gs []"

definition drop_nulls :: "obj \<Rightarrow> obj" where
  "drop_nulls o1 = filter (\<lambda>kv. \<not> is_nullish (snd kv)) o1"

section \<open>The config maps of a device\<close>

definition applies_to :: "nat list \<Rightarrow> string option \<Rightarrow> ConfigMapAssociationEntity \<Rightarrow> bool" where
  "applies_to types deviceId a \<longleftrightarrow>
     (cma_deviceTypeId a = None \<and> cma_deviceId a = None \<and> cma_configProjectId a = None) \<or>
     (case cma_deviceTypeId a of None \<Rightarrow> False | Some t \<Rightarrow> t \<in> set types) \<or>
     (deviceId \<noteq> None \<and> cma_deviceId a = deviceId)"

definition applicable_associations :: "nat list \<Rightarrow> string option \<Rightarrow> config_state \<Rightarrow> ConfigMapAssociationEntity list" where
  "applicable_associations types deviceId s = filter (applies_to types deviceId) (cs_associations s)"

definition active_maps :: "nat list \<Rightarrow> string \<Rightarrow> config_state \<Rightarrow> ConfigRevisionEntity list" where
  "active_maps types deviceId s =
     (let ids = js_unique (map cma_configMapProjectId (applicable_associations types (Some deviceId) s)) in
      filter (\<lambda>r. rev_projectId r \<in> set ids \<and> rev_status r = ACTIVE) (cs_revisions s))"

type_synonym group_values = "(string \<times> obj) list"

definition values_or_none :: "string \<Rightarrow> group_values \<Rightarrow> obj" where
  "values_or_none n m = (case map_of m n of None \<Rightarrow> [] | Some o1 \<Rightarrow> o1)"

definition map_groups :: "config_env \<Rightarrow> config_state \<Rightarrow> ConfigRevisionEntity list \<Rightarrow> group_values" where
  "map_groups C s revs =
     fold (\<lambda>revision m.
         fold (\<lambda>g m. if grp_isGlobal g then m
                     else alist_put (grp_name g) (put_all (resolveGroupYaml C s g []) (values_or_none (grp_name g) m)) m)
           (groups_of (rev_id revision) s) m) revs []"

definition map_globals :: "config_env \<Rightarrow> config_state \<Rightarrow> ConfigRevisionEntity list \<Rightarrow> obj" where
  "map_globals C s revs = fold (\<lambda>revision r. put_all (collectGlobals C s (groups_of (rev_id revision) s)) r) revs []"

definition device_groups :: "config_env \<Rightarrow> config_state \<Rightarrow> ConfigRevisionEntity option \<Rightarrow> group_values" where
  "device_groups C s active =
     (case active of
        None \<Rightarrow> []
      | Some revision \<Rightarrow>
          fold (\<lambda>g m. if grp_isGlobal g then m else alist_put (grp_name g) (resolveGroupYaml C s g []) m)
            (groups_of (rev_id revision) s) [])"

definition device_globals :: "config_env \<Rightarrow> config_state \<Rightarrow> ConfigRevisionEntity option \<Rightarrow> obj" where
  "device_globals C s active =
     (case active of None \<Rightarrow> [] | Some revision \<Rightarrow> put_all (collectGlobals C s (groups_of (rev_id revision) s)) [])"

definition merged_groups :: "config_env \<Rightarrow> config_state \<Rightarrow> ConfigRevisionEntity list \<Rightarrow> ConfigRevisionEntity option \<Rightarrow> group_values" where
  "merged_groups C s maps active =
     (let cm = map_groups C s maps; dg = device_groups C s active;
          globals = put_all (device_globals C s active) (map_globals C s maps)
      in map (\<lambda>n. (n, drop_nulls (put_all (values_or_none n dg) (put_all (values_or_none n cm) globals))))
           (js_unique (map fst cm @ map fst dg)))"

definition number_json :: "nat \<Rightarrow> json" where
  "number_json n = JNum (Fin (of_nat n))"

definition or_null :: "('a \<Rightarrow> json) \<Rightarrow> 'a option \<Rightarrow> json" where
  "or_null f x = (case x of None \<Rightarrow> JNull | Some y \<Rightarrow> f y)"

definition payload :: "string \<Rightarrow> nat option \<Rightarrow> string option \<Rightarrow> group_values \<Rightarrow> string \<Rightarrow> json" where
  "payload deviceId rid semVer gs computedAt =
     JObj [(''deviceId'', JStr deviceId), (''configRevisionId'', or_null number_json rid),
           (''semVer'', or_null JStr semVer), (''groups'', JObj (map (\<lambda>(n, o1). (n, JObj o1)) gs)),
           (''computedAt'', JStr computedAt)]"

definition buildDeviceConfigPayload :: "config_env \<Rightarrow> string \<Rightarrow> config_state \<Rightarrow> json \<times> config_state" where
  "buildDeviceConfigPayload C deviceId s =
     (case getProjectByNameAndType C (config_project_name deviceId) CONFIG s of
        (p, s1) \<Rightarrow>
          let maps = active_maps (types_of_device C deviceId) deviceId s1;
              active = (case p of None \<Rightarrow> None | Some p \<Rightarrow> find_revision (cp_id p) ACTIVE s1)
          in (payload deviceId (map_option rev_id active) (Option.bind active rev_semVer)
                (merged_groups C s1 maps active) (toISOString C (now s1)), s1))"

section \<open>The cache\<close>

definition versionedObjectKey :: "string \<Rightarrow> string \<Rightarrow> string" where
  "versionedObjectKey deviceId semver = ''config-cache/'' @ deviceId @ ''/'' @ semver @ ''.json''"

definition getByVersion :: "config_env \<Rightarrow> string \<Rightarrow> string \<Rightarrow> config_state \<Rightarrow> json option" where
  "getByVersion C deviceId semver s =
     (case getObject (bucket (cs_db s)) (BUCKET_NAME (ce_env C)) (versionedObjectKey deviceId semver) of
        Inl _ \<Rightarrow> None
      | Inr body \<Rightarrow> (case json_parse C body of Inl _ \<Rightarrow> None | Inr v \<Rightarrow> if js_truthy v then Some v else None))"

definition setByVersion :: "config_env \<Rightarrow> string \<Rightarrow> string \<Rightarrow> json \<Rightarrow> config_state \<Rightarrow> config_state" where
  "setByVersion C deviceId semver v s =
     (let b = BUCKET_NAME (ce_env C); k = versionedObjectKey deviceId semver; d = cs_db s in
      case putObject_result (bucket d) b k of
        Inl _ \<Rightarrow> s
      | Inr _ \<Rightarrow> s\<lparr>cs_db := d\<lparr>bucket := putObject (bucket d) b k
            \<lparr>obj_content = JSON_stringify v, obj_contentType = Some ''application/json'', obj_lastModified = clock d\<rparr>\<rparr>\<rparr>)"

definition assembleAndCacheDeviceConfig :: "config_env \<Rightarrow> string \<Rightarrow> string \<Rightarrow> config_state \<Rightarrow> config_state" where
  "assembleAndCacheDeviceConfig C deviceId semVer s =
     (case buildDeviceConfigPayload C deviceId s of (v, s1) \<Rightarrow> setByVersion C deviceId semVer v s1)"

section \<open>What a device is given\<close>

definition getActiveConfigSemVerForDevice :: "config_env \<Rightarrow> string \<Rightarrow> config_state \<Rightarrow> string option \<times> config_state" where
  "getActiveConfigSemVerForDevice C deviceId s =
     (case getProjectByNameAndType C (config_project_name deviceId) CONFIG s of
        (None, s1) \<Rightarrow> (None, s1)
      | (Some p, s1) \<Rightarrow> (Option.bind (find_revision (cp_id p) ACTIVE s1) rev_semVer, s1))"

definition getDeviceConfig :: "config_env \<Rightarrow> string \<Rightarrow> config_state \<Rightarrow> json \<times> config_state" where
  "getDeviceConfig C deviceId s =
     (case getActiveConfigSemVerForDevice C deviceId s of
        (semVer, s1) \<Rightarrow>
          (case (if truthy semVer then getByVersion C deviceId (the semVer) s1 else None) of
             Some v \<Rightarrow> (v, s1)
           | None \<Rightarrow>
               (case buildDeviceConfigPayload C deviceId s1 of
                  (v, s2) \<Rightarrow> (v, if truthy semVer then setByVersion C deviceId (the semVer) v s2 else s2))))"

definition revision_groups :: "config_env \<Rightarrow> config_state \<Rightarrow> ConfigRevisionEntity \<Rightarrow> group_values" where
  "revision_groups C s revision =
     (let gs = groups_of (rev_id revision) s; globals = collectGlobals C s gs in
      fold (\<lambda>g m. if grp_isGlobal g then m
                  else alist_put (grp_name g) (drop_nulls (resolveGroupYaml C s g globals)) m) gs [])"

definition getDeviceConfigByVersion :: "config_env \<Rightarrow> string \<Rightarrow> string \<Rightarrow> json op" where
  "getDeviceConfigByVersion C deviceId semver s =
     (case getByVersion C deviceId semver s of
        Some v \<Rightarrow> (Inr v, s)
      | None \<Rightarrow>
          (case getProjectByNameAndType C (config_project_name deviceId) CONFIG s of
             (None, s1) \<Rightarrow> (Inl NotFoundException, s1)
           | (Some p, s1) \<Rightarrow>
               (case List.find (\<lambda>r. rev_projectId r = cp_id p \<and> rev_semVer r = Some semver) (cs_revisions s1) of
                  None \<Rightarrow> (Inl NotFoundException, s1)
                | Some revision \<Rightarrow>
                    let applied = (case rev_appliedAt revision of Some t \<Rightarrow> t | None \<Rightarrow> rev_createdAt revision);
                        v = payload deviceId (Some (rev_id revision)) (rev_semVer revision) (revision_groups C s1 revision) (toISOString C applied)
                    in (Inr v, setByVersion C deviceId semver v s1))))"


section \<open>Which value wins\<close>

lemma map_of_put_all: "map_of (put_all kvs o1) k = (case map_of (rev kvs) k of Some v \<Rightarrow> Some v | None \<Rightarrow> map_of o1 k)"
proof (induction kvs arbitrary: o1)
  case (Cons kv kvs)
  then show ?case
    by (cases kv) (auto simp: put_all_Cons map_add_def split: option.splits)
qed (simp add: put_all_def)

lemma distinct_put_all: "distinct (map fst o1) \<Longrightarrow> distinct (map fst (put_all kvs o1))"
proof (induction kvs arbitrary: o1)
  case (Cons kv kvs)
  then show ?case
    by (simp add: put_all_Cons distinct_alist_put)
qed (simp add: put_all_def)

lemma map_of_rev_distinct: "distinct (map fst kvs) \<Longrightarrow> map_of (rev kvs) = map_of kvs"
  by (rule map_of_eqI) (auto simp: rev_map [symmetric])

lemma map_of_put_all_distinct:
  "distinct (map fst kvs) \<Longrightarrow> map_of (put_all kvs o1) k = (case map_of kvs k of Some v \<Rightarrow> Some v | None \<Rightarrow> map_of o1 k)"
  by (simp add: map_of_put_all map_of_rev_distinct)

lemma map_of_filter_snd:
  "distinct (map fst o1) \<Longrightarrow>
   map_of (filter (\<lambda>kv. P (snd kv)) o1) k = (case map_of o1 k of Some v \<Rightarrow> if P v then Some v else None | None \<Rightarrow> None)"
proof (induction o1)
  case (Cons kv o1)
  moreover have "k \<notin> fst ` set o1 \<Longrightarrow> map_of o1 k = None"
    by (simp add: map_of_eq_None_iff)
  ultimately show ?case
    by (cases kv) auto
qed simp

text \<open>The layers from the strongest to the weakest: the first that has the key decides, and hides the others even with \<open>null\<close>.\<close>

fun winner :: "json option list \<Rightarrow> json" where
  "winner [] = JUndef"
| "winner (None # vs) = winner vs"
| "winner (Some v # vs) = (if is_nullish v then JUndef else v)"

definition distinct_values :: "group_values \<Rightarrow> bool" where
  "distinct_values m \<longleftrightarrow> (\<forall>(n, o1)\<in>set m. distinct (map fst o1))"

lemma distinct_values_Nil [simp]: "distinct_values []"
  by (simp add: distinct_values_def)

lemma distinct_values_put: "distinct_values m \<Longrightarrow> distinct (map fst o1) \<Longrightarrow> distinct_values (alist_put n o1 m)"
  by (fastforce simp: distinct_values_def dest: set_alist_put)

lemma distinct_values_or_none: "distinct_values m \<Longrightarrow> distinct (map fst (values_or_none n m))"
  by (auto simp: values_or_none_def distinct_values_def split: option.splits dest!: map_of_SomeD)

lemma distinct_resolve: "distinct (map fst globals) \<Longrightarrow> distinct (map fst (resolveGroupYaml C s g globals))"
  by (simp add: resolveGroupYaml_def Let_def distinct_put_all)

lemma distinct_device_groups: "distinct_values (device_groups C s active)"
proof (cases active)
  case (Some revision)
  have "distinct_values (fold (\<lambda>g m. if grp_isGlobal g then m else alist_put (grp_name g) (resolveGroupYaml C s g []) m) gs m)"
    if "distinct_values m" for gs m
    using that by (induction gs arbitrary: m) (auto simp: distinct_values_put distinct_resolve)
  then show ?thesis
    using Some by (simp add: device_groups_def)
qed (simp add: device_groups_def)

lemma distinct_map_groups: "distinct_values (map_groups C s maps)"
proof -
  have one: "distinct_values (fold (\<lambda>g m. if grp_isGlobal g then m
      else alist_put (grp_name g) (put_all (resolveGroupYaml C s g []) (values_or_none (grp_name g) m)) m) gs m)"
    if "distinct_values m" for gs m
    using that
    by (induction gs arbitrary: m) (auto simp: distinct_values_put distinct_put_all distinct_values_or_none)
  have "distinct_values (fold (\<lambda>revision m. fold (\<lambda>g m. if grp_isGlobal g then m
      else alist_put (grp_name g) (put_all (resolveGroupYaml C s g []) (values_or_none (grp_name g) m)) m)
      (groups_of (rev_id revision) s) m) maps m)" if "distinct_values m" for m
    using that by (induction maps arbitrary: m) (simp_all add: one)
  then show ?thesis
    by (simp add: map_groups_def)
qed

lemma distinct_device_globals: "distinct (map fst (device_globals C s active))"
  by (auto simp: device_globals_def distinct_put_all split: option.splits)

lemma map_of_map_pair: "n \<in> set ns \<Longrightarrow> map_of (map (\<lambda>n. (n, f n)) ns) n = Some (f n)"
  by (induction ns) auto

text \<open>
  C26. The value a device receives for a key of a group is the one of its own group if the group
  has the key, else that of the group of the same name in the config maps, else that of the globals
  of its revision, else that of the globals of the config maps; a \<open>null\<close> in the deciding layer
  removes the key instead of uncovering a weaker value.
\<close>

theorem device_config_precedence:
  assumes "n \<in> set (map fst (merged_groups C s maps active))"
  shows "obj_get (values_or_none n (merged_groups C s maps active)) k =
    winner [map_of (values_or_none n (device_groups C s active)) k, map_of (values_or_none n (map_groups C s maps)) k,
            map_of (device_globals C s active) k, map_of (map_globals C s maps) k]"
proof -
  let ?dg = "values_or_none n (device_groups C s active)" and ?cm = "values_or_none n (map_groups C s maps)"
  let ?globals = "put_all (device_globals C s active) (map_globals C s maps)"
  let ?all = "put_all ?dg (put_all ?cm ?globals)"
  have "distinct (map fst (map_globals C s maps))"
  proof -
    have "distinct (map fst m) \<Longrightarrow> distinct (map fst (fold (\<lambda>revision r. put_all (collectGlobals C s (groups_of (rev_id revision) s)) r) maps m))" for m
      by (induction maps arbitrary: m) (simp_all add: distinct_put_all)
    then show ?thesis
      by (simp add: map_globals_def)
  qed
  then have distinct: "distinct (map fst ?all)"
    by (intro distinct_put_all)
  have "n \<in> set (js_unique (map fst (map_groups C s maps) @ map fst (device_groups C s active)))"
    using assms by (simp add: merged_groups_def Let_def comp_def image_image)
  then have "map_of (merged_groups C s maps active) n = Some (drop_nulls ?all)"
    unfolding merged_groups_def Let_def by (rule map_of_map_pair)
  then have "values_or_none n (merged_groups C s maps active) = drop_nulls ?all"
    unfolding values_or_none_def [of n "merged_groups C s maps active"] by simp
  then have "obj_get (values_or_none n (merged_groups C s maps active)) k =
      (case map_of ?all k of Some v \<Rightarrow> if \<not> is_nullish v then v else JUndef | None \<Rightarrow> JUndef)"
    using map_of_filter_snd [OF distinct, of "\<lambda>v. \<not> is_nullish v" k]
    by (auto simp: obj_get_def drop_nulls_def split: option.splits)
  also have "map_of ?all k = (case map_of ?dg k of Some v \<Rightarrow> Some v | None \<Rightarrow>
      (case map_of ?cm k of Some v \<Rightarrow> Some v | None \<Rightarrow>
      (case map_of (device_globals C s active) k of Some v \<Rightarrow> Some v | None \<Rightarrow> map_of (map_globals C s maps) k)))"
    by (simp add: map_of_put_all_distinct distinct_values_or_none distinct_device_groups distinct_map_groups distinct_device_globals
        split: option.split)
  finally show ?thesis
    by (simp split: option.split)
qed


definition demo_active :: ConfigRevisionEntity where
  "demo_active = demo_revision\<lparr>rev_status := ACTIVE, rev_semVer := Some ''1.0.0''\<rparr>"

definition demo_map :: ConfigRevisionEntity where
  "demo_map = \<lparr>rev_id = 8, rev_projectId = 2, rev_revisionNumber = 1, rev_status = ACTIVE,
     rev_appliedBy = None, rev_appliedAt = None, rev_semVer = Some ''1.0.0'', rev_createdAt = 0\<rparr>"

definition demo_device_group :: ConfigGroupEntity where
  "demo_device_group = (new_group 1 ''net'' 0)\<lparr>grp_id := 2,
     grp_yamlContent := Some (demo_dump (JObj [(''host'', JNull), (''port'', JStr ''1'')]))\<rparr>"

definition demo_map_group :: ConfigGroupEntity where
  "demo_map_group = (new_group 8 ''net'' 0)\<lparr>grp_id := 9,
     grp_yamlContent := Some (demo_dump (JObj [(''host'', JStr ''h''), (''port'', JStr ''2''), (''ttl'', JStr ''3'')]))\<rparr>"

definition demo_device_config :: config_state where
  "demo_device_config = demo_config\<lparr>cs_revisions := [demo_active, demo_map],
     cs_groups := [demo_device_group, demo_map_group],
     cs_associations := [\<lparr>cma_id = 5, cma_configMapProjectId = 2, cma_deviceTypeId = Some 7, cma_deviceId = None, cma_configProjectId = None\<rparr>]\<rparr>"

lemma demo_layers:
  "device_groups demo_config_env demo_device_config (Some demo_active) = [(''net'', [(''host'', JNull), (''port'', JStr ''1'')])]"
  "map_groups demo_config_env demo_device_config [demo_map] = [(''net'', [(''host'', JStr ''h''), (''port'', JStr ''2''), (''ttl'', JStr ''3'')])]"
  by (simp_all add: device_groups_def map_groups_def groups_of_def demo_device_config_def demo_device_group_def
      demo_map_group_def demo_active_def demo_map_def demo_revision_def new_group_def resolveGroupYaml_def
      values_or_none_def put_all_def members_of_def Let_def)

lemma device_config_precedence_witness:
  "active_maps [7] ''d1'' demo_device_config = [demo_map] \<and>
   (let r = values_or_none ''net'' (merged_groups demo_config_env demo_device_config [demo_map] (Some demo_active))
    in obj_get r ''host'' = JUndef \<and> obj_get r ''port'' = JStr ''1'' \<and> obj_get r ''ttl'' = JStr ''3'')"
proof
  show "active_maps [7] ''d1'' demo_device_config = [demo_map]"
    by (simp add: active_maps_def applicable_associations_def applies_to_def demo_device_config_def demo_active_def
        demo_map_def demo_revision_def Let_def js_unique_def)
  have n: "''net'' \<in> set (map fst (merged_groups demo_config_env demo_device_config [demo_map] (Some demo_active)))"
    by (simp add: merged_groups_def Let_def demo_layers)
  note value_of = device_config_precedence [OF n]
  show "let r = values_or_none ''net'' (merged_groups demo_config_env demo_device_config [demo_map] (Some demo_active))
    in obj_get r ''host'' = JUndef \<and> obj_get r ''port'' = JStr ''1'' \<and> obj_get r ''ttl'' = JStr ''3''"
    unfolding Let_def value_of by (simp add: demo_layers values_or_none_def)
qed

section \<open>The cache returns what was assembled\<close>

lemma put_get_object:
  "fault st (b, k) = None \<Longrightarrow> getObject (putObject st b k o1) b k = Inr (obj_content o1)"
  by (simp add: getObject_def statObject_def putObject_def)

lemma cache_hit:
  assumes "fault (bucket (cs_db s)) (BUCKET_NAME (ce_env C), versionedObjectKey d v) = None"
    and "json_parse C (JSON_stringify x) = Inr x" "js_truthy x"
  shows "getByVersion C d v (setByVersion C d v x s) = Some x"
  using assms by (simp add: getByVersion_def setByVersion_def Let_def putObject_result_def put_get_object)

lemma getActive_cached:
  assumes "getActiveConfigSemVerForDevice C d s = (sv, s1)"
  shows "cs_revisions s1 = cs_revisions s" "cs_db s1 = cs_db s"
  using assms getProjectByNameAndType_cache [of C "config_project_name d" CONFIG s]
  by (auto simp: getActiveConfigSemVerForDevice_def split: prod.splits option.splits)


lemma getByVersion_bucket: "bucket (cs_db s) = bucket (cs_db s') \<Longrightarrow> getByVersion C d v s = getByVersion C d v s'"
  by (simp add: getByVersion_def)


definition demo_payload :: json where
  "demo_payload = payload ''d1'' (Some 1) (Some ''1.0.0'') [(''net'', [(''port'', JStr ''1'')])] ''0''"

definition demo_json_env :: config_env where
  "demo_json_env = demo_config_env\<lparr>json_parse := (\<lambda>t. if t = JSON_stringify demo_payload then Inr demo_payload else Inl ErrorException)\<rparr>"

lemma demo_json_parts:
  "toISOString demo_json_env = show_nat" "BUCKET_NAME (ce_env demo_json_env) = ''main''" "ce_vault demo_json_env = demo_vault_config"
  "remote_project_named demo_json_env ''config:d1'' CONFIG = Some \<lparr>cp_id = 1, cp_name = ''config:d1'', cp_projectType = CONFIG\<rparr>"
  "parseYaml demo_json_env = parseYaml demo_config_env"
  by (simp_all add: demo_json_env_def demo_config_env_def demo_env_def parseYaml_def fun_eq_iff)

lemma demo_served:
  "\<exists>s'. getDeviceConfigByVersion demo_json_env ''d1'' ''1.0.0'' demo_device_config = (Inr demo_payload, s')"
proof -
  have "getByVersion demo_json_env ''d1'' ''1.0.0'' demo_device_config = None"
    by (simp add: getByVersion_def getObject_def statObject_def demo_device_config_def demo_config_def empty_db_def empty_store_def)
  moreover have "show_nat 0 = ''0''"
    by code_simp
  ultimately show ?thesis
    by (simp add: getDeviceConfigByVersion_def getProjectByNameAndType_def cached_project_def demo_device_config_def
        demo_config_def demo_json_parts config_project_name_def config_prefix_def
        demo_active_def demo_revision_def demo_payload_def revision_groups_def groups_of_def demo_device_group_def
        demo_map_group_def new_group_def collectGlobals_def resolveGroupYaml_def put_all_def members_of_def
        drop_nulls_def Let_def)
qed



text \<open>
  The two ways to obtain a configuration differ: the payload of a version that is not in the cache
  leaves out the config maps.
\<close>

lemma version_omits_maps:
  "values_or_none ''net'' (revision_groups demo_config_env demo_device_config demo_active) = [(''port'', JStr ''1'')]"
  "obj_get (values_or_none ''net'' (merged_groups demo_config_env demo_device_config [demo_map] (Some demo_active))) ''ttl'' = JStr ''3''"
proof -
  show "values_or_none ''net'' (revision_groups demo_config_env demo_device_config demo_active) = [(''port'', JStr ''1'')]"
    by (simp add: revision_groups_def groups_of_def demo_device_config_def demo_device_group_def
        demo_map_group_def demo_active_def demo_revision_def new_group_def collectGlobals_def resolveGroupYaml_def
        put_all_def members_of_def drop_nulls_def values_or_none_def Let_def)
  show "obj_get (values_or_none ''net'' (merged_groups demo_config_env demo_device_config [demo_map] (Some demo_active))) ''ttl'' = JStr ''3''"
    unfolding merged_groups_def Let_def demo_layers
    by (simp add: values_or_none_def put_all_def drop_nulls_def map_globals_def device_globals_def collectGlobals_def
        groups_of_def demo_device_config_def demo_device_group_def demo_map_group_def demo_active_def demo_map_def
        demo_revision_def new_group_def obj_get_def js_unique_def)
qed

end
