(* ===== verification/Config_Revisions.thy ===== *)
theory Config_Revisions
  imports Config_Device
begin

text \<open>
  The life of the revisions (\<open>apps/upload/src/config/config.service.ts\<close>): drafts are created, filled
  from config maps or copied, applied and deleted; applying a revision archives the active one,
  gives it the next semantic version, replaces the release of the project and fills the cache; a
  config map that is applied or newly associated republishes the projects of its devices. The
  calls the code does not wait for are tasks of the state.
\<close>

section \<open>The next semantic version\<close>

definition version_part :: "string option \<Rightarrow> nat \<Rightarrow> jsnum" where
  "version_part sv i =
     (if \<not> truthy sv then Fin 0
      else let parts = map js_Number (split_char (CHR ''.'') (or_empty sv))
           in if i < length parts then parts ! i else Fin 0)"

definition group_map :: "config_env \<Rightarrow> ConfigGroupEntity list \<Rightarrow> (string \<times> obj) list" where
  "group_map C gs = fold (\<lambda>g. alist_put (grp_name g) (members_of (parseYaml C (grp_yamlContent g)))) gs []"

definition major_change :: "(string \<times> obj) list \<Rightarrow> (string \<times> obj) list \<Rightarrow> bool" where
  "major_change prev draft \<longleftrightarrow>
     list_ex (\<lambda>(n, d). case map_of prev n of
                None \<Rightarrow> True
              | Some p \<Rightarrow> list_ex (\<lambda>k. k \<notin> set (map fst d)) (map fst p)) draft \<or>
     list_ex (\<lambda>n. n \<notin> set (map fst draft)) (map fst prev)"

definition minor_change :: "(string \<times> obj) list \<Rightarrow> (string \<times> obj) list \<Rightarrow> bool" where
  "minor_change prev draft \<longleftrightarrow>
     list_ex (\<lambda>(n, d). case map_of prev n of
                None \<Rightarrow> False
              | Some p \<Rightarrow> list_ex (\<lambda>k. k \<notin> set (map fst p) \<or> JSON_stringify (obj_get p k) \<noteq> JSON_stringify (obj_get d k))
                  (map fst d)) draft"

definition version_text :: "jsnum \<Rightarrow> jsnum \<Rightarrow> jsnum \<Rightarrow> string" where
  "version_text a b c = number_text a @ ''.'' @ number_text b @ ''.'' @ number_text c"

definition computeNextSemVer :: "config_env \<Rightarrow> ConfigGroupEntity list option \<Rightarrow> ConfigGroupEntity list \<Rightarrow> string option \<Rightarrow> string" where
  "computeNextSemVer C prevGroups draftGroups prevSemVer =
     (if prevGroups = None \<or> prevGroups = Some [] then ''1.0.0''
      else
        let major = version_part prevSemVer 0; minor = version_part prevSemVer 1; patch = version_part prevSemVer 2;
            prev = group_map C (the prevGroups); draft = group_map C draftGroups
        in if major_change prev draft then version_text (js_add major (Fin 1)) (Fin 0) (Fin 0)
           else if minor_change prev draft then version_text major (js_add minor (Fin 1)) (Fin 0)
           else version_text major minor (js_add patch (Fin 1)))"

section \<open>Copying groups\<close>

definition fill_group :: "nat \<Rightarrow> string option \<Rightarrow> unit op" where
  "fill_group gid y = modify_op (\<lambda>s. s\<lparr>cs_groups := update_where (\<lambda>x. grp_id x = gid) (\<lambda>x. x\<lparr>grp_yamlContent := y\<rparr>) (cs_groups s)\<rparr>)"

text \<open>A secret that cannot be read or written keeps its old reference.\<close>

fun clone_secrets :: "config_env \<Rightarrow> nat \<Rightarrow> string list \<Rightarrow> json \<Rightarrow> config_state \<Rightarrow> json \<times> config_state" where
  "clone_secrets C gid [] v s = (v, s)"
| "clone_secrets C gid (k # ks) v s =
     (if holds_ref (getByPath v k) then
        (case resolveSecret (ce_vault C) (cs_vault s) (Some (js_String (getByPath v k))) of
           Inr (Some plain) \<Rightarrow>
             (case put_secret C (key_secret_name gid k) plain [] s of
                (Inl _, s1) \<Rightarrow> clone_secrets C gid ks v s1
              | (Inr ref, s1) \<Rightarrow> clone_secrets C gid ks (setByPath v k (JStr ref)) s1)
         | _ \<Rightarrow> clone_secrets C gid ks v s)
      else clone_secrets C gid ks v s)"

definition cloneGroupToRevision :: "config_env \<Rightarrow> ConfigGroupEntity \<Rightarrow> nat \<Rightarrow> nat \<Rightarrow> unit op" where
  "cloneGroupToRevision C src rid pos =
     bind_op (lift_op (save_group (src\<lparr>grp_id := 0, grp_revisionId := rid, grp_yamlContent := None, grp_position := pos\<rparr>))) (\<lambda>g.
       if \<not> truthy (grp_yamlContent src) then return_op ()
       else
         bind_op (if grp_sensitiveKeys src \<noteq> [] \<and> isEnabled (ce_vault C)
                  then lift_op (clone_secrets C (grp_id g) (grp_sensitiveKeys src) (parseYaml C (grp_yamlContent src)))
                  else return_op (parseYaml C (grp_yamlContent src)))
           (\<lambda>v. fill_group (grp_id g) (dump_or_null C v)))"

section \<open>Filling a draft from the config maps\<close>

record merged_group =
  mg_isGlobal :: bool
  mg_gitFilePath :: "string option"
  mg_sensitiveKeys :: "string list"
  mg_data :: obj

definition collect_group :: "config_env \<Rightarrow> config_state \<Rightarrow> ConfigGroupEntity \<Rightarrow> (string \<times> merged_group) list \<Rightarrow> (string \<times> merged_group) list" where
  "collect_group C s g m =
     (let x = (case map_of m (grp_name g) of
                 None \<Rightarrow> \<lparr>mg_isGlobal = grp_isGlobal g, mg_gitFilePath = grp_gitFilePath g,
                          mg_sensitiveKeys = js_unique (grp_sensitiveKeys g), mg_data = []\<rparr>
               | Some x \<Rightarrow> x\<lparr>mg_sensitiveKeys := js_unique (mg_sensitiveKeys x @ grp_sensitiveKeys g)\<rparr>)
      in alist_put (grp_name g) (x\<lparr>mg_data := put_all (resolveGroupYaml C s g []) (mg_data x)\<rparr>) m)"

definition collected_groups :: "config_env \<Rightarrow> ConfigRevisionEntity list \<Rightarrow> config_state \<Rightarrow> (string \<times> merged_group) list" where
  "collected_groups C revs s = fold (\<lambda>r. fold (collect_group C s) (groups_of (rev_id r) s)) revs []"

fun store_merged :: "config_env \<Rightarrow> nat \<Rightarrow> (string \<Rightarrow> (string \<times> string) list) \<Rightarrow> string list \<Rightarrow> json \<Rightarrow> json op" where
  "store_merged C gid md [] v = return_op v"
| "store_merged C gid md (k # ks) v =
     (let x = getByPath v k in
      if is_nullish x then store_merged C gid md ks v
      else bind_op (put_secret C (key_secret_name gid k) (case x of JStr t \<Rightarrow> t | _ \<Rightarrow> JSON_stringify x) (md k))
             (\<lambda>ref. store_merged C gid md ks (setByPath v k (JStr ref))))"

definition write_merged :: "config_env \<Rightarrow> nat \<Rightarrow> string \<Rightarrow> string \<times> merged_group \<Rightarrow> unit op" where
  "write_merged C draftId deviceId nm =
     (let n = fst nm; x = snd nm; keys = mg_sensitiveKeys x in
      bind_op (gets_op (find_group draftId n)) (\<lambda>found.
      bind_op (case found of
                 None \<Rightarrow> bind_op (gets_op (getNextGroupPosition draftId)) (\<lambda>pos.
                    lift_op (save_group ((new_group draftId n pos)\<lparr>grp_isGlobal := mg_isGlobal x,
                       grp_gitFilePath := mg_gitFilePath x, grp_sensitiveKeys := keys\<rparr>)))
               | Some g \<Rightarrow> bind_op (deleteGroupVaultSecrets C g) (\<lambda>_. lift_op (save_group (g\<lparr>grp_sensitiveKeys := keys\<rparr>)))) (\<lambda>g.
      bind_op (if keys \<noteq> [] \<and> isEnabled (ce_vault C)
               then store_merged C (grp_id g) (\<lambda>k. [(''deviceId'', deviceId), (''groupName'', n), (''keyPath'', k)]) keys (JObj (mg_data x))
               else return_op (JObj (mg_data x))) (\<lambda>v.
        fill_group (grp_id g) (dump_or_null C v)))))"

definition populateDraftFromConfigMaps :: "config_env \<Rightarrow> nat \<Rightarrow> string \<Rightarrow> nat list option \<Rightarrow> unit op" where
  "populateDraftFromConfigMaps C draftId deviceId knownTypes =
     bind_op (gets_op (active_maps (with_default (types_of_device C deviceId) knownTypes) deviceId)) (\<lambda>maps.
     bind_op (gets_op (collected_groups C maps)) (\<lambda>gs.
       each_op (write_merged C draftId deviceId) gs))"

section \<open>The release of a configuration\<close>

definition repushed :: "string \<Rightarrow> string \<Rightarrow> config_state \<Rightarrow> config_state" where
  "repushed c d s =
     s\<lparr>cs_offerings := upsert_row (\<lambda>x. off_device x = d \<and> off_release x = c) (\<lambda>x. x\<lparr>off_action := PUSH\<rparr>)
        \<lparr>off_device = d, off_release = c, off_action = PUSH\<rparr> (cs_offerings s)\<rparr>"

definition config_release :: "nat \<Rightarrow> string \<Rightarrow> ReleaseEntity" where
  "config_release pid v =
     \<lparr>rel_catalogId = [], rel_version = v, rel_name = None, rel_status = RELEASED, rel_releaseNotes = None,
      rel_metadata = [], rel_project = pid, rel_requiredRegulationsCount = 0, rel_compliantRegulationsCount = 0,
      rel_createdBy = None, rel_updatedBy = None, rel_releasedAt = None, rel_isImported = False,
      rel_sortOrder = 0, rel_latest = False\<rparr>"

text \<open>The old release is the one with the highest sort order; a second release of the version violates a unique index.\<close>

definition current_release :: "nat \<Rightarrow> config_state \<Rightarrow> ReleaseEntity option" where
  "current_release pid s = max_sort_order (filter (\<lambda>r. rel_project r = pid) (releases (cs_db s)))"

definition pushed_devices :: "ReleaseEntity option \<Rightarrow> config_state \<Rightarrow> string list" where
  "pushed_devices old s =
     (case old of
        None \<Rightarrow> []
      | Some r \<Rightarrow> filter (\<lambda>d. d \<noteq> [])
          (map off_device (filter (\<lambda>x. off_release x = rel_catalogId r \<and> off_action x = PUSH) (cs_offerings s))))"

definition drop_release :: "ReleaseEntity option \<Rightarrow> unit op" where
  "drop_release old s =
     (case old of
        None \<Rightarrow> (Inr (), s)
      | Some r \<Rightarrow>
          if release_referenced (rel_catalogId r) (cs_db s) then (Inl ErrorException, s)
          else (Inr (), s\<lparr>cs_db := delete_release_row (rel_catalogId r) (cs_db s),
                          cs_offerings := delete_where (\<lambda>x. off_release x = rel_catalogId r) (cs_offerings s)\<rparr>))"

definition add_release :: "config_env \<Rightarrow> nat \<Rightarrow> string \<Rightarrow> unit op" where
  "add_release C pid v s =
     (if find_release (cs_db s) pid v \<noteq> None then (Inl ErrorException, s)
      else (Inr (), s\<lparr>cs_db := insert_release (ce_env C) (config_release pid v) (cs_db s)\<rparr>))"

definition updateConfigProjectRelease :: "config_env \<Rightarrow> nat \<Rightarrow> string \<Rightarrow> unit op" where
  "updateConfigProjectRelease C pid v =
     bind_op (gets_op (current_release pid)) (\<lambda>old.
     bind_op (gets_op (pushed_devices old)) (\<lambda>pushed.
     bind_op (drop_release old) (\<lambda>_.
     bind_op (add_release C pid v) (\<lambda>_.
       modify_op (\<lambda>s. fold (repushed (catalog_id_of (cs_db s) pid v)) pushed s)))))"


section \<open>Creating, applying and deleting drafts\<close>

definition archive_active :: "nat \<Rightarrow> config_state \<Rightarrow> config_state" where
  "archive_active pid = update_revisions (revision_with pid ACTIVE) (\<lambda>r. r\<lparr>rev_status := ARCHIVED\<rparr>)"

definition activate :: "nat \<Rightarrow> (ConfigRevisionEntity \<Rightarrow> ConfigRevisionEntity) \<Rightarrow> string \<Rightarrow> config_state \<Rightarrow> config_state" where
  "activate rid f semVer s =
     update_revisions (\<lambda>r. rev_id r = rid)
       (\<lambda>r. f (r\<lparr>rev_status := ACTIVE, rev_appliedAt := Some (now s), rev_semVer := Some semVer\<rparr>)) s"

definition groups_of_revision :: "ConfigRevisionEntity option \<Rightarrow> config_state \<Rightarrow> ConfigGroupEntity list option" where
  "groups_of_revision r s = map_option (\<lambda>r. groups_of (rev_id r) s) r"

definition add_config_task :: "config_task \<Rightarrow> config_state \<Rightarrow> config_state" where
  "add_config_task t s = s\<lparr>cs_tasks := cs_tasks s @ [t]\<rparr>"

definition next_version :: "config_env \<Rightarrow> nat \<Rightarrow> nat \<Rightarrow> config_state \<Rightarrow> string" where
  "next_version C pid draftId s =
     (let prev = find_revision pid ACTIVE s in
      computeNextSemVer C (groups_of_revision prev s) (groups_of draftId s) (Option.bind prev rev_semVer))"

definition applyRevision :: "config_env \<Rightarrow> ident \<Rightarrow> string option \<Rightarrow> ConfigRevisionDto op" where
  "applyRevision C i appliedBy =
     bind_op (requireProject C i [CONFIG, CONFIG_MAP]) (\<lambda>p.
     bind_op (gets_op (find_revision (cp_id p) DRAFT)) (\<lambda>draft.
       case draft of
         None \<Rightarrow> throw_op NotFoundException
       | Some draft \<Rightarrow>
           bind_op (gets_op (next_version C (cp_id p) (rev_id draft))) (\<lambda>v.
           bind_op (modify_op (archive_active (cp_id p))) (\<lambda>_.
           bind_op (modify_op (activate (rev_id draft) (\<lambda>r. r\<lparr>rev_appliedBy := appliedBy\<rparr>) v)) (\<lambda>_.
           bind_op (case (if cp_projectType p = CONFIG then device_of_project (cp_name p) else None) of
                      None \<Rightarrow> return_op ()
                    | Some deviceId \<Rightarrow>
                        bind_op (updateConfigProjectRelease C (cp_id p) v) (\<lambda>_.
                          modify_op (assembleAndCacheDeviceConfig C deviceId v))) (\<lambda>_.
           bind_op (if cp_projectType p = CONFIG_MAP then modify_op (add_config_task (CascadeRevision (cp_id p))) else return_op ()) (\<lambda>_.
             gets_op (\<lambda>s. mapRevisionToDto C
               (draft\<lparr>rev_semVer := Some v, rev_status := ACTIVE, rev_appliedBy := appliedBy, rev_appliedAt := Some (now s)\<rparr>)
               (Some (groups_of (rev_id draft) s)))))))))) "

definition latest_archived :: "nat \<Rightarrow> config_state \<Rightarrow> ConfigRevisionEntity option" where
  "latest_archived pid s =
     (case filter (revision_with pid ARCHIVED) (cs_revisions s) of
        [] \<Rightarrow> None
      | r # rs \<Rightarrow> Some (foldl (\<lambda>a b. if rev_revisionNumber a < rev_revisionNumber b then b else a) r rs))"

definition createDraftRevision :: "config_env \<Rightarrow> ident \<Rightarrow> ConfigRevisionDto op" where
  "createDraftRevision C i =
     bind_op (requireProject C i [CONFIG, CONFIG_MAP]) (\<lambda>p.
     bind_op (gets_op (find_revision (cp_id p) DRAFT)) (\<lambda>existing.
       if existing \<noteq> None then throw_op BadRequestException
       else
         bind_op (gets_op (max_revision (cp_id p))) (\<lambda>n.
         bind_op (lift_op (new_revision (cp_id p) (n + 1))) (\<lambda>draft.
         bind_op (gets_op (\<lambda>s. case find_revision (cp_id p) ACTIVE s of
                              Some r \<Rightarrow> groups_of (rev_id r) s
                            | None \<Rightarrow> (case latest_archived (cp_id p) s of Some r \<Rightarrow> groups_of (rev_id r) s | None \<Rightarrow> []))) (\<lambda>gs.
         bind_op (each_op (\<lambda>g. cloneGroupToRevision C g (rev_id draft) (grp_position g)) gs) (\<lambda>_.
           return_op (mapRevisionToDto C draft None)))))))"

definition deleteDraftRevision :: "config_env \<Rightarrow> ident \<Rightarrow> unit op" where
  "deleteDraftRevision C i =
     bind_op (requireProject C i [CONFIG, CONFIG_MAP]) (\<lambda>p.
     bind_op (gets_op (find_revision (cp_id p) DRAFT)) (\<lambda>draft.
       case draft of
         None \<Rightarrow> throw_op NotFoundException
       | Some draft \<Rightarrow>
           bind_op (gets_op (groups_of (rev_id draft))) (\<lambda>gs.
           bind_op (if isEnabled (ce_vault C) then each_op (deleteGroupVaultSecrets C) gs else return_op ()) (\<lambda>_.
             modify_op (\<lambda>s. s\<lparr>cs_revisions := delete_where (\<lambda>r. rev_id r = rev_id draft) (cs_revisions s),
                              cs_groups := delete_where (\<lambda>g. grp_revisionId g = rev_id draft) (cs_groups s)\<rparr>)))))"

definition getRevisions :: "config_env \<Rightarrow> ident \<Rightarrow> bool \<Rightarrow> ConfigRevisionDto list op" where
  "getRevisions C i includeGroups =
     bind_op (requireProject C i [CONFIG, CONFIG_MAP]) (\<lambda>p.
       gets_op (\<lambda>s. map (\<lambda>r. mapRevisionToDto C r (if includeGroups then Some (groups_of (rev_id r) s) else None))
         (rev (sort_key rev_revisionNumber (filter (\<lambda>r. rev_projectId r = cp_id p) (cs_revisions s))))))"

definition getRevisionById :: "config_env \<Rightarrow> nat \<Rightarrow> bool \<Rightarrow> ConfigRevisionDto op" where
  "getRevisionById C rid includeGroups =
     bind_op (gets_op (\<lambda>s. List.find (\<lambda>r. rev_id r = rid) (cs_revisions s))) (\<lambda>found.
       case found of
         None \<Rightarrow> throw_op NotFoundException
       | Some r \<Rightarrow> gets_op (\<lambda>s. mapRevisionToDto C r (if includeGroups then Some (groups_of rid s) else None)))"

section \<open>Republishing a device's project\<close>

definition refreshConfigProjectRevision :: "config_env \<Rightarrow> nat \<Rightarrow> string \<Rightarrow> unit op" where
  "refreshConfigProjectRevision C pid deviceId =
     bind_op (lift_op (getOrCreateDraftRevision pid)) (\<lambda>draft.
     bind_op (gets_op (find_revision pid ACTIVE)) (\<lambda>prev.
     bind_op (gets_op (groups_of_revision prev)) (\<lambda>prevGroups.
     bind_op (populateDraftFromConfigMaps C (rev_id draft) deviceId None) (\<lambda>_.
     bind_op (gets_op (\<lambda>s. map grp_name (groups_of (rev_id draft) s))) (\<lambda>names.
     bind_op (each_op (\<lambda>g. cloneGroupToRevision C g (rev_id draft) (grp_position g))
               (filter (\<lambda>g. grp_name g \<notin> set names) (case prevGroups of None \<Rightarrow> [] | Some gs \<Rightarrow> gs))) (\<lambda>_.
     bind_op (gets_op (\<lambda>s. computeNextSemVer C prevGroups (groups_of (rev_id draft) s) (Option.bind prev rev_semVer))) (\<lambda>v.
     bind_op (modify_op (archive_active pid)) (\<lambda>_.
     bind_op (modify_op (activate (rev_id draft) (\<lambda>r. r) v)) (\<lambda>_.
     bind_op (lift_op (new_revision pid (rev_revisionNumber draft + 1))) (\<lambda>_.
     bind_op (updateConfigProjectRelease C pid v) (\<lambda>_.
       modify_op (assembleAndCacheDeviceConfig C deviceId v))))))))))))"

definition republish_device :: "config_env \<Rightarrow> string \<Rightarrow> unit op" where
  "republish_device C deviceId =
     bind_op (lift_op (getProjectByNameAndType C (config_project_name deviceId) CONFIG)) (\<lambda>p.
       case p of
         None \<Rightarrow> return_op ()
       | Some p \<Rightarrow> catch_op (refreshConfigProjectRevision C (cp_id p) deviceId))"

definition map_associations :: "nat \<Rightarrow> config_state \<Rightarrow> ConfigMapAssociationEntity list" where
  "map_associations pid s =
     filter (\<lambda>a. cma_configMapProjectId a = pid \<and> cma_configProjectId a = None) (cs_associations s)"

definition device_ids :: "ConfigMapAssociationEntity list \<Rightarrow> string list" where
  "device_ids as = List.map_filter (\<lambda>a. if truthy (cma_deviceId a) then cma_deviceId a else None) as"

definition type_ids :: "ConfigMapAssociationEntity list \<Rightarrow> nat list" where
  "type_ids as = js_unique (List.map_filter cma_deviceTypeId as)"

definition all_devices :: "config_env \<Rightarrow> nat list \<Rightarrow> string list \<Rightarrow> string list" where
  "all_devices C types ids = js_unique (ids @ (if types \<noteq> [] then devices_of_types C types else []))"

definition cascadeConfigMapRevisionToDevices :: "config_env \<Rightarrow> nat \<Rightarrow> unit op" where
  "cascadeConfigMapRevisionToDevices C pid =
     bind_op (gets_op (map_associations pid)) (\<lambda>as.
       each_op (republish_device C) (all_devices C (type_ids as) (device_ids as)))"

definition cascadeConfigMapToSpecificDevices :: "config_env \<Rightarrow> nat list \<Rightarrow> string list \<Rightarrow> unit op" where
  "cascadeConfigMapToSpecificDevices C types ids = each_op (republish_device C) (all_devices C types ids)"

definition run_config_task :: "config_env \<Rightarrow> config_task \<Rightarrow> unit op" where
  "run_config_task C t =
     (case t of
        CascadeRevision pid \<Rightarrow> cascadeConfigMapRevisionToDevices C pid
      | CascadeAssociation pid types ids \<Rightarrow> cascadeConfigMapToSpecificDevices C types ids)"


section \<open>Associations of config maps\<close>

definition new_association :: "nat \<Rightarrow> nat option \<Rightarrow> string option \<Rightarrow> config_state \<Rightarrow> ConfigMapAssociationEntity \<times> config_state" where
  "new_association pid t d s =
     (case fresh_id s of
        (i, s1) \<Rightarrow>
          let a = \<lparr>cma_id = i, cma_configMapProjectId = pid, cma_deviceTypeId = t, cma_deviceId = d, cma_configProjectId = None\<rparr>
          in (a, s1\<lparr>cs_associations := cs_associations s1 @ [a]\<rparr>))"

definition find_association :: "(ConfigMapAssociationEntity \<Rightarrow> bool) \<Rightarrow> nat \<Rightarrow> config_state \<Rightarrow> ConfigMapAssociationEntity option" where
  "find_association P pid s = List.find (\<lambda>a. cma_configMapProjectId a = pid \<and> P a) (cs_associations s)"

text \<open>The association found or made, and whether it is new.\<close>

definition associate_type :: "nat \<Rightarrow> nat \<Rightarrow> config_state \<Rightarrow> (ConfigMapAssociationEntity \<times> bool) \<times> config_state" where
  "associate_type pid t s =
     (case find_association (\<lambda>a. cma_deviceTypeId a = Some t) pid s of
        Some a \<Rightarrow> ((a\<lparr>cma_deviceId := None, cma_configProjectId := None\<rparr>, False), s)
      | None \<Rightarrow> (case new_association pid (Some t) None s of (a, s1) \<Rightarrow> ((a, True), s1)))"

definition associate_device :: "nat \<Rightarrow> string \<Rightarrow> config_state \<Rightarrow> (ConfigMapAssociationEntity \<times> bool) \<times> config_state" where
  "associate_device pid d s =
     (case find_association (\<lambda>a. cma_deviceId a = Some d) pid s of
        Some a \<Rightarrow> ((a\<lparr>cma_deviceTypeId := None, cma_configProjectId := None\<rparr>, False), s)
      | None \<Rightarrow> (case new_association pid None (Some d) s of (a, s1) \<Rightarrow> ((a, True), s1)))"

fun associate_all :: "nat \<Rightarrow> string list \<Rightarrow> config_state \<Rightarrow> (ConfigMapAssociationEntity \<times> bool) list \<times> config_state" where
  "associate_all pid [] s = ([], s)"
| "associate_all pid (d # ds) s =
     (case associate_device pid d s of (x, s1) \<Rightarrow> (case associate_all pid ds s1 of (xs, s2) \<Rightarrow> (x # xs, s2)))"

definition addConfigMapAssociation ::
  "config_env \<Rightarrow> ident option \<Rightarrow> nat option \<Rightarrow> string list option \<Rightarrow> ConfigMapAssociationEntity list op" where
  "addConfigMapAssociation C i deviceTypeId deviceIds =
     (let ids = (case deviceIds of None \<Rightarrow> [] | Some ds \<Rightarrow> ds) in
      if \<not> truthy_ident i \<or> (deviceTypeId = None \<and> ids = []) then throw_op BadRequestException
      else
        bind_op (requireProject C (the i) [CONFIG_MAP]) (\<lambda>p.
        bind_op (case deviceTypeId of
                   None \<Rightarrow> return_op []
                 | Some t \<Rightarrow> if \<not> device_type_exists C t then throw_op NotFoundException
                            else bind_op (lift_op (associate_type (cp_id p) t)) (\<lambda>x. return_op [x])) (\<lambda>xs.
        bind_op (lift_op (associate_all (cp_id p) ids)) (\<lambda>ys.
        bind_op (gets_op (find_revision (cp_id p) ACTIVE)) (\<lambda>active.
        bind_op (let newTypes = List.map_filter (\<lambda>(a, n). if n then cma_deviceTypeId a else None) xs;
                     newDevices = List.map_filter (\<lambda>(a, n). if n then cma_deviceId a else None) ys
                 in if (newTypes \<noteq> [] \<or> newDevices \<noteq> []) \<and> active \<noteq> None
                    then modify_op (add_config_task (CascadeAssociation (cp_id p) newTypes newDevices)) else return_op ()) (\<lambda>_.
          return_op (map fst (xs @ ys))))))))"

definition removeConfigMapAssociation :: "nat \<Rightarrow> unit op" where
  "removeConfigMapAssociation i s =
     (if i \<notin> cma_id ` set (cs_associations s) then (Inl NotFoundException, s)
      else (Inr (), s\<lparr>cs_associations := delete_where (\<lambda>a. cma_id a = i) (cs_associations s)\<rparr>))"

definition getConfigMapAssociations :: "config_env \<Rightarrow> ident \<Rightarrow> ConfigMapAssociationEntity list op" where
  "getConfigMapAssociations C i =
     bind_op (requireProject C i [CONFIG_MAP]) (\<lambda>p. gets_op (map_associations (cp_id p)))"

datatype association_type = ByDeviceType nat | ByDeviceId string

definition getConfigMapAffectedDevices :: "config_env \<Rightarrow> ident \<Rightarrow> (string \<times> association_type) list op" where
  "getConfigMapAffectedDevices C i =
     bind_op (requireProject C i [CONFIG_MAP]) (\<lambda>p. gets_op (\<lambda>s.
       let as = map_associations (cp_id p) s in
       map (\<lambda>d. (d, ByDeviceId d)) (device_ids as) @
       concat (map (\<lambda>t. map (\<lambda>d. (d, ByDeviceType t)) (devices_of_types C [t])) (type_ids as))))"

record ConfigMapForProjectDto =
  cf_associationId :: nat
  cf_configMapProjectId :: nat
  cf_configMapProjectName :: string
  cf_deviceTypeId :: "nat option"

text \<open>The first applicable association of every config map.\<close>

fun first_per_map :: "ConfigMapAssociationEntity list \<Rightarrow> nat list \<Rightarrow> ConfigMapAssociationEntity list" where
  "first_per_map [] seen = []"
| "first_per_map (a # as) seen =
     (if cma_configMapProjectId a \<in> set seen then first_per_map as seen
      else a # first_per_map as (cma_configMapProjectId a # seen))"

fun look_up_projects :: "config_env \<Rightarrow> nat list \<Rightarrow> config_state \<Rightarrow> (nat \<times> ConfigProject) list \<times> config_state" where
  "look_up_projects C [] s = ([], s)"
| "look_up_projects C (i # is) s =
     (case getProjectByIdentifier C (IdNum i) s of
        (p, s1) \<Rightarrow> (case look_up_projects C is s1 of
           (ps, s2) \<Rightarrow> ((case p of None \<Rightarrow> [] | Some p \<Rightarrow> [(cp_id p, p)]) @ ps, s2)))"

definition getConfigMapsForProject :: "config_env \<Rightarrow> ident \<Rightarrow> ConfigMapForProjectDto list op" where
  "getConfigMapsForProject C i =
     bind_op (requireProject C i [CONFIG]) (\<lambda>p.
       let deviceId = (case device_of_project (cp_name p) of Some d \<Rightarrow> if d \<noteq> [] then Some d else None | None \<Rightarrow> None);
           types = (case deviceId of None \<Rightarrow> [] | Some d \<Rightarrow> types_of_device C d)
       in bind_op (gets_op (applicable_associations types deviceId)) (\<lambda>as.
          bind_op (lift_op (look_up_projects C (js_unique (map cma_configMapProjectId as)))) (\<lambda>ps.
            return_op (map (\<lambda>a. \<lparr>cf_associationId = cma_id a, cf_configMapProjectId = cma_configMapProjectId a,
                cf_configMapProjectName = (case map_of (rev ps) (cma_configMapProjectId a) of Some q \<Rightarrow> cp_name q | None \<Rightarrow> []),
                cf_deviceTypeId = cma_deviceTypeId a\<rparr>) (first_per_map as [])))))"

section \<open>Provisioning the project of a device\<close>

definition provisionDefaultConfigProject :: "nat \<Rightarrow> unit op" where
  "provisionDefaultConfigProject pid =
     bind_op (lift_op (getOrCreateDraftRevision pid)) (\<lambda>draft.
     bind_op (gets_op (groups_of (rev_id draft))) (\<lambda>gs.
       if gs \<noteq> [] then return_op ()
       else each_op (\<lambda>(n, i). bind_op (lift_op (save_group (new_group (rev_id draft) n i))) (\<lambda>_. return_op ()))
              [(''getapp_enrollment'', 0), (''getapp_config'', 1)]))"

definition autoPublishInitialRevision :: "config_env \<Rightarrow> nat \<Rightarrow> string \<Rightarrow> nat list option \<Rightarrow> unit op" where
  "autoPublishInitialRevision C pid deviceId knownTypes =
     bind_op (gets_op (find_revision pid DRAFT)) (\<lambda>draft.
       case draft of
         None \<Rightarrow> return_op ()
       | Some draft \<Rightarrow>
           bind_op (populateDraftFromConfigMaps C (rev_id draft) deviceId knownTypes) (\<lambda>_.
           bind_op (modify_op (activate (rev_id draft) (\<lambda>r. r) ''1.0.0'')) (\<lambda>_.
           bind_op (lift_op (new_revision pid (rev_revisionNumber draft + 1))) (\<lambda>_.
           bind_op (updateConfigProjectRelease C pid ''1.0.0'') (\<lambda>_.
             modify_op (assembleAndCacheDeviceConfig C deviceId ''1.0.0''))))))"

definition provisionProjectContent :: "config_env \<Rightarrow> nat \<Rightarrow> string \<Rightarrow> nat list option \<Rightarrow> unit op" where
  "provisionProjectContent C pid deviceId knownTypes =
     bind_op (provisionDefaultConfigProject pid) (\<lambda>_. autoPublishInitialRevision C pid deviceId knownTypes)"

section \<open>Versions only go up\<close>

definition triple :: "nat \<Rightarrow> nat \<Rightarrow> nat \<Rightarrow> string" where
  "triple a b c = show_nat a @ ''.'' @ show_nat b @ ''.'' @ show_nat c"

lemma number_text_nat [simp]: "number_text (Fin (of_nat n)) = show_nat n"
  by (simp add: decimal_text_def Let_def)

lemma version_text_nat: "version_text (Fin (of_nat a)) (Fin (of_nat b)) (Fin (of_nat c)) = triple a b c"
  by (simp add: version_text_def triple_def del: number_text.simps)

lemma dot_not_shown: "CHR ''.'' \<notin> set (show_nat n)"
  using show_nat_digits [of n] by (auto simp: is_digit_def)

lemma version_part_triple:
  "version_part (Some (triple a b c)) 0 = Fin (of_nat a)"
  "version_part (Some (triple a b c)) 1 = Fin (of_nat b)"
  "version_part (Some (triple a b c)) 2 = Fin (of_nat c)"
proof -
  have "split_char (CHR ''.'') (triple a b c) = [show_nat a, show_nat b, show_nat c]"
    using dot_not_shown by (simp add: triple_def split_char_append split_char_plain)
  then show "version_part (Some (triple a b c)) 0 = Fin (of_nat a)"
    "version_part (Some (triple a b c)) 1 = Fin (of_nat b)"
    "version_part (Some (triple a b c)) 2 = Fin (of_nat c)"
    by (simp_all add: version_part_def truthy_def or_empty_def triple_def)
qed

lemma js_add_one: "js_add (Fin (of_nat n)) (Fin 1) = Fin (of_nat (Suc n))"
  by simp

text \<open>The keys of a group, and whether a group or a key has gone or a group has come.\<close>

definition group_names :: "ConfigGroupEntity list \<Rightarrow> string set" where
  "group_names gs = grp_name ` set gs"

definition group_content :: "config_env \<Rightarrow> ConfigGroupEntity list \<Rightarrow> string \<Rightarrow> obj" where
  "group_content C gs n =
     (case List.find (\<lambda>g. grp_name g = n) (rev gs) of
        None \<Rightarrow> [] | Some g \<Rightarrow> members_of (parseYaml C (grp_yamlContent g)))"

definition breaking :: "config_env \<Rightarrow> ConfigGroupEntity list \<Rightarrow> ConfigGroupEntity list \<Rightarrow> bool" where
  "breaking C old new \<longleftrightarrow>
     group_names new \<noteq> group_names old \<or>
     (\<exists>n\<in>group_names new. \<not> fst ` set (group_content C old n) \<subseteq> fst ` set (group_content C new n))"

definition content_changed :: "config_env \<Rightarrow> ConfigGroupEntity list \<Rightarrow> ConfigGroupEntity list \<Rightarrow> bool" where
  "content_changed C old new \<longleftrightarrow>
     (\<exists>n\<in>group_names new. \<exists>k\<in>fst ` set (group_content C new n).
        k \<notin> fst ` set (group_content C old n) \<or>
        JSON_stringify (obj_get (group_content C old n) k) \<noteq> JSON_stringify (obj_get (group_content C new n) k))"

lemma map_of_fold_put:
  "map_of (fold (\<lambda>g. alist_put (f g) (h g)) gs m) n =
     (case List.find (\<lambda>g. f g = n) (rev gs) of None \<Rightarrow> map_of m n | Some g \<Rightarrow> Some (h g))"
proof (induction gs rule: rev_induct)
  case (snoc g gs)
  then show ?case
    by (auto split: option.splits)
qed simp

lemma find_rev_None: "List.find P (rev gs) = None \<longleftrightarrow> (\<forall>g\<in>set gs. \<not> P g)"
  by (auto simp: find_None_iff)

lemma map_of_group_map:
  "map_of (group_map C gs) n = (if n \<in> group_names gs then Some (group_content C gs n) else None)"
  using find_rev_None [of "\<lambda>g. grp_name g = n" gs]
  by (auto simp: group_map_def map_of_fold_put group_names_def group_content_def split: option.splits)

lemma distinct_group_map: "distinct (map fst (group_map C gs))"
proof -
  have "distinct (map fst (fold (\<lambda>g. alist_put (grp_name g) (h g)) gs m))" if "distinct (map fst m)" for h :: "ConfigGroupEntity \<Rightarrow> obj" and m
    using that by (induction gs arbitrary: m) (simp_all add: distinct_alist_put)
  then show ?thesis
    by (simp add: group_map_def)
qed

lemma in_group_map: "(n, d) \<in> set (group_map C gs) \<longleftrightarrow> n \<in> group_names gs \<and> d = group_content C gs n"
  using map_of_eq_Some_iff [OF distinct_group_map, of C gs n d] by (auto simp: map_of_group_map split: if_splits)

lemma set_group_map: "set (group_map C gs) = (\<lambda>n. (n, group_content C gs n)) ` group_names gs"
  by (auto simp: in_group_map image_iff)

lemma fst_group_map: "fst ` set (group_map C gs) = group_names gs"
  by (simp add: set_group_map image_image)

lemma list_ex_not_in: "list_ex (\<lambda>k. k \<notin> A) ks \<longleftrightarrow> \<not> set ks \<subseteq> A"
  by (auto simp: list_ex_iff)

lemma major_change_breaking: "major_change (group_map C old) (group_map C new) = breaking C old new"
proof -
  have "major_change (group_map C old) (group_map C new) \<longleftrightarrow>
      (\<exists>n\<in>group_names new. n \<in> group_names old \<longrightarrow> \<not> fst ` set (group_content C old n) \<subseteq> fst ` set (group_content C new n)) \<or>
      \<not> group_names old \<subseteq> group_names new"
    unfolding major_change_def list_ex_not_in list_ex_iff set_map fst_group_map set_group_map
    by (simp add: map_of_group_map image_image)
  then show ?thesis
    unfolding breaking_def by (metis subsetI subset_antisym)
qed

lemma minor_change_content:
  "group_names new = group_names old \<Longrightarrow>
   minor_change (group_map C old) (group_map C new) = content_changed C old new"
  unfolding minor_change_def content_changed_def list_ex_iff set_map set_group_map
  by (simp add: map_of_group_map)

text \<open>
  The version a draft receives when the active revision has groups and the version
  \<open>a.b.c\<close>: the major number grows when a group or a key of a group has gone or a group has come,
  otherwise the minor number grows when a key has come or a value has changed, otherwise the patch
  number; the numbers after it start again at 0.
\<close>

theorem next_version_spec:
  assumes "old \<noteq> []"
  shows "computeNextSemVer C (Some old) new (Some (triple a b c)) =
         (if breaking C old new then triple (Suc a) 0 0
          else if content_changed C old new then triple a (Suc b) 0 else triple a b (Suc c))"
proof -
  have "group_names new = group_names old" if "\<not> breaking C old new"
    using that by (simp add: breaking_def)
  then show ?thesis
    using assms version_text_nat [of "Suc a" 0 0] version_text_nat [of a "Suc b" 0] version_text_nat [of a b "Suc c"]
      js_add_one [of a] js_add_one [of b] js_add_one [of c]
    by (simp add: computeNextSemVer_def Let_def version_part_triple [simplified] major_change_breaking minor_change_content
        del: js_add.simps of_nat_Suc)
qed

lemma next_version_spec_witness:
  "computeNextSemVer demo_config_env (Some [demo_group]) [demo_group] (Some (triple 1 2 3)) = ''1.2.4''"
proof -
  have "\<not> breaking demo_config_env [demo_group] [demo_group]"
    "\<not> content_changed demo_config_env [demo_group] [demo_group]"
    by (auto simp: breaking_def content_changed_def)
  then have "computeNextSemVer demo_config_env (Some [demo_group]) [demo_group] (Some (triple 1 2 3)) = triple 1 2 (Suc 3)"
    by (simp add: next_version_spec)
  also have "triple 1 2 (Suc 3) = ''1.2.4''"
    by code_simp
  finally show ?thesis .
qed

text \<open>
  The version starts again at \<open>1.0.0\<close> when the active revision has no groups, whatever its own
  version is.
\<close>

lemma version_restarts:
  "computeNextSemVer C (Some []) new (Some ''4.0.0'') = ''1.0.0''"
  by (simp add: computeNextSemVer_def)


section \<open>Replacing the release\<close>

lemma fold_repushed_only_offerings: "\<exists>os. fold (repushed c) ds s = s\<lparr>cs_offerings := os\<rparr>"
proof (induction ds arbitrary: s)
  case Nil
  then show ?case
    by (auto intro: exI [where x = "cs_offerings s"])
next
  case (Cons d ds)
  obtain os where "fold (repushed c) ds (repushed c d s) = (repushed c d s)\<lparr>cs_offerings := os\<rparr>"
    using Cons.IH by blast
  moreover have "(repushed c d s)\<lparr>cs_offerings := os\<rparr> = s\<lparr>cs_offerings := os\<rparr>"
    by (simp add: repushed_def)
  ultimately show ?case
    by auto
qed

text \<open>The devices a release is pushed to.\<close>

definition pushed_to :: "string \<Rightarrow> config_state \<Rightarrow> string set" where
  "pushed_to c s = {d. \<exists>x\<in>set (cs_offerings s). off_device x = d \<and> off_release x = c \<and> off_action x = PUSH}"

lemma pushed_repushed: "pushed_to c' (repushed c d s) = pushed_to c' s \<union> (if c' = c then {d} else {})"
proof -
  have upd: "(\<exists>x\<in>set (update_where (\<lambda>x. off_device x = d \<and> off_release x = c) (\<lambda>x. x\<lparr>off_action := PUSH\<rparr>) os).
           off_device x = d' \<and> off_release x = c' \<and> off_action x = PUSH) \<longleftrightarrow>
        (d' = d \<and> c' = c \<and> (\<exists>x\<in>set os. off_device x = d \<and> off_release x = c)) \<or>
        (\<exists>x\<in>set os. off_device x = d' \<and> off_release x = c' \<and> off_action x = PUSH)" for d' and os :: "ComponentOfferingEntity list"
    by (induction os) (auto split: if_splits)
  show ?thesis
  proof (cases "\<exists>x\<in>set (cs_offerings s). off_device x = d \<and> off_release x = c")
    case True
    then have os: "cs_offerings (repushed c d s) =
        update_where (\<lambda>x. off_device x = d \<and> off_release x = c) (\<lambda>x. x\<lparr>off_action := PUSH\<rparr>) (cs_offerings s)"
      by (simp add: repushed_def upsert_row_def)
    show ?thesis
      using True unfolding set_eq_iff pushed_to_def mem_Collect_eq os upd by auto
  qed (auto simp: pushed_to_def repushed_def upsert_row_def)
qed

lemma pushed_fold_repushed:
  "pushed_to c' (fold (repushed c) ds s) = pushed_to c' s \<union> (if c' = c then set ds else {})"
  by (induction ds arbitrary: s) (auto simp: pushed_repushed)

definition release_facts :: "ReleaseEntity \<Rightarrow> string \<times> nat \<times> string \<times> ReleaseStatusEnum" where
  "release_facts r = (rel_catalogId r, rel_project r, rel_version r, rel_status r)"

lemma facts_insert_release:
  "map release_facts (releases (insert_release E r s)) =
   map release_facts (releases s) @
   [(catalog_id_of s (rel_project r) (rel_version r), rel_project r, rel_version r, rel_status r)]"
proof -
  have "map release_facts (releases (afterInsert E r' t)) = map release_facts (releases t)" for r' t
    by (simp add: afterInsert_def Let_def map_update_where release_facts_def)
  then show ?thesis
    by (simp add: insert_release_def Let_def release_facts_def)
qed

lemma next_id_insert_release [simp]: "next_id (insert_release E r s) = next_id s"
  by (simp add: insert_release_def afterInsert_def Let_def)

lemma projects_insert_release [simp]: "projects (insert_release E r s) = projects s"
  by (simp add: insert_release_def afterInsert_def Let_def)

lemma release_replaced_run:
  assumes "updateConfigProjectRelease C pid v s = (Inr (), s')"
  defines "c \<equiv> catalog_id_of (cs_db s) pid v"
  obtains s1 where "drop_release (current_release pid s) s = (Inr (), s1)"
    and "map release_facts (releases (cs_db s')) = map release_facts (releases (cs_db s1)) @ [(c, pid, v, RELEASED)]"
    and "\<And>c'. pushed_to c' s' = pushed_to c' s1 \<union> (if c' = c then set (pushed_devices (current_release pid s) s) else {})"
proof -
  let ?old = "current_release pid s"
  obtain s1 where s1: "drop_release ?old s = (Inr (), s1)"
    and s': "s' = (let s2 = s1\<lparr>cs_db := insert_release (ce_env C) (config_release pid v) (cs_db s1)\<rparr>
        in fold (repushed (catalog_id_of (cs_db s2) pid v)) (pushed_devices ?old s) s2)"
    using assms(1)
    by (auto simp: updateConfigProjectRelease_def bind_op_def gets_op_def add_release_def modify_op_def Let_def
        split: prod.splits sum.splits if_splits)
  have "projects (cs_db s1) = projects (cs_db s)"
    using s1 by (auto simp: drop_release_def delete_release_row_def split: option.splits if_splits)
  then have c: "catalog_id_of (cs_db s1) pid v = c"
    by (simp add: c_def catalog_id_of_def project_by_id_def)
  define s2 where "s2 = s1\<lparr>cs_db := insert_release (ce_env C) (config_release pid v) (cs_db s1)\<rparr>"
  have "catalog_id_of (cs_db s2) pid v = c"
    using c by (simp add: s2_def catalog_id_of_def project_by_id_def)
  then have s': "s' = fold (repushed c) (pushed_devices ?old s) s2"
    using s' by (simp add: Let_def flip: s2_def)
  have db: "cs_db s' = cs_db s2"
    unfolding s' using fold_repushed_only_offerings [of c "pushed_devices ?old s" s2] by auto
  show ?thesis
  proof (rule that [OF s1])
    show "map release_facts (releases (cs_db s')) = map release_facts (releases (cs_db s1)) @ [(c, pid, v, RELEASED)]"
      by (simp add: db s2_def facts_insert_release config_release_def c)
    show "pushed_to c' s' = pushed_to c' s1 \<union> (if c' = c then set (pushed_devices ?old s) else {})" for c'
    proof -
      have "pushed_to c' s2 = pushed_to c' s1"
        by (simp add: pushed_to_def s2_def)
      then show ?thesis
        by (simp add: s' pushed_fold_repushed)
    qed
  qed
qed

lemma drop_only_release:
  assumes "drop_release (current_release pid s) s = (Inr (), s1)"
    and one: "length (filter (\<lambda>r. rel_project r = pid) (releases (cs_db s))) \<le> 1"
  shows "filter (\<lambda>r. rel_project r = pid) (releases (cs_db s1)) = []"
proof (cases "filter (\<lambda>r. rel_project r = pid) (releases (cs_db s))")
  case Nil
  then have "s1 = s"
    using assms(1) by (simp add: current_release_def max_sort_order_def drop_release_def)
  then show ?thesis
    using Nil by simp
next
  case (Cons r rs)
  with one have "filter (\<lambda>r. rel_project r = pid) (releases (cs_db s)) = [r]"
    by simp
  from arg_cong [OF this, of set] have only: "{x \<in> set (releases (cs_db s)). rel_project x = pid} = {r}"
    by (simp only: set_filter list.set)
  have "current_release pid s = Some r"
    using one Cons by (simp add: current_release_def max_sort_order_def)
  then have "releases (cs_db s1) = delete_where (\<lambda>x. rel_catalogId x = rel_catalogId r) (releases (cs_db s))"
    using assms(1) by (auto simp: drop_release_def delete_release_row_def split: if_splits)
  then show ?thesis
    using only by (auto simp: filter_empty_conv set_delete_where)
qed

text \<open>
  C29. When the release of a configuration project is replaced, the new version is released, every
  device the old release was pushed to has the new one pushed, nothing of the old one stays
  pushed, and a project with at most one release has exactly the new one.
\<close>

theorem config_release_replaced:
  assumes "updateConfigProjectRelease C pid v s = (Inr (), s')"
  shows "(catalog_id_of (cs_db s) pid v, pid, v, RELEASED) \<in> release_facts ` set (releases (cs_db s')) \<and>
    set (pushed_devices (current_release pid s) s) \<subseteq> pushed_to (catalog_id_of (cs_db s) pid v) s' \<and>
    (\<forall>r. current_release pid s = Some r \<and> rel_catalogId r \<noteq> catalog_id_of (cs_db s) pid v \<longrightarrow>
         pushed_to (rel_catalogId r) s' = {}) \<and>
    (length (filter (\<lambda>r. rel_project r = pid) (releases (cs_db s))) \<le> 1 \<longrightarrow>
       map rel_version (filter (\<lambda>r. rel_project r = pid) (releases (cs_db s'))) = [v])"
proof -
  obtain s1 where s1: "drop_release (current_release pid s) s = (Inr (), s1)"
    and facts: "map release_facts (releases (cs_db s')) =
      map release_facts (releases (cs_db s1)) @ [(catalog_id_of (cs_db s) pid v, pid, v, RELEASED)]"
    and pushed: "\<And>c'. pushed_to c' s' = pushed_to c' s1 \<union>
      (if c' = catalog_id_of (cs_db s) pid v then set (pushed_devices (current_release pid s) s) else {})"
    using release_replaced_run [OF assms] by metis
  have project: "map rel_version (filter (\<lambda>r. rel_project r = pid) rs) =
      map (\<lambda>f. fst (snd (snd f))) (filter (\<lambda>f. fst (snd f) = pid) (map release_facts rs))" for rs
    by (simp add: filter_map comp_def release_facts_def)
  have "pushed_to (rel_catalogId r) s1 = {}" if "current_release pid s = Some r" for r
    using s1 that by (auto simp: drop_release_def pushed_to_def set_delete_where split: if_splits)
  moreover have "filter (\<lambda>f. fst (snd f) = pid) (map release_facts (releases (cs_db s1))) = []"
    if "length (filter (\<lambda>r. rel_project r = pid) (releases (cs_db s))) \<le> 1"
    using drop_only_release [OF s1 that] by (simp add: filter_map comp_def release_facts_def)
  moreover have "(catalog_id_of (cs_db s) pid v, pid, v, RELEASED) \<in> release_facts ` set (releases (cs_db s'))"
    using arg_cong [OF facts, of set] by (metis image_set in_set_conv_decomp list.set_map facts)
  ultimately show ?thesis
    by (auto simp: pushed project facts)
qed

definition demo_offered :: config_state where
  "demo_offered = demo_config\<lparr>
     cs_db := empty_db\<lparr>releases := [(config_release 1 ''1.0.0'')\<lparr>rel_catalogId := ''old''\<rparr>], next_id := 3\<rparr>,
     cs_offerings := [\<lparr>off_device = ''d1'', off_release = ''old'', off_action = PUSH\<rparr>]\<rparr>"

lemma demo_offered_parts:
  "current_release 1 demo_offered = Some ((config_release 1 ''1.0.0'')\<lparr>rel_catalogId := ''old''\<rparr>)"
  "pushed_devices (current_release 1 demo_offered) demo_offered = [''d1'']"
  "\<exists>s'. updateConfigProjectRelease demo_config_env 1 ''1.1.0'' demo_offered = (Inr (), s')"
  by (simp_all add: current_release_def demo_offered_def empty_db_def config_release_def max_sort_order_def
      pushed_devices_def updateConfigProjectRelease_def bind_op_def gets_op_def drop_release_def release_referenced_def
      artifacts_of_def delete_release_row_def delete_where_def add_release_def find_release_def modify_op_def)

lemma config_release_replaced_witness:
  "\<exists>s'. updateConfigProjectRelease demo_config_env 1 ''1.1.0'' demo_offered = (Inr (), s') \<and>
        ''d1'' \<in> pushed_to (catalog_id_of (cs_db demo_offered) 1 ''1.1.0'') s'"
proof -
  obtain s' where run: "updateConfigProjectRelease demo_config_env 1 ''1.1.0'' demo_offered = (Inr (), s')"
    using demo_offered_parts(3) by blast
  have "set (pushed_devices (current_release 1 demo_offered) demo_offered) \<subseteq>
      pushed_to (catalog_id_of (cs_db demo_offered) 1 ''1.1.0'') s'"
    by (rule config_release_replaced [OF run, THEN conjunct2, THEN conjunct1])
  with run show ?thesis
    unfolding demo_offered_parts(2) by auto
qed

end
