(* ===== verification/Config_Lifecycle.thy ===== *)
theory Config_Lifecycle
  imports Config_Revisions
begin

text \<open>
  The invariant of the revisions: whatever sequence of requests, provisioning calls and pending
  cascades the configuration service works through, and wherever one of them fails, a project has
  at most one draft and at most one active revision, its revision numbers are distinct and the
  draft has the highest. The operations are a step relation; triples relate the states before and
  after each call, with the invariant as the postcondition of every failure.
\<close>

section \<open>The invariant\<close>

definition revisions_ok :: "config_state \<Rightarrow> bool" where
  "revisions_ok s \<longleftrightarrow>
     (let rs = cs_revisions s in
      distinct (map rev_id rs) \<and> (\<forall>r\<in>set rs. rev_id r < next_id (cs_db s)) \<and>
      distinct (map (\<lambda>r. (rev_projectId r, rev_revisionNumber r)) rs) \<and>
      distinct (map rev_projectId (filter (\<lambda>r. rev_status r = DRAFT) rs)) \<and>
      distinct (map rev_projectId (filter (\<lambda>r. rev_status r = ACTIVE) rs)) \<and>
      (\<forall>d\<in>set rs. rev_status d = DRAFT \<longrightarrow>
         (\<forall>r\<in>set rs. rev_projectId r = rev_projectId d \<longrightarrow> rev_revisionNumber r \<le> rev_revisionNumber d)))"

definition only_one :: "ConfigRevisionStatus \<Rightarrow> ConfigRevisionEntity list \<Rightarrow> bool" where
  "only_one st rs \<longleftrightarrow>
     (\<forall>r\<in>set rs. \<forall>r'\<in>set rs. rev_status r = st \<longrightarrow> rev_status r' = st \<longrightarrow> rev_projectId r = rev_projectId r' \<longrightarrow> r = r')"

lemma only_one_distinct:
  "distinct rs \<Longrightarrow> distinct (map rev_projectId (filter (\<lambda>r. rev_status r = st) rs)) = only_one st rs"
  by (auto simp: only_one_def distinct_map inj_on_def)

lemma revisions_ok_alt:
  "revisions_ok s \<longleftrightarrow>
     distinct (map rev_id (cs_revisions s)) \<and> (\<forall>r\<in>set (cs_revisions s). rev_id r < next_id (cs_db s)) \<and>
     distinct (map (\<lambda>r. (rev_projectId r, rev_revisionNumber r)) (cs_revisions s)) \<and>
     only_one DRAFT (cs_revisions s) \<and> only_one ACTIVE (cs_revisions s) \<and>
     (\<forall>d\<in>set (cs_revisions s). rev_status d = DRAFT \<longrightarrow>
        (\<forall>r\<in>set (cs_revisions s). rev_projectId r = rev_projectId d \<longrightarrow> rev_revisionNumber r \<le> rev_revisionNumber d))"
  using only_one_distinct [of "cs_revisions s"] by (auto simp: revisions_ok_def Let_def distinct_map)

text \<open>The invariant together with a fact about the revisions.\<close>

definition ok_with :: "(ConfigRevisionEntity list \<Rightarrow> bool) \<Rightarrow> config_state \<Rightarrow> bool" where
  "ok_with B s \<longleftrightarrow> revisions_ok s \<and> B (cs_revisions s)"

abbreviation ok :: "config_state \<Rightarrow> bool" where
  "ok \<equiv> ok_with (\<lambda>_. True)"

definition none_with :: "nat \<Rightarrow> ConfigRevisionStatus \<Rightarrow> ConfigRevisionEntity list \<Rightarrow> bool" where
  "none_with pid st rs \<longleftrightarrow> (\<forall>r\<in>set rs. \<not> revision_with pid st r)"

definition is_draft :: "nat \<Rightarrow> ConfigRevisionEntity \<Rightarrow> ConfigRevisionEntity list \<Rightarrow> bool" where
  "is_draft pid d rs \<longleftrightarrow> d \<in> set rs \<and> revision_with pid DRAFT d"

definition numbers_below :: "nat \<Rightarrow> nat \<Rightarrow> ConfigRevisionEntity list \<Rightarrow> bool" where
  "numbers_below pid n rs \<longleftrightarrow> (\<forall>r\<in>set rs. rev_projectId r = pid \<longrightarrow> rev_revisionNumber r < n)"

section \<open>The changes of revisions\<close>

lemma new_revision_ok:
  assumes "ok_with (\<lambda>rs. none_with pid DRAFT rs \<and> numbers_below pid n rs) s" "new_revision pid n s = (d, s')"
  shows "ok_with (is_draft pid d) s'"
proof -
  have rows: "cs_revisions s' = cs_revisions s @ [d]" "next_id (cs_db s') = Suc (next_id (cs_db s))"
    and d: "rev_id d = next_id (cs_db s)" "rev_projectId d = pid" "rev_revisionNumber d = n" "rev_status d = DRAFT"
    using assms(2) by (auto simp: new_revision_def fresh_id_def Let_def)
  have old: "revisions_ok s" "\<And>r. r \<in> set (cs_revisions s) \<Longrightarrow> rev_projectId r = pid \<Longrightarrow> rev_status r \<noteq> DRAFT \<and> rev_revisionNumber r < n"
    using assms(1) by (auto simp: ok_with_def none_with_def numbers_below_def revision_with_def)
  have "only_one st (cs_revisions s')" if "only_one st (cs_revisions s)" for st
    unfolding only_one_def
  proof (intro ballI impI)
    fix r r'
    assume r: "r \<in> set (cs_revisions s')" "r' \<in> set (cs_revisions s')" "rev_status r = st" "rev_status r' = st"
      "rev_projectId r = rev_projectId r'"
    then show "r = r'"
      using that old(2) [of r] old(2) [of r'] d by (cases "r = d"; cases "r' = d") (auto simp: rows only_one_def)
  qed
  moreover have "rev_revisionNumber r \<le> rev_revisionNumber e"
    if "e \<in> set (cs_revisions s')" "rev_status e = DRAFT" "r \<in> set (cs_revisions s')" "rev_projectId r = rev_projectId e" for e r
    using that old d less_imp_le by (cases "e = d"; cases "r = d") (auto simp: rows revisions_ok_alt)
  ultimately show ?thesis
    using old d by (fastforce simp: ok_with_def revisions_ok_alt rows is_draft_def revision_with_def less_Suc_eq)
qed

lemma archive_ok:
  assumes "ok_with (is_draft pid d) s"
  shows "ok_with (\<lambda>rs. none_with pid ACTIVE rs \<and> is_draft pid d rs) (archive_active pid s)"
proof -
  define a where "a r = (if revision_with pid ACTIVE r then r\<lparr>rev_status := ARCHIVED\<rparr> else r)" for r
  have rows: "cs_revisions (archive_active pid s) = map a (cs_revisions s)" "cs_db (archive_active pid s) = cs_db s"
    by (simp_all add: archive_active_def update_revisions_def update_where_def a_def [abs_def])
  have a: "rev_id (a r) = rev_id r" "rev_projectId (a r) = rev_projectId r" "rev_revisionNumber (a r) = rev_revisionNumber r"
    "rev_status (a r) = DRAFT \<longleftrightarrow> rev_status r = DRAFT" "rev_status (a r) = ACTIVE \<longleftrightarrow> rev_status r = ACTIVE \<and> rev_projectId r \<noteq> pid" for r
    by (auto simp: a_def revision_with_def)
  have only: "only_one st (map a (cs_revisions s))" if "only_one st (cs_revisions s)" "st = DRAFT \<or> st = ACTIVE" for st
    unfolding only_one_def
  proof (intro ballI impI)
    fix r r'
    assume r: "r \<in> set (map a (cs_revisions s))" "r' \<in> set (map a (cs_revisions s))" "rev_status r = st" "rev_status r' = st"
      "rev_projectId r = rev_projectId r'"
    then obtain x x' where x: "r = a x" "r' = a x'" "x \<in> set (cs_revisions s)" "x' \<in> set (cs_revisions s)"
      by auto
    have "rev_status (a x) = st" "rev_status (a x') = st" "rev_projectId (a x) = rev_projectId (a x')"
      using r x by simp_all
    then have "rev_status x = st" "rev_status x' = st" "rev_projectId x = rev_projectId x'"
      using that(2) a(4,5) [of x] a(4,5) [of x'] a(2) by auto
    then show "r = r'"
      using that(1) x by (auto simp: only_one_def)
  qed
  have "revisions_ok (archive_active pid s)"
    using assms only [of DRAFT] only [of ACTIVE]
    by (simp add: ok_with_def revisions_ok_alt rows a comp_def)
  moreover have "a d = d"
    using assms by (auto simp: ok_with_def is_draft_def revision_with_def a_def)
  ultimately show ?thesis
    using assms by (force simp: ok_with_def is_draft_def none_with_def revision_with_def rows a)
qed

lemma activate_ok:
  assumes "ok_with (\<lambda>rs. none_with pid ACTIVE rs \<and> is_draft pid d rs) s"
    and f: "\<And>r. rev_id (f r) = rev_id r \<and> rev_projectId (f r) = rev_projectId r \<and>
               rev_revisionNumber (f r) = rev_revisionNumber r \<and> rev_status (f r) = rev_status r"
  shows "ok_with (\<lambda>rs. none_with pid DRAFT rs \<and> numbers_below pid (rev_revisionNumber d + 1) rs) (activate (rev_id d) f v s)"
proof -
  define a where "a r = (if rev_id r = rev_id d
    then f (r\<lparr>rev_status := ACTIVE, rev_appliedAt := Some (now s), rev_semVer := Some v\<rparr>) else r)" for r
  have rows: "cs_revisions (activate (rev_id d) f v s) = map a (cs_revisions s)" "cs_db (activate (rev_id d) f v s) = cs_db s"
    by (simp_all add: activate_def update_revisions_def update_where_def a_def [abs_def])
  have inv: "revisions_ok s" "d \<in> set (cs_revisions s)" "rev_projectId d = pid" "rev_status d = DRAFT"
    "\<And>r. r \<in> set (cs_revisions s) \<Longrightarrow> rev_projectId r = pid \<Longrightarrow> rev_status r \<noteq> ACTIVE"
    using assms(1) by (auto simp: ok_with_def is_draft_def none_with_def revision_with_def)
  have same: "rev_id r = rev_id d \<longleftrightarrow> r = d" if "r \<in> set (cs_revisions s)" for r
    using inv that by (auto simp: revisions_ok_alt distinct_map inj_on_def)
  have cols: "rev_id (a r) = rev_id r" "rev_projectId (a r) = rev_projectId r" "rev_revisionNumber (a r) = rev_revisionNumber r" for r
    using f by (simp_all add: a_def)
  have status: "rev_status (a r) = (if r = d then ACTIVE else rev_status r)" if "r \<in> set (cs_revisions s)" for r
    using same [OF that] f by (auto simp: a_def)
  have top: "r = d \<or> rev_status r \<noteq> DRAFT" "rev_revisionNumber r \<le> rev_revisionNumber d"
    if "r \<in> set (cs_revisions s)" "rev_projectId r = pid" for r
    using that inv by (auto simp: revisions_ok_alt only_one_def)
  have "only_one DRAFT (map a (cs_revisions s))" "only_one ACTIVE (map a (cs_revisions s))"
    using inv top(1) by (auto simp: only_one_def revisions_ok_alt status cols split: if_splits)
  then have "revisions_ok (activate (rev_id d) f v s)"
    using inv by (auto simp: revisions_ok_alt rows cols comp_def status split: if_splits)
  moreover have "none_with pid DRAFT (map a (cs_revisions s))"
    using top(1) by (auto simp: none_with_def revision_with_def cols status)
  moreover have "numbers_below pid (rev_revisionNumber d + 1) (map a (cs_revisions s))"
    using top(2) by (auto simp: numbers_below_def cols less_Suc_eq_le)
  ultimately show ?thesis
    by (simp add: ok_with_def rows)
qed

lemma delete_revision_ok: "ok s \<Longrightarrow> ok (s\<lparr>cs_revisions := delete_where P (cs_revisions s), cs_groups := gs\<rparr>)"
  by (auto simp: ok_with_def revisions_ok_alt set_delete_where only_one_def delete_where_def distinct_map
      intro: inj_on_subset)

lemma find_revision_Some:
  "find_revision pid st s = Some r \<Longrightarrow> r \<in> set (cs_revisions s) \<and> revision_with pid st r"
  by (auto simp: find_revision_def find_Some_iff)

lemma find_revision_None: "find_revision pid st s = None \<Longrightarrow> none_with pid st (cs_revisions s)"
  by (auto simp: find_revision_def find_None_iff none_with_def)

lemma le_fold_max: "(y::nat) \<le> fold max ys x \<longleftrightarrow> (y \<le> x \<or> (\<exists>z\<in>set ys. y \<le> z))"
  by (induction ys arbitrary: x) auto

lemma numbers_below_max: "numbers_below pid (max_revision pid s + 1) (cs_revisions s)"
  by (auto simp: numbers_below_def max_revision_def le_fold_max less_Suc_eq_le)

lemma getOrCreate_ok:
  "ok s \<Longrightarrow> getOrCreateDraftRevision pid s = (d, s') \<Longrightarrow> ok_with (is_draft pid d) s'"
proof (cases "find_revision pid DRAFT s")
  case None
  assume "ok s" "getOrCreateDraftRevision pid s = (d, s')"
  then show ?thesis
    using None find_revision_None [OF None] numbers_below_max [of pid s]
    by (intro new_revision_ok [of pid "max_revision pid s + 1" s])
      (simp_all add: getOrCreateDraftRevision_def ok_with_def)
qed (auto simp: getOrCreateDraftRevision_def ok_with_def is_draft_def dest: find_revision_Some)

section \<open>Triples\<close>

text \<open>The postcondition of a failure is the invariant.\<close>

abbreviation triple :: "(config_state \<Rightarrow> bool) \<Rightarrow> 'a op \<Rightarrow> ('a \<Rightarrow> config_state \<Rightarrow> bool) \<Rightarrow> bool" where
  "triple P m Q \<equiv> op_triple P m Q ok"

lemmas triple_keeps = triple_snd [where E = ok]

lemma ok_with_ok: "ok_with B s \<Longrightarrow> ok s"
  by (simp add: ok_with_def)

section \<open>Operations that leave the revisions alone\<close>

text \<open>The revisions stay, and no id that was used comes free.\<close>

definition same_revisions :: "config_state \<Rightarrow> config_state \<Rightarrow> bool" where
  "same_revisions s s' \<longleftrightarrow> cs_revisions s' = cs_revisions s \<and> next_id (cs_db s) \<le> next_id (cs_db s')"

definition quiet :: "'a op \<Rightarrow> bool" where
  "quiet m \<longleftrightarrow> (\<forall>s. same_revisions s (snd (m s)))"

named_theorems quiet_intros

lemma same_revisions_refl [simp]: "same_revisions s s"
  by (simp add: same_revisions_def)

lemma same_revisions_trans: "same_revisions s t \<Longrightarrow> same_revisions t u \<Longrightarrow> same_revisions s u"
  by (simp add: same_revisions_def)

lemma same_revisions_ok: "same_revisions s s' \<Longrightarrow> ok_with B s \<Longrightarrow> ok_with B s'"
  by (fastforce simp: same_revisions_def ok_with_def revisions_ok_alt)

lemma triple_quiet: "quiet m \<Longrightarrow> triple (ok_with B) m (\<lambda>_. ok_with B)"
  unfolding op_triple_def quiet_def
  by (auto split: prod.splits sum.splits) (metis same_revisions_ok ok_with_ok snd_conv)+

lemma quiet_return [quiet_intros]: "quiet (return_op x)"
  by (simp add: quiet_def return_op_def)

lemma quiet_throw [quiet_intros]: "quiet (throw_op e)"
  by (simp add: quiet_def throw_op_def)

lemma quiet_gets [quiet_intros]: "quiet (gets_op f)"
  by (simp add: quiet_def gets_op_def)

lemma quiet_bind [quiet_intros]: "quiet m \<Longrightarrow> (\<And>x. quiet (f x)) \<Longrightarrow> quiet (bind_op m f)"
  unfolding quiet_def bind_op_def
  by (auto split: prod.splits sum.splits) (metis same_revisions_trans snd_conv)+

lemma quiet_catch [quiet_intros]: "quiet m \<Longrightarrow> quiet (catch_op m)"
  by (simp add: quiet_def catch_op_def)

lemma quiet_each [quiet_intros]: "(\<And>x. quiet (f x)) \<Longrightarrow> quiet (each_op f xs)"
  by (induction xs) (auto intro!: quiet_intros)

lemma quiet_modify: "(\<And>s. same_revisions s (f s)) \<Longrightarrow> quiet (modify_op f)"
  by (simp add: quiet_def modify_op_def)

lemma quiet_lift: "(\<And>s. same_revisions s (snd (f s))) \<Longrightarrow> quiet (lift_op f)"
  by (auto simp: quiet_def lift_op_def split: prod.splits) (metis snd_conv)

lemma quiet_if [quiet_intros]: "quiet m \<Longrightarrow> quiet m' \<Longrightarrow> quiet (if b then m else m')"
  by simp

lemma quiet_option [quiet_intros]: "quiet m \<Longrightarrow> (\<And>x. quiet (f x)) \<Longrightarrow> quiet (case y of None \<Rightarrow> m | Some x \<Rightarrow> f x)"
  by (simp split: option.split)

lemma quiet_let [quiet_intros]: "quiet (m x) \<Longrightarrow> quiet (let y = x in m y)"
  by simp

lemma same_cache_update: "same_revisions s (s\<lparr>projectCache := c\<rparr>)"
  by (simp add: same_revisions_def)

lemma same_getProject: "same_revisions s (snd (getProjectByIdentifier C i s))"
  using getProjectByIdentifier_cache [of C i s] same_cache_update by metis

lemma same_getProjectNamed: "same_revisions s (snd (getProjectByNameAndType C n ty s))"
  using getProjectByNameAndType_cache [of C n ty s] same_cache_update by metis

lemma quiet_requireProject [quiet_intros]: "quiet (requireProject C i ts)"
  unfolding quiet_def using requireProject_cache [of C i ts] same_cache_update by metis

lemma quiet_put_secret [quiet_intros]: "quiet (put_secret C n x md)"
  by (simp add: quiet_def put_secret_def same_revisions_def split: prod.split)

lemma quiet_save_group [quiet_intros]: "quiet (lift_op (save_group g))"
  by (rule quiet_lift) (simp add: save_group_def fresh_id_def same_revisions_def)

lemma quiet_fill_group [quiet_intros]: "quiet (fill_group gid y)"
  unfolding fill_group_def by (rule quiet_modify) (simp add: same_revisions_def)

lemma quiet_delete_key [quiet_intros]: "quiet (delete_key_secret C g v k)"
  unfolding delete_key_secret_def quiet_def catch_op_def
  by (simp add: same_revisions_def return_op_def split: prod.split)

lemma quiet_deleteGroupVaultSecrets [quiet_intros]: "quiet (deleteGroupVaultSecrets C g)"
  unfolding deleteGroupVaultSecrets_def by (intro quiet_intros)

lemma quiet_store_sensitive [quiet_intros]: "quiet (store_sensitive C gid md ks v)"
  by (induction ks arbitrary: v) (auto simp: Let_def intro!: quiet_intros)

lemma quiet_store_content [quiet_intros]: "quiet (store_content C p dto g)"
  unfolding store_content_def by (intro quiet_intros)

lemma quiet_store_merged [quiet_intros]: "quiet (store_merged C gid md ks v)"
  by (induction ks arbitrary: v) (auto simp: Let_def intro!: quiet_intros)

lemma quiet_write_merged [quiet_intros]: "quiet (write_merged C rid d nm)"
  unfolding write_merged_def Let_def by (intro quiet_intros)

lemma quiet_populate [quiet_intros]: "quiet (populateDraftFromConfigMaps C rid d ts)"
  unfolding populateDraftFromConfigMaps_def by (intro quiet_intros)

lemma same_clone_secrets: "same_revisions s (snd (clone_secrets C gid ks v s))"
proof (induction ks arbitrary: v s)
  case (Cons k ks)
  have put: "same_revisions s (snd (put_secret C n x md s))" for n x md
    using quiet_put_secret [of C n x md] by (simp add: quiet_def)
  show ?case
    using Cons.IH put same_revisions_trans
    by (auto split: sum.splits prod.splits option.splits) (metis snd_conv)+
qed simp

lemma quiet_clone_secrets [quiet_intros]: "quiet (lift_op (clone_secrets C gid ks v))"
  by (rule quiet_lift) (rule same_clone_secrets)

lemma quiet_clone [quiet_intros]: "quiet (cloneGroupToRevision C g rid pos)"
  unfolding cloneGroupToRevision_def by (intro quiet_intros)

lemma same_fold_repushed: "same_revisions s (fold (repushed c) ds s)"
  using fold_repushed_only_offerings [of c ds s] by (auto simp: same_revisions_def)

lemma quiet_release [quiet_intros]: "quiet (updateConfigProjectRelease C pid v)"
proof -
  have drop: "quiet (drop_release old)" for old
    by (simp add: quiet_def drop_release_def same_revisions_def delete_release_row_def split: option.split)
  have add: "quiet (add_release C pid v)"
    by (simp add: quiet_def add_release_def same_revisions_def)
  show ?thesis
    unfolding updateConfigProjectRelease_def
    by (intro quiet_intros drop add quiet_modify same_fold_repushed)
qed

lemma same_setByVersion: "same_revisions s (setByVersion C d v x s)"
  by (simp add: setByVersion_def Let_def same_revisions_def split: sum.split)

lemma same_buildDevice: "same_revisions s (snd (buildDeviceConfigPayload C d s))"
  using same_getProjectNamed [of s C "config_project_name d" CONFIG]
  by (auto simp: buildDeviceConfigPayload_def Let_def split: prod.split)

lemma same_assemble: "same_revisions s (assembleAndCacheDeviceConfig C d v s)"
  unfolding assembleAndCacheDeviceConfig_def
  using same_buildDevice [of s C d] same_setByVersion same_revisions_trans by (metis (no_types, lifting) case_prod_beta)

lemma quiet_assemble [quiet_intros]: "quiet (modify_op (assembleAndCacheDeviceConfig C d v))"
  by (rule quiet_modify) (rule same_assemble)

lemma quiet_add_task [quiet_intros]: "quiet (modify_op (add_config_task t))"
  by (rule quiet_modify) (simp add: add_config_task_def same_revisions_def)

section \<open>The operations keep the invariant\<close>

lemma triple_ok: "quiet m \<Longrightarrow> triple ok m (\<lambda>_. ok)"
  by (rule triple_quiet)

lemma triple_option [triple_intros]:
  "(y = None \<Longrightarrow> triple P m Q) \<Longrightarrow> (\<And>x. y = Some x \<Longrightarrow> triple P (f x) Q) \<Longrightarrow>
   triple P (case y of None \<Rightarrow> m | Some x \<Rightarrow> f x) Q"
  by (simp split: option.split)

lemma triple_if [triple_intros]: "(b \<Longrightarrow> triple P m Q) \<Longrightarrow> (\<not> b \<Longrightarrow> triple P m' Q) \<Longrightarrow> triple P (if b then m else m') Q"
  by simp

lemma triple_getOrCreate: "triple ok (lift_op (getOrCreateDraftRevision pid)) (\<lambda>d. ok_with (is_draft pid d))"
  by (rule triple_lift) (rule getOrCreate_ok)

lemma triple_find:
  assumes "triple (ok_with (none_with pid DRAFT)) (m None) Q" "\<And>d. triple (ok_with (is_draft pid d)) (m (Some d)) Q"
  shows "triple ok (bind_op (gets_op (find_revision pid DRAFT)) m) Q"
  unfolding op_triple_def
proof (intro allI impI)
  fix s
  assume s: "ok s"
  show "case bind_op (gets_op (find_revision pid DRAFT)) m s of (Inl e, s') \<Rightarrow> ok s' | (Inr x, s') \<Rightarrow> Q x s'"
  proof (cases "find_revision pid DRAFT s")
    case None
    then have "ok_with (none_with pid DRAFT) s"
      using s by (simp add: ok_with_def find_revision_None)
    then show ?thesis
      using assms(1) None by (simp add: op_triple_def bind_op_def gets_op_def)
  next
    case (Some d)
    then have "ok_with (is_draft pid d) s"
      using s by (auto simp: ok_with_def is_draft_def dest: find_revision_Some)
    then show ?thesis
      using assms(2) Some by (simp add: op_triple_def bind_op_def gets_op_def)
  qed
qed

lemma triple_drop: "triple (ok_with B) m (\<lambda>_. ok_with B) \<Longrightarrow> triple (ok_with B) m (\<lambda>_. ok)"
  by (erule triple_conseq) (simp_all add: ok_with_def)

lemma triple_quiet_ok: "quiet m \<Longrightarrow> triple (ok_with B) m (\<lambda>_. ok)"
  by (rule triple_drop) (rule triple_quiet)

text \<open>A draft becomes the active revision, in the two ways the code has: with and without a new draft.\<close>

lemma triple_publish:
  assumes "\<And>r. rev_id (f r) = rev_id r \<and> rev_projectId (f r) = rev_projectId r \<and>
               rev_revisionNumber (f r) = rev_revisionNumber r \<and> rev_status (f r) = rev_status r"
    and "\<And>x. triple (ok_with (\<lambda>rs. none_with pid DRAFT rs \<and> numbers_below pid (rev_revisionNumber d + 1) rs)) (m x) (\<lambda>_. ok)"
  shows "triple (ok_with (is_draft pid d))
     (bind_op (modify_op (archive_active pid)) (\<lambda>_. bind_op (modify_op (activate (rev_id d) f v)) m)) (\<lambda>_. ok)"
  by (rule triple_bind [OF triple_modify [where Q = "\<lambda>_. ok_with (\<lambda>rs. none_with pid ACTIVE rs \<and> is_draft pid d rs)"]
        triple_bind [OF triple_modify assms(2)]])
    (use archive_ok activate_ok assms(1) in blast)+

lemma triple_new_draft:
  "quiet m \<Longrightarrow> triple (ok_with (\<lambda>rs. none_with pid DRAFT rs \<and> numbers_below pid n rs))
     (bind_op (lift_op (new_revision pid n)) (\<lambda>_. m)) (\<lambda>_. ok)"
  by (rule triple_bind [OF triple_lift triple_quiet_ok]) (rule new_revision_ok)

lemma triple_require: "(\<And>p. triple ok (m p) Q) \<Longrightarrow> triple ok (bind_op (requireProject C i ts) m) Q"
  by (rule triple_bind [OF triple_ok [OF quiet_requireProject]])

lemma triple_upsertGroup: "triple ok (upsertGroup C dto) (\<lambda>_. ok)"
  unfolding upsertGroup_def
  by (intro triple_require triple_bind [OF triple_getOrCreate] triple_quiet_ok quiet_intros)

lemma quiet_delete_group [quiet_intros]: "quiet (modify_op (\<lambda>s. s\<lparr>cs_groups := delete_where P (cs_groups s)\<rparr>))"
  by (rule quiet_modify) (simp add: same_revisions_def)

lemma triple_deleteGroup: "triple ok (deleteGroup C i n) (\<lambda>_. ok)"
  unfolding deleteGroup_def
  by (intro triple_require triple_bind [OF triple_getOrCreate] triple_quiet_ok quiet_intros)

lemma triple_require_draft:
  assumes "\<And>p d. triple (ok_with (is_draft (cp_id p) d)) (m p d) (\<lambda>_. ok)"
  shows "triple ok (bind_op (requireProject C i ts) (\<lambda>p. bind_op (gets_op (find_revision (cp_id p) DRAFT)) (\<lambda>d.
           case d of None \<Rightarrow> throw_op e | Some d \<Rightarrow> m p d))) (\<lambda>_. ok)"
  by (intro triple_require triple_find) (simp_all add: assms triple_quiet_ok quiet_throw)

lemma triple_applyRevision: "triple ok (applyRevision C i u) (\<lambda>_. ok)"
  unfolding applyRevision_def
  by (intro triple_require_draft triple_bind [OF triple_quiet [OF quiet_gets]] triple_publish)
    (simp, intro triple_quiet_ok quiet_intros)

lemma triple_createDraft: "triple ok (createDraftRevision C i) (\<lambda>_. ok)"
  unfolding createDraftRevision_def
proof (intro triple_require triple_find)
  fix p
  let ?pid = "cp_id p"
  have max: "triple (ok_with (none_with ?pid DRAFT)) (gets_op (max_revision ?pid))
      (\<lambda>n. ok_with (\<lambda>rs. none_with ?pid DRAFT rs \<and> numbers_below ?pid (n + 1) rs))"
    by (rule triple_gets) (use numbers_below_max in \<open>auto simp: ok_with_def\<close>)
  have new: "triple (ok_with (\<lambda>rs. none_with ?pid DRAFT rs \<and> numbers_below ?pid (n + 1) rs))
      (lift_op (new_revision ?pid (n + 1))) (\<lambda>d. ok_with (is_draft ?pid d))" for n
    by (rule triple_lift) (rule new_revision_ok)
  show "triple (ok_with (none_with ?pid DRAFT))
      (if (None :: ConfigRevisionEntity option) \<noteq> None then throw_op BadRequestException
       else bind_op (gets_op (max_revision ?pid)) (\<lambda>n. bind_op (lift_op (new_revision ?pid (n + 1))) (\<lambda>draft.
         bind_op (gets_op (\<lambda>s. case find_revision ?pid ACTIVE s of Some r \<Rightarrow> groups_of (rev_id r) s
             | None \<Rightarrow> (case latest_archived ?pid s of Some r \<Rightarrow> groups_of (rev_id r) s | None \<Rightarrow> [])))
           (\<lambda>gs. bind_op (each_op (\<lambda>g. cloneGroupToRevision C g (rev_id draft) (grp_position g)) gs)
             (\<lambda>_. return_op (mapRevisionToDto C draft None)))))) (\<lambda>_. ok)"
    by (simp only: simp_thms if_False, intro triple_bind [OF max] triple_bind [OF new] triple_quiet_ok quiet_intros)
qed (simp add: triple_quiet_ok quiet_throw)

lemma triple_deleteDraft: "triple ok (deleteDraftRevision C i) (\<lambda>_. ok)"
proof -
  have remove: "triple (ok_with B) (modify_op (\<lambda>s. s\<lparr>cs_revisions := delete_where P (cs_revisions s), cs_groups := delete_where G (cs_groups s)\<rparr>)) (\<lambda>_. ok)" for B P G
    by (rule triple_modify) (blast intro: delete_revision_ok ok_with_ok)
  show ?thesis
    unfolding deleteDraftRevision_def
    by (intro triple_require_draft triple_bind [OF triple_quiet [OF quiet_gets]] triple_bind [OF triple_quiet] remove quiet_intros)
qed

lemma triple_refresh: "triple ok (refreshConfigProjectRevision C pid d) (\<lambda>_. ok)"
  unfolding refreshConfigProjectRevision_def
  by (rule triple_bind [OF triple_getOrCreate],
      (rule triple_bind [OF triple_quiet], intro quiet_intros)+,
      rule triple_publish)
    (auto intro!: triple_new_draft quiet_intros)

lemma triple_catch: "triple ok m (\<lambda>_. ok) \<Longrightarrow> triple ok (catch_op m) (\<lambda>_. ok)"
  unfolding op_triple_def catch_op_def by (fastforce split: prod.splits sum.splits)

lemma triple_each: "(\<And>x. triple ok (f x) (\<lambda>_. ok)) \<Longrightarrow> triple ok (each_op f xs) (\<lambda>_. ok)"
proof (induction xs)
  case Nil
  then show ?case
    by (simp add: triple_ok quiet_return)
next
  case (Cons x xs)
  then show ?case
    by (auto intro: triple_bind)
qed

lemma triple_republish: "triple ok (republish_device C d) (\<lambda>_. ok)"
  unfolding republish_device_def
  by (intro triple_bind [OF triple_ok [OF quiet_lift [OF same_getProjectNamed]]] triple_option
      triple_catch triple_refresh triple_ok quiet_return)

lemma triple_run_task: "triple ok (run_config_task C t) (\<lambda>_. ok)"
  by (cases t)
    (simp_all add: run_config_task_def cascadeConfigMapRevisionToDevices_def cascadeConfigMapToSpecificDevices_def
      triple_bind [OF triple_ok [OF quiet_gets]] triple_each triple_republish)

text \<open>Provisioning publishes without archiving, so it needs a project without an active revision.\<close>

lemma getOrCreate_provision:
  "ok_with (none_with pid ACTIVE) s \<Longrightarrow> getOrCreateDraftRevision pid s = (d, s') \<Longrightarrow>
   ok_with (none_with pid ACTIVE) s'"
  using getOrCreate_ok [of s pid d s']
  by (auto simp: ok_with_def none_with_def revision_with_def getOrCreateDraftRevision_def new_revision_def
      fresh_id_def Let_def is_draft_def split: option.splits)

lemma triple_provision: "triple (ok_with (none_with pid ACTIVE)) (provisionProjectContent C pid d ts) (\<lambda>_. ok)"
proof -
  have default: "triple (ok_with (none_with pid ACTIVE)) (provisionDefaultConfigProject pid) (\<lambda>_. ok_with (none_with pid ACTIVE))"
    unfolding provisionDefaultConfigProject_def
    by (rule triple_bind [OF triple_lift triple_quiet])
      (auto intro!: quiet_intros intro: getOrCreate_provision split: prod.split)
  have found: "triple (ok_with (none_with pid ACTIVE)) (gets_op (find_revision pid DRAFT))
      (\<lambda>r. case r of None \<Rightarrow> ok | Some d \<Rightarrow> ok_with (\<lambda>rs. none_with pid ACTIVE rs \<and> is_draft pid d rs))"
    by (rule triple_gets) (auto simp: ok_with_def is_draft_def dest: find_revision_Some split: option.split)
  have publish: "triple (ok_with (\<lambda>rs. none_with pid ACTIVE rs \<and> is_draft pid r rs))
      (modify_op (activate (rev_id r) (\<lambda>r. r) v)) (\<lambda>_. ok_with (\<lambda>rs. none_with pid DRAFT rs \<and> numbers_below pid (rev_revisionNumber r + 1) rs))"
    for r v
    by (rule triple_modify) (rule activate_ok, simp_all)
  have rest: "triple (case r of None \<Rightarrow> ok | Some d \<Rightarrow> ok_with (\<lambda>rs. none_with pid ACTIVE rs \<and> is_draft pid d rs))
      (case r of None \<Rightarrow> return_op ()
       | Some draft \<Rightarrow>
           bind_op (populateDraftFromConfigMaps C (rev_id draft) d ts) (\<lambda>_.
           bind_op (modify_op (activate (rev_id draft) (\<lambda>r. r) ''1.0.0'')) (\<lambda>_.
           bind_op (lift_op (new_revision pid (rev_revisionNumber draft + 1))) (\<lambda>_.
           bind_op (updateConfigProjectRelease C pid ''1.0.0'') (\<lambda>_.
             modify_op (assembleAndCacheDeviceConfig C d ''1.0.0''))))) ) (\<lambda>_. ok)" for r
    by (cases r, simp_all only: option.case, rule triple_ok, rule quiet_return,
        rule triple_bind [OF triple_quiet], intro quiet_intros, rule triple_bind [OF publish],
        rule triple_new_draft, intro quiet_intros)
  show ?thesis
    unfolding provisionProjectContent_def autoPublishInitialRevision_def
    by (rule triple_bind [OF default triple_bind [OF found rest]])
qed

section \<open>The steps of the service\<close>

text \<open>
  The requests, the provisioning of a project that has no active revision, a pending cascade, and
  what other services do to the tables the configuration service does not own. A request that only
  reads changes at most the cache of projects. A step may end in an exception.
\<close>

inductive config_step :: "config_env \<Rightarrow> config_state \<Rightarrow> config_state \<Rightarrow> bool" for C where
  upsert: "config_step C s (snd (upsertGroup C dto s))"
| delete_group: "config_step C s (snd (deleteGroup C i n s))"
| apply_draft: "config_step C s (snd (applyRevision C i u s))"
| create_draft: "config_step C s (snd (createDraftRevision C i s))"
| delete_draft: "config_step C s (snd (deleteDraftRevision C i s))"
| add_association: "config_step C s (snd (addConfigMapAssociation C j t ds s))"
| remove_association: "config_step C s (snd (removeConfigMapAssociation a s))"
| provision: "none_with pid ACTIVE (cs_revisions s) \<Longrightarrow> config_step C s (snd (provisionProjectContent C pid d ts s))"
| cascade: "cs_tasks s = ts @ t # ts' \<Longrightarrow> config_step C s (snd (run_config_task C t (s\<lparr>cs_tasks := ts @ ts'\<rparr>)))"
| device: "config_step C s (snd (getDeviceConfig C d s))"
| device_version: "config_step C s (snd (getDeviceConfigByVersion C d v s))"
| list_maps: "config_step C s (snd (getConfigMapsForProject C i s))"
| reading: "config_step C s (s\<lparr>projectCache := c\<rparr>)"
| elsewhere: "next_id (cs_db s) \<le> next_id b \<Longrightarrow> config_step C s (s\<lparr>cs_db := b, cs_vault := vs, cs_offerings := os\<rparr>)"

lemma quiet_addAssociation: "quiet (addConfigMapAssociation C j t ds)"
proof -
  have device: "same_revisions s (snd (associate_device pid d s))" for pid d s
    by (simp add: associate_device_def new_association_def fresh_id_def Let_def same_revisions_def split: option.split)
  have all: "same_revisions s (snd (associate_all pid ds s))" for pid ds s
  proof (induction ds arbitrary: s)
    case (Cons d ds)
    obtain x s1 where 1: "associate_device pid d s = (x, s1)"
      by fastforce
    obtain xs s2 where 2: "associate_all pid ds s1 = (xs, s2)"
      by fastforce
    show ?case
      using device [of s pid d] Cons.IH [of s1] 1 2 same_revisions_trans by auto
  qed simp
  have type: "same_revisions s (snd (associate_type pid t s))" for pid t s
    by (simp add: associate_type_def new_association_def fresh_id_def Let_def same_revisions_def split: option.split)
  show ?thesis
    unfolding addConfigMapAssociation_def Let_def
    by (intro quiet_intros quiet_lift all type)
qed

lemma same_getActive: "same_revisions s (snd (getActiveConfigSemVerForDevice C d s))"
  using same_getProjectNamed [of s C "config_project_name d" CONFIG]
  by (auto simp: getActiveConfigSemVerForDevice_def split: prod.splits option.splits)

lemma same_getDeviceConfig: "same_revisions s (snd (getDeviceConfig C d s))"
proof -
  obtain v s1 where v: "getActiveConfigSemVerForDevice C d s = (v, s1)"
    by fastforce
  obtain x s2 where x: "buildDeviceConfigPayload C d s1 = (x, s2)"
    by fastforce
  have "same_revisions s s1" "same_revisions s1 s2"
    using same_getActive [of s C d] same_buildDevice [of s1 C d] v x by simp_all
  then show ?thesis
    using same_setByVersion [of s2] same_revisions_trans
    by (auto simp: getDeviceConfig_def v x split: option.split)
qed

lemma quiet_getDeviceConfigByVersion: "quiet (getDeviceConfigByVersion C d v)"
  unfolding quiet_def
proof
  fix s
  obtain p s1 where p: "getProjectByNameAndType C (config_project_name d) CONFIG s = (p, s1)"
    by fastforce
  then have "same_revisions s s1"
    using same_getProjectNamed [of s C "config_project_name d" CONFIG] by simp
  then show "same_revisions s (snd (getDeviceConfigByVersion C d v s))"
    using same_setByVersion [of s1] same_revisions_trans
    by (auto simp: getDeviceConfigByVersion_def p Let_def split: option.split)
qed

lemma quiet_getConfigMaps: "quiet (getConfigMapsForProject C i)"
proof -
  have "same_revisions s (snd (look_up_projects C js s))" for js s
  proof (induction js arbitrary: s)
    case (Cons j js)
    then show ?case
      using same_getProject [of s C "IdNum j"] same_revisions_trans
      by (auto split: prod.splits) (metis snd_conv)
  qed simp
  then show ?thesis
    unfolding getConfigMapsForProject_def Let_def by (intro quiet_intros quiet_lift)
qed

lemma step_keeps: "config_step C s s' \<Longrightarrow> ok s \<Longrightarrow> ok s'"
proof (induction rule: config_step.induct)
  case (provision pid s d ts)
  then show ?case
    by (intro triple_keeps [OF triple_provision]) (simp add: ok_with_def)
next
  case (cascade s ts t ts')
  then have "ok (s\<lparr>cs_tasks := ts @ ts'\<rparr>)"
    by (simp add: ok_with_def revisions_ok_def)
  then show ?case
    by (rule triple_keeps [OF triple_run_task])
next
  case (device s d)
  then show ?case
    by (rule same_revisions_ok [OF same_getDeviceConfig])
next
  case (elsewhere s b vs os)
  then show ?case
    by - (rule same_revisions_ok [of s], simp_all add: same_revisions_def)
next
  case (reading s c)
  then show ?case
    by - (rule same_revisions_ok [of s], simp_all add: same_revisions_def)
next
  case (remove_association s a)
  then show ?case
    by - (rule same_revisions_ok [of s], simp_all add: same_revisions_def removeConfigMapAssociation_def)
qed (erule triple_keeps [OF triple_upsertGroup] triple_keeps [OF triple_deleteGroup]
    triple_keeps [OF triple_applyRevision] triple_keeps [OF triple_createDraft] triple_keeps [OF triple_deleteDraft]
    triple_keeps [OF triple_ok [OF quiet_addAssociation]] triple_keeps [OF triple_ok [OF quiet_getDeviceConfigByVersion]]
    triple_keeps [OF triple_ok [OF quiet_getConfigMaps]])+



text \<open>Provisioning a project a second time leaves it with two active revisions: nothing is archived.\<close>

definition demo_provisioned :: config_state where
  "demo_provisioned = demo_config\<lparr>cs_revisions := [demo_revision\<lparr>rev_status := ACTIVE, rev_semVer := Some ''1.0.0''\<rparr>], cs_groups := []\<rparr>"

lemma quiet_tail: "quiet m \<Longrightarrow> cs_revisions (snd (bind_op (lift_op f) (\<lambda>_. m) s)) = cs_revisions (snd (f s))"
  by (auto simp: quiet_def bind_op_def lift_op_def same_revisions_def split: prod.split)

lemma provisioned_twice:
  "map rev_status (cs_revisions (snd (provisionProjectContent demo_config_env 1 ''d1'' None demo_provisioned))) =
   [ACTIVE, ACTIVE, DRAFT]"
proof -
  define s1 where "s1 = snd (provisionDefaultConfigProject 1 demo_provisioned)"
  define draft where "draft = demo_revision\<lparr>rev_id := 3, rev_revisionNumber := 2\<rparr>"
  have "fst (provisionDefaultConfigProject 1 demo_provisioned) = Inr ()"
    by code_simp
  then have default: "provisionDefaultConfigProject 1 demo_provisioned = (Inr (), s1)"
    by (simp add: s1_def prod_eq_iff)
  have found: "find_revision 1 DRAFT s1 = Some draft" and none: "cs_associations s1 = []"
    unfolding s1_def draft_def by code_simp+
  then have populate: "populateDraftFromConfigMaps demo_config_env (rev_id draft) ''d1'' None s1 = (Inr (), s1)"
    by (simp add: populateDraftFromConfigMaps_def bind_op_def gets_op_def active_maps_def applicable_associations_def
        collected_groups_def return_op_def)
  have "cs_revisions (snd (provisionProjectContent demo_config_env 1 ''d1'' None demo_provisioned)) =
      cs_revisions (snd (bind_op (lift_op (new_revision 1 (rev_revisionNumber draft + 1)))
        (\<lambda>_. bind_op (updateConfigProjectRelease demo_config_env 1 ''1.0.0'')
          (\<lambda>_. modify_op (assembleAndCacheDeviceConfig demo_config_env ''d1'' ''1.0.0'')))
        (activate (rev_id draft) (\<lambda>r. r) ''1.0.0'' s1)))"
    unfolding provisionProjectContent_def autoPublishInitialRevision_def
      bind_op_def [of "provisionDefaultConfigProject 1"] default prod.case sum.case
      bind_op_def [of "gets_op _"] gets_op_def found option.case
      bind_op_def [of "populateDraftFromConfigMaps _ _ _ _"] populate bind_op_def [of "modify_op (activate _ _ _)"] modify_op_def
    by (rule refl)
  also have "\<dots> = cs_revisions (snd (new_revision 1 3 (activate 3 (\<lambda>r. r) ''1.0.0'' s1)))"
    by (subst quiet_tail, intro quiet_intros) (simp add: draft_def)
  also have "map rev_status \<dots> = [ACTIVE, ACTIVE, DRAFT]"
    unfolding s1_def by code_simp
  finally show ?thesis .
qed

end
