(* ===== verification/Safe_Cron.thy ===== *)
theory Safe_Cron
  imports Prelude
begin

text \<open>
  The lock that keeps a scheduled task from running in two replicas at once
  (\<open>libs/common/src/safe-cron\<close>): a table of job runs, the last of which is the lock while it has
  no end and is at most five minutes old. Times are milliseconds; the columns hold whole seconds,
  to which the database rounds. A query fails when the argument of faults says so.
\<close>

section \<open>State\<close>

definition LOCK_TIMEOUT_MS :: int where
  "LOCK_TIMEOUT_MS = 5 * 60 * 1000"

record JobsEntity =
  job_id :: nat
  job_name :: string
  job_startTime :: int
  job_endTime :: "int option"

record cron_db =
  cron_jobs :: "JobsEntity list"
  cron_next_id :: nat
  cron_now :: int

record cron_faults =
  find_fails :: bool
  save_fails :: bool

text \<open>The service of one replica keeps the names of the locks it has acquired.\<close>

type_synonym acquired_locks = "string list"

text \<open>A column \<open>timestamptz(0)\<close>.\<close>

definition to_column :: "int \<Rightarrow> int" where
  "to_column t = (t + 500) div 1000 * 1000"

section \<open>Operations\<close>

definition later_job :: "JobsEntity \<Rightarrow> JobsEntity \<Rightarrow> JobsEntity" where
  "later_job a b = (if job_startTime a < job_startTime b then b else a)"

definition findLastJob :: "string \<Rightarrow> cron_db \<Rightarrow> JobsEntity option" where
  "findLastJob n d =
     (case filter (\<lambda>j. job_name j = n) (cron_jobs d) of [] \<Rightarrow> None | j # js \<Rightarrow> Some (foldl later_job j js))"

definition isLockExpired :: "int \<Rightarrow> cron_db \<Rightarrow> bool" where
  "isLockExpired startTime d \<longleftrightarrow> cron_now d - startTime > LOCK_TIMEOUT_MS"

definition isJobRunning :: "string \<Rightarrow> cron_db \<Rightarrow> bool" where
  "isJobRunning n d =
     (case findLastJob n d of
        None \<Rightarrow> False
      | Some j \<Rightarrow> \<not> (isLockExpired (job_startTime j) d \<or> job_endTime j \<noteq> None))"

text \<open>\<open>jobRepository.save\<close> of a new run; the unique constraint is on the start time and the name.\<close>

definition taken :: "string \<Rightarrow> cron_db \<Rightarrow> bool" where
  "taken n d \<longleftrightarrow> list_ex (\<lambda>j. job_name j = n \<and> job_startTime j = to_column (cron_now d)) (cron_jobs d)"

definition insert_job :: "string \<Rightarrow> cron_db \<Rightarrow> cron_db" where
  "insert_job n d =
     d\<lparr>cron_jobs := cron_jobs d @ [\<lparr>job_id = cron_next_id d, job_name = n,
          job_startTime = to_column (cron_now d), job_endTime = None\<rparr>],
       cron_next_id := Suc (cron_next_id d)\<rparr>"

definition save_job :: "JobsEntity \<Rightarrow> cron_db \<Rightarrow> cron_db" where
  "save_job j d = d\<lparr>cron_jobs := update_where (\<lambda>x. job_id x = job_id j) (\<lambda>_. j) (cron_jobs d)\<rparr>"

text \<open>The second half of \<open>tryAcquireJobLock\<close>, after the check has found no running job.\<close>

definition take_lock :: "cron_faults \<Rightarrow> string \<Rightarrow> cron_db \<Rightarrow> bool result \<times> cron_db" where
  "take_lock F n d =
     (if save_fails F then (Inl ErrorException, d)
      else if taken n d then (Inr False, d)
      else (Inr True, insert_job n d))"

definition tryAcquireJobLock :: "cron_faults \<Rightarrow> string \<Rightarrow> cron_db \<Rightarrow> bool result \<times> cron_db" where
  "tryAcquireJobLock F n d =
     (if find_fails F then (Inl ErrorException, d)
      else if isJobRunning n d then (Inr False, d)
      else take_lock F n d)"

definition acquireLock :: "cron_faults \<Rightarrow> string \<Rightarrow> acquired_locks \<Rightarrow> cron_db \<Rightarrow> bool \<times> acquired_locks \<times> cron_db" where
  "acquireLock F n locks d =
     (case tryAcquireJobLock F n d of
        (Inl e, d1) \<Rightarrow> (False, locks, d1)
      | (Inr b, d1) \<Rightarrow> (b, if b then List.insert n locks else locks, d1))"

definition releaseJobLock :: "cron_faults \<Rightarrow> string \<Rightarrow> cron_db \<Rightarrow> unit result \<times> cron_db" where
  "releaseJobLock F n d =
     (if find_fails F then (Inl ErrorException, d)
      else (case findLastJob n d of
          None \<Rightarrow> (Inr (), d)
        | Some j \<Rightarrow>
            if save_fails F then (Inl ErrorException, d)
            else (Inr (), save_job (j\<lparr>job_endTime := Some (to_column (cron_now d))\<rparr>) d)))"

definition releaseLock :: "cron_faults \<Rightarrow> string \<Rightarrow> acquired_locks \<Rightarrow> cron_db \<Rightarrow> acquired_locks \<times> cron_db" where
  "releaseLock F n locks d =
     (case releaseJobLock F n d of
        (Inl e, d1) \<Rightarrow> (locks, d1)
      | (Inr _, d1) \<Rightarrow> (removeAll n locks, d1))"

definition updateJobStartTime :: "cron_faults \<Rightarrow> string \<Rightarrow> cron_db \<Rightarrow> unit result \<times> cron_db" where
  "updateJobStartTime F n d =
     (if find_fails F then (Inl ErrorException, d)
      else if \<not> isJobRunning n d then (Inr (), d)
      else (case findLastJob n d of
          None \<Rightarrow> (Inr (), d)
        | Some j \<Rightarrow>
            if job_endTime j \<noteq> None \<or> save_fails F then (Inr (), d)
            else (Inr (), save_job (j\<lparr>job_startTime := to_column (cron_now d)\<rparr>) d)))"

definition handleShutdown :: "(string \<Rightarrow> cron_faults) \<Rightarrow> acquired_locks \<Rightarrow> cron_db \<Rightarrow> acquired_locks \<times> cron_db" where
  "handleShutdown F locks d = fold (\<lambda>n (l, d). releaseLock (F n) n l d) locks (locks, d)"

section \<open>The decorators\<close>

text \<open>
  The body may change the tables it works on and may fail; \<open>None\<close> is a call that did not run it.
  \<open>SafeCron\<close> lets the failure through, \<open>TimeoutRepeatTask\<close> logs it and returns the delay after
  which it runs again.
\<close>

definition SafeCron_call ::
  "cron_faults \<Rightarrow> cron_faults \<Rightarrow> string \<Rightarrow> (cron_db \<Rightarrow> unit result \<times> cron_db) \<Rightarrow> acquired_locks \<Rightarrow> cron_db \<Rightarrow>
   unit result option \<times> acquired_locks \<times> cron_db" where
  "SafeCron_call F G n body locks d =
     (case acquireLock F n locks d of
        (False, l1, d1) \<Rightarrow> (None, l1, d1)
      | (True, l1, d1) \<Rightarrow> (case body d1 of (r, d2) \<Rightarrow> (Some r, releaseLock G n l1 d2)))"

definition TimeoutRepeatTask_run ::
  "nat option \<Rightarrow> nat option \<Rightarrow> cron_faults \<Rightarrow> cron_faults \<Rightarrow> string \<Rightarrow> (cron_db \<Rightarrow> unit result \<times> cron_db) \<Rightarrow>
   acquired_locks \<Rightarrow> cron_db \<Rightarrow> nat \<times> acquired_locks \<times> cron_db" where
  "TimeoutRepeatTask_run repeatTimeout acquireFailTimeout F G n body locks d =
     (let or_default = (\<lambda>x y. case x of None \<Rightarrow> y | Some t \<Rightarrow> if t = 0 then y else t) in
      case SafeCron_call F G n body locks d of
        (None, l1, d1) \<Rightarrow> (or_default acquireFailTimeout (1000 * 60 * 60), l1, d1)
      | (Some r, l1, d1) \<Rightarrow> (or_default repeatTimeout (1000 * 10), l1, d1))"

section \<open>Replicas\<close>

text \<open>
  Several replicas over one table. An acquisition is one step here: the check and the insert are
  not separated by another replica. Time passes only as far as every holder renews or releases in
  time, that is, before its run is older than the timeout.
\<close>

record cron_system =
  sys_db :: cron_db
  sys_locks :: "nat \<Rightarrow> acquired_locks"

inductive cron_step :: "cron_system \<Rightarrow> cron_system \<Rightarrow> bool" where
  acquire: "acquireLock F n (sys_locks s r) (sys_db s) = (b, l, d) \<Longrightarrow>
     cron_step s (s\<lparr>sys_db := d, sys_locks := (sys_locks s)(r := l)\<rparr>)"
| renew: "n \<in> set (sys_locks s r) \<Longrightarrow> cron_step s (s\<lparr>sys_db := snd (updateJobStartTime F n (sys_db s))\<rparr>)"
| release: "n \<in> set (sys_locks s r) \<Longrightarrow> releaseLock F n (sys_locks s r) (sys_db s) = (l, d) \<Longrightarrow>
     cron_step s (s\<lparr>sys_db := d, sys_locks := (sys_locks s)(r := l)\<rparr>)"
| tick: "0 \<le> dt \<Longrightarrow>
     (\<And>r n j. n \<in> set (sys_locks s r) \<Longrightarrow> findLastJob n (sys_db s) = Some j \<Longrightarrow>
        cron_now (sys_db s) + dt - job_startTime j \<le> LOCK_TIMEOUT_MS) \<Longrightarrow>
     cron_step s (s\<lparr>sys_db := (sys_db s)\<lparr>cron_now := cron_now (sys_db s) + dt\<rparr>\<rparr>)"

section \<open>The last run\<close>

lemma to_column_bounds: "t - 500 \<le> to_column t" "to_column t \<le> t + 500"
  by (simp_all add: to_column_def)

lemma to_column_mono: "t \<le> u \<Longrightarrow> to_column t \<le> to_column u"
  by (simp add: to_column_def zdiv_mono1)

lemma foldl_later: "foldl later_job j js \<in> insert j (set js) \<and>
   (\<forall>x\<in>insert j (set js). job_startTime x \<le> job_startTime (foldl later_job j js))"
proof (induction js arbitrary: j)
  case (Cons x js)
  have "later_job j x \<in> {j, x}" "job_startTime j \<le> job_startTime (later_job j x)" "job_startTime x \<le> job_startTime (later_job j x)"
    by (simp_all add: later_job_def)
  then show ?case
    using Cons [of "later_job j x"] by fastforce
qed simp

lemma findLastJob_Some:
  "findLastJob n d = Some j \<Longrightarrow>
   j \<in> set (cron_jobs d) \<and> job_name j = n \<and>
   (\<forall>x\<in>set (cron_jobs d). job_name x = n \<longrightarrow> job_startTime x \<le> job_startTime j)"
proof -
  assume "findLastJob n d = Some j"
  then obtain k ks where "filter (\<lambda>j. job_name j = n) (cron_jobs d) = k # ks" "j = foldl later_job k ks"
    by (auto simp: findLastJob_def split: list.splits)
  then show ?thesis
    using foldl_later [of k ks] by (metis (mono_tags, lifting) filter_set list.set(2) mem_Collect_eq set_filter)
qed

lemma findLastJob_None: "findLastJob n d = None \<longleftrightarrow> (\<forall>x\<in>set (cron_jobs d). job_name x \<noteq> n)"
proof -
  have "findLastJob n d = None \<longleftrightarrow> filter (\<lambda>j. job_name j = n) (cron_jobs d) = []"
    by (simp add: findLastJob_def split: list.split)
  then show ?thesis
    by (simp add: filter_empty_conv)
qed

text \<open>The rows: distinct ids, at most one run of a name per start time, and no run from the future.\<close>

definition jobs_ok :: "cron_db \<Rightarrow> bool" where
  "jobs_ok d \<longleftrightarrow>
     distinct (map job_id (cron_jobs d)) \<and> (\<forall>j\<in>set (cron_jobs d). job_id j < cron_next_id d) \<and>
     distinct (map (\<lambda>j. (job_name j, job_startTime j)) (cron_jobs d)) \<and>
     (\<forall>j\<in>set (cron_jobs d). job_startTime j \<le> to_column (cron_now d))"

lemma findLastJob_unique:
  assumes "jobs_ok d" "j \<in> set (cron_jobs d)" "job_name j = n"
    and "\<And>x. x \<in> set (cron_jobs d) \<Longrightarrow> job_name x = n \<Longrightarrow> job_startTime x \<le> job_startTime j"
  shows "findLastJob n d = Some j"
proof (cases "findLastJob n d")
  case None
  then show ?thesis
    using assms by (auto simp: findLastJob_None)
next
  case (Some k)
  then have k: "k \<in> set (cron_jobs d)" "job_name k = n" "job_startTime j \<le> job_startTime k"
    using findLastJob_Some [OF Some] assms by auto
  then have "job_startTime j = job_startTime k"
    using assms(4) [of k] by simp
  then have "k = j"
    using assms k by (auto simp: jobs_ok_def distinct_map inj_on_def)
  then show ?thesis
    using Some by simp
qed

lemma findLastJob_other:
  "filter (\<lambda>j. job_name j = n) (cron_jobs d') = filter (\<lambda>j. job_name j = n) (cron_jobs d) \<Longrightarrow>
   findLastJob n d' = findLastJob n d"
  by (simp add: findLastJob_def)

lemma running_other:
  "filter (\<lambda>j. job_name j = n) (cron_jobs d') = filter (\<lambda>j. job_name j = n) (cron_jobs d) \<Longrightarrow> cron_now d' = cron_now d \<Longrightarrow>
   isJobRunning n d' = isJobRunning n d"
  using findLastJob_other [of n d' d] by (simp add: isJobRunning_def isLockExpired_def split: option.split)

section \<open>What the operations do to the last run\<close>

lemma insert_job_ok:
  assumes "jobs_ok d" "\<not> taken n d"
  shows "jobs_ok (insert_job n d)" "isJobRunning n (insert_job n d)"
    "m \<noteq> n \<Longrightarrow> isJobRunning m (insert_job n d) = isJobRunning m d"
proof -
  define j where "j = \<lparr>job_id = cron_next_id d, job_name = n, job_startTime = to_column (cron_now d), job_endTime = None\<rparr>"
  have rows: "cron_jobs (insert_job n d) = cron_jobs d @ [j]" "cron_now (insert_job n d) = cron_now d"
    "cron_next_id (insert_job n d) = Suc (cron_next_id d)" "job_id j = cron_next_id d" "job_name j = n"
    "job_startTime j = to_column (cron_now d)" "job_endTime j = None"
    by (simp_all add: insert_job_def j_def)
  show ok: "jobs_ok (insert_job n d)"
    using assms by (auto simp: jobs_ok_def rows taken_def list_ex_iff less_Suc_eq image_iff)
  have "\<forall>x\<in>set (cron_jobs (insert_job n d)). job_startTime x \<le> to_column (cron_now d)"
    using ok unfolding jobs_ok_def rows(2) by blast
  then have "findLastJob n (insert_job n d) = Some j"
    by (intro findLastJob_unique [OF ok]) (auto simp: rows)
  then show "isJobRunning n (insert_job n d)"
    using to_column_bounds [of "cron_now d"]
    by (simp add: isJobRunning_def isLockExpired_def rows LOCK_TIMEOUT_MS_def)
  show "isJobRunning m (insert_job n d) = isJobRunning m d" if "m \<noteq> n"
    by (rule running_other) (use that in \<open>simp_all add: rows\<close>)
qed

lemma acquire_cases:
  "acquireLock F n l d = (b, l', d') \<Longrightarrow>
   (\<not> b \<and> l' = l \<and> d' = d) \<or> (b \<and> l' = List.insert n l \<and> d' = insert_job n d \<and> \<not> isJobRunning n d \<and> \<not> taken n d)"
  by (auto simp: acquireLock_def tryAcquireJobLock_def take_lock_def split: if_splits)

text \<open>A change of the last run that keeps its name and id.\<close>

lemma save_last:
  assumes "jobs_ok d" "findLastJob n d = Some j" "job_id j' = job_id j" "job_name j' = n"
    and "job_startTime j \<le> job_startTime j'" "job_startTime j' \<le> to_column (cron_now d)"
  shows "jobs_ok (save_job j' d)" "findLastJob n (save_job j' d) = Some j'"
    "m \<noteq> n \<Longrightarrow> isJobRunning m (save_job j' d) = isJobRunning m d"
proof -
  note last = findLastJob_Some [OF assms(2)]
  define f where "f x = (if job_id x = job_id j then j' else x)" for x
  have rows: "cron_jobs (save_job j' d) = map f (cron_jobs d)" "cron_now (save_job j' d) = cron_now d"
    "cron_next_id (save_job j' d) = cron_next_id d"
    by (simp_all add: save_job_def update_where_def f_def [abs_def] assms(3))
  have same: "f x = (if x = j then j' else x)" if "x \<in> set (cron_jobs d)" for x
    using assms(1) last that by (auto simp: f_def jobs_ok_def distinct_map inj_on_def)
  have ids: "map job_id (map f (cron_jobs d)) = map job_id (cron_jobs d)"
    using assms(3) by (simp add: f_def)
  have "inj_on (\<lambda>x. (job_name (f x), job_startTime (f x))) (set (cron_jobs d))"
  proof (rule inj_onI)
    fix x y
    assume xy: "x \<in> set (cron_jobs d)" "y \<in> set (cron_jobs d)" "(job_name (f x), job_startTime (f x)) = (job_name (f y), job_startTime (f y))"
    have inj: "inj_on (\<lambda>j. (job_name j, job_startTime j)) (set (cron_jobs d))"
      using assms(1) by (simp add: jobs_ok_def distinct_map)
    have top: "job_startTime z < job_startTime j" if "z \<in> set (cron_jobs d)" "job_name z = n" "z \<noteq> j" for z
      using that last inj by (force simp: inj_on_def order_le_less)
    show "x = y"
      using xy inj top [of x] top [of y] last assms(4,5)
      by (cases "x = j"; cases "y = j") (auto simp: same inj_on_def)
  qed
  then have "distinct (map (\<lambda>j. (job_name j, job_startTime j)) (map f (cron_jobs d)))"
    using assms(1) by (simp add: jobs_ok_def distinct_map comp_def)
  then show ok: "jobs_ok (save_job j' d)"
    using assms(1,3,6) last unfolding jobs_ok_def rows ids by (auto simp: f_def)
  show "findLastJob n (save_job j' d) = Some j'"
    by (rule findLastJob_unique [OF ok])
      (use last same assms(4,5) in \<open>auto simp: rows image_iff split: if_splits intro: order_trans\<close>)
  have "filter (\<lambda>x. job_name x = m) (map f (cron_jobs d)) = filter (\<lambda>x. job_name x = m) (cron_jobs d)" if "m \<noteq> n"
  proof -
    have "filter (\<lambda>x. job_name x = m) (map f xs) = filter (\<lambda>x. job_name x = m) xs" if "set xs \<subseteq> set (cron_jobs d)" for xs
      using that \<open>m \<noteq> n\<close> last assms(4) same by (induction xs) auto
    then show ?thesis
      by blast
  qed
  then show "m \<noteq> n \<Longrightarrow> isJobRunning m (save_job j' d) = isJobRunning m d"
    using running_other [of m "save_job j' d" d] by (simp add: rows)
qed

section \<open>One holder at a time\<close>

definition cron_ok :: "cron_system \<Rightarrow> bool" where
  "cron_ok s \<longleftrightarrow>
     jobs_ok (sys_db s) \<and>
     (\<forall>r n. n \<in> set (sys_locks s r) \<longrightarrow> isJobRunning n (sys_db s)) \<and>
     (\<forall>r r' n. n \<in> set (sys_locks s r) \<longrightarrow> n \<in> set (sys_locks s r') \<longrightarrow> r = r')"

lemma renew_ok:
  assumes "jobs_ok d"
  shows "jobs_ok (snd (updateJobStartTime F n d))"
    "isJobRunning m (snd (updateJobStartTime F n d)) = isJobRunning m d"
proof -
  have "jobs_ok (snd (updateJobStartTime F n d)) \<and> isJobRunning m (snd (updateJobStartTime F n d)) = isJobRunning m d"
  proof (cases "findLastJob n d")
    case (Some j)
    show ?thesis
    proof (cases "find_fails F \<or> \<not> isJobRunning n d \<or> job_endTime j \<noteq> None \<or> save_fails F")
      case False
      let ?j = "j\<lparr>job_startTime := to_column (cron_now d)\<rparr>"
      have le: "job_startTime j \<le> to_column (cron_now d)"
        using assms findLastJob_Some [OF Some] by (simp add: jobs_ok_def)
      note save = save_last [OF assms Some, of ?j]
      have "isJobRunning n (save_job ?j d)"
        using save(2) le False findLastJob_Some [OF Some] to_column_bounds [of "cron_now d"]
        by (simp add: isJobRunning_def isLockExpired_def LOCK_TIMEOUT_MS_def save_job_def)
      then show ?thesis
        using False Some save(1,3) le findLastJob_Some [OF Some]
        by (cases "m = n") (simp_all add: updateJobStartTime_def)
    qed (use assms Some in \<open>auto simp: updateJobStartTime_def\<close>)
  next
    case None
    then show ?thesis
      using assms by (cases "find_fails F"; cases "isJobRunning n d") (simp_all add: updateJobStartTime_def)
  qed
  then show "jobs_ok (snd (updateJobStartTime F n d))"
    "isJobRunning m (snd (updateJobStartTime F n d)) = isJobRunning m d"
    by simp_all
qed

lemma release_ok:
  assumes "jobs_ok d" "releaseLock F n l d = (l', d')"
  shows "jobs_ok d'" "m \<noteq> n \<Longrightarrow> isJobRunning m d' = isJobRunning m d"
    "set l' \<subseteq> set l" "n \<in> set l' \<Longrightarrow> d' = d"
proof -
  have *: "jobs_ok d' \<and> (m \<noteq> n \<longrightarrow> isJobRunning m d' = isJobRunning m d) \<and> set l' \<subseteq> set l \<and> (n \<in> set l' \<longrightarrow> d' = d)"
  proof (cases "findLastJob n d")
    case (Some j)
    let ?j = "j\<lparr>job_endTime := Some (to_column (cron_now d))\<rparr>"
    have "job_startTime j \<le> to_column (cron_now d)" "job_name j = n"
      using assms(1) findLastJob_Some [OF Some] by (simp_all add: jobs_ok_def)
    then show ?thesis
      using assms save_last(1,3) [OF assms(1) Some, of ?j] Some
      by (auto simp: releaseLock_def releaseJobLock_def split: if_splits)
  qed (use assms in \<open>auto simp: releaseLock_def releaseJobLock_def split: if_splits\<close>)
  then show "jobs_ok d'" "m \<noteq> n \<Longrightarrow> isJobRunning m d' = isJobRunning m d" "set l' \<subseteq> set l" "n \<in> set l' \<Longrightarrow> d' = d"
    by simp_all
qed

lemma cron_step_ok: "cron_step s s' \<Longrightarrow> cron_ok s \<Longrightarrow> cron_ok s'"
proof (induction rule: cron_step.induct)
  case (acquire F n s r b l d)
  from acquire_cases [OF acquire.hyps] show ?case
  proof (elim disjE conjE)
    assume new: "l = List.insert n (sys_locks s r)" "d = insert_job n (sys_db s)" "\<not> isJobRunning n (sys_db s)" "\<not> taken n (sys_db s)"
    then have "n \<notin> set (sys_locks s r')" for r'
      using acquire.prems by (auto simp: cron_ok_def)
    moreover have "jobs_ok (sys_db s)"
      using acquire.prems by (simp add: cron_ok_def)
    note insert_job_ok [OF this new(4)]
    ultimately show ?thesis
      using acquire.prems by (auto simp: cron_ok_def new(1,2)) (metis insert_job_ok(2,3) new(4))+
  qed (use acquire.prems in \<open>simp add: cron_ok_def\<close>)
next
  case (renew n s r F)
  then show ?case
    using renew_ok by (auto simp: cron_ok_def)
next
  case (release n s r F l d)
  have ok: "jobs_ok (sys_db s)"
    using release.prems by (simp add: cron_ok_def)
  note rel = release_ok [OF ok release.hyps(2)]
  have "isJobRunning m d" if "m \<in> set (((sys_locks s)(r := l)) r')" for r' m
  proof (cases "m = n")
    case True
    then have "r' = r"
      using that release.hyps(1) release.prems by (auto simp: cron_ok_def split: if_splits)
    then show ?thesis
      using that True rel(4) release.hyps(1) release.prems by (auto simp: cron_ok_def)
  next
    case False
    then show ?thesis
      using that rel(2,3) release.prems by (auto simp: cron_ok_def split: if_splits)
  qed
  then show ?case
    using rel(1,3) release.prems by (auto simp: cron_ok_def split: if_splits)
next
  case (tick dt s)
  have "isJobRunning n (sys_db s\<lparr>cron_now := cron_now (sys_db s) + dt\<rparr>)" if "n \<in> set (sys_locks s r)" for n r
    using tick.prems tick.hyps(2) [OF that] that
    by (fastforce simp: cron_ok_def isJobRunning_def isLockExpired_def findLastJob_def split: option.splits list.splits)
  moreover have "to_column (cron_now (sys_db s)) \<le> to_column (cron_now (sys_db s) + dt)"
    using tick.hyps(1) by (intro to_column_mono) simp
  ultimately show ?case
    using tick.prems by (auto simp: cron_ok_def jobs_ok_def intro: order_trans)
qed

text \<open>
  C30. As long as every holder renews or releases its lock in time and an acquisition is not
  interrupted between its check and its insert, at most one replica holds the lock of a job, and
  the job counts as running for every other replica.
\<close>

theorem cron_mutual_exclusion:
  assumes "cron_step\<^sup>*\<^sup>* s t" "cron_ok s" "n \<in> set (sys_locks t r)"
  shows "isJobRunning n (sys_db t) \<and> (\<forall>r'. n \<in> set (sys_locks t r') \<longrightarrow> r' = r) \<and>
         (\<forall>F l. fst (acquireLock F n l (sys_db t)) = False)"
proof -
  have "cron_ok t"
    using assms(1,2) by (induction rule: rtranclp_induct) (auto intro: cron_step_ok)
  then have "isJobRunning n (sys_db t)" "\<forall>r'. n \<in> set (sys_locks t r') \<longrightarrow> r' = r"
    using assms(3) by (auto simp: cron_ok_def)
  then show ?thesis
    by (simp add: acquireLock_def tryAcquireJobLock_def)
qed


definition no_cron_faults :: cron_faults where
  "no_cron_faults = \<lparr>find_fails = False, save_fails = False\<rparr>"

definition first_run :: cron_system where
  "first_run = \<lparr>sys_db = \<lparr>cron_jobs = [], cron_next_id = 0, cron_now = 0\<rparr>, sys_locks = \<lambda>_. []\<rparr>"

definition second_run :: cron_system where
  "second_run =
     (case acquireLock no_cron_faults ''sync'' [] (sys_db first_run) of
        (b, l, d) \<Rightarrow> first_run\<lparr>sys_db := d, sys_locks := (sys_locks first_run)(1 := l)\<rparr>)"

lemma first_to_second: "cron_step first_run second_run"
proof -
  obtain b l d where a: "acquireLock no_cron_faults ''sync'' (sys_locks first_run 1) (sys_db first_run) = (b, l, d)"
    by (metis prod_cases3)
  show ?thesis
    using cron_step.acquire [OF a] a by (simp add: second_run_def first_run_def)
qed

lemma first_run_ok: "cron_ok first_run"
  by (simp add: cron_ok_def jobs_ok_def first_run_def)

lemma second_run_holds: "''sync'' \<in> set (sys_locks second_run 1)"
  by (simp add: second_run_def first_run_def acquireLock_def tryAcquireJobLock_def take_lock_def taken_def
      no_cron_faults_def isJobRunning_def findLastJob_def)

theorem cron_mutual_exclusion_witness:
  "isJobRunning ''sync'' (sys_db second_run) \<and> {r. ''sync'' \<in> set (sys_locks second_run r)} = {1} \<and>
   (\<forall>F l. fst (acquireLock F ''sync'' l (sys_db second_run)) = False)"
proof -
  note run = cron_mutual_exclusion [OF r_into_rtranclp [of cron_step, OF first_to_second] first_run_ok second_run_holds]
  have "{r. ''sync'' \<in> set (sys_locks second_run r)} = {1}"
    using run [THEN conjunct2, THEN conjunct1] second_run_holds by blast
  with run show ?thesis by (intro conjI) (elim conjE, assumption)+
qed

section \<open>Where two replicas do run one job\<close>

text \<open>
  The check and the insert of an acquisition are two statements, and the unique constraint covers a
  whole second: of two replicas that both pass the check, one second apart is enough for both.
\<close>

lemma both_acquire:
  defines "d \<equiv> \<lparr>cron_jobs = [], cron_next_id = 0, cron_now = 0\<rparr>"
  shows "\<not> isJobRunning ''sync'' d \<and> fst (take_lock no_cron_faults ''sync'' d) = Inr True \<and>
         fst (take_lock no_cron_faults ''sync'' ((snd (take_lock no_cron_faults ''sync'' d))\<lparr>cron_now := 1000\<rparr>)) = Inr True"
  by (simp add: d_def no_cron_faults_def take_lock_def taken_def insert_job_def to_column_def isJobRunning_def findLastJob_def)

text \<open>
  \<open>SafeCron\<close> does not renew. A body of more than five minutes loses its lock, and its release then
  ends the run of the replica that took it over, so that a third one may start.
\<close>

lemma late_release_frees_other:
  defines "d0 \<equiv> \<lparr>cron_jobs = [], cron_next_id = 0, cron_now = 0\<rparr>"
  defines "d1 \<equiv> (snd (snd (acquireLock no_cron_faults ''sync'' [] d0)))\<lparr>cron_now := 301000\<rparr>"
  defines "d2 \<equiv> (snd (snd (acquireLock no_cron_faults ''sync'' [] d1)))\<lparr>cron_now := 302000\<rparr>"
  defines "d3 \<equiv> snd (releaseLock no_cron_faults ''sync'' [''sync''] d2)"
  shows "fst (acquireLock no_cron_faults ''sync'' [] d1) \<and> isJobRunning ''sync'' d2 \<and> fst (acquireLock no_cron_faults ''sync'' [] d3)"
  unfolding d3_def d2_def d1_def d0_def by code_simp

end
