(* ===== verification/Oidc_Roles.thy ===== *)
theory Oidc_Roles
  imports Permissions Effects
begin

text \<open>
  The synchronisation of the API roles with the identity provider
  (\<open>libs/common/src/oidc-roles\<close>): roles, composite roles and groups are created, and what a composite
  role or group holds is brought to its definition. Keycloak is not code of the repository: it is a
  parameter, a record of the requests the service sends over a state of any type.
\<close>

section \<open>The defined roles and groups\<close>

text \<open>\<open>Object.values(ApiRole)\<close>, in the order of the enum.\<close>

definition all_api_roles :: "ApiRole list" where
  "all_api_roles =
     [CREATE_PROJECT, VIEW_PROJECT, UPDATE_PROJECT, DELETE_PROJECT, LIST_PROJECTS,
      CREATE_RELEASE, VIEW_RELEASE, UPDATE_RELEASE, EDIT_RELEASED_RELEASE, DELETE_RELEASE,
      PUSH_RELEASE, PUBLISH_RELEASE, LIST_RELEASES, UPLOAD_ARTIFACT, DOWNLOAD_ARTIFACT,
      DELETE_ARTIFACT, VIEW_ARTIFACT, LIST_ARTIFACTS, DEPLOY_DEV, DEPLOY_STAGING,
      DEPLOY_PRODUCTION, VIEW_DISCOVERY, MANAGE_DISCOVERY, LINK_PROJECT_DEVICE_TYPE,
      VIEW_OFFERING, CREATE_OFFERING, UPDATE_OFFERING, DELETE_OFFERING, VIEW_USER,
      MANAGE_USERS, VIEW_ANALYTICS, VIEW_LOGS, VIEW_METRICS, MANAGE_CONFIG, VIEW_CONFIG,
      CREATE_POLICY, VIEW_POLICY, UPDATE_POLICY, DELETE_POLICY, LIST_POLICIES,
      CREATE_RESTRICTION, VIEW_RESTRICTION, UPDATE_RESTRICTION, DELETE_RESTRICTION,
      LIST_RESTRICTIONS, CREATE_SBOM_SCAN, VIEW_SBOM_SCAN, DELETE_SBOM_SCAN, RETRY_SBOM_SCAN,
      VIEW_CONFIG_REVISION, MANAGE_CONFIG_REVISION, MANAGE_CONFIG_GROUP, VIEW_CONFIG_MAP,
      MANAGE_CONFIG_MAP, PERMISSIONS_ENABLED]"

primrec ROLE_DESCRIPTIONS :: "ApiRole \<Rightarrow> string option" where
  "ROLE_DESCRIPTIONS PERMISSIONS_ENABLED = Some ''Special stamp role that enables permission validation when present''"
| "ROLE_DESCRIPTIONS CREATE_PROJECT = Some ''Permission to create new projects''"
| "ROLE_DESCRIPTIONS VIEW_PROJECT = Some ''Permission to view project details''"
| "ROLE_DESCRIPTIONS UPDATE_PROJECT = Some ''Permission to update existing projects''"
| "ROLE_DESCRIPTIONS DELETE_PROJECT = Some ''Permission to delete projects''"
| "ROLE_DESCRIPTIONS LIST_PROJECTS = Some ''Permission to list/browse all projects''"
| "ROLE_DESCRIPTIONS CREATE_RELEASE = Some ''Permission to create new releases''"
| "ROLE_DESCRIPTIONS VIEW_RELEASE = Some ''Permission to view release details''"
| "ROLE_DESCRIPTIONS UPDATE_RELEASE = Some ''Permission to update existing releases''"
| "ROLE_DESCRIPTIONS EDIT_RELEASED_RELEASE = Some ''Permission to edit released releases that are in released status''"
| "ROLE_DESCRIPTIONS DELETE_RELEASE = Some ''Permission to delete releases''"
| "ROLE_DESCRIPTIONS PUSH_RELEASE = Some ''Permission to push/deploy releases''"
| "ROLE_DESCRIPTIONS PUBLISH_RELEASE = Some ''Permission to publish releases''"
| "ROLE_DESCRIPTIONS LIST_RELEASES = Some ''Permission to list/browse all releases''"
| "ROLE_DESCRIPTIONS UPLOAD_ARTIFACT = Some ''Permission to upload artifacts''"
| "ROLE_DESCRIPTIONS DOWNLOAD_ARTIFACT = Some ''Permission to download artifacts''"
| "ROLE_DESCRIPTIONS DELETE_ARTIFACT = Some ''Permission to delete artifacts''"
| "ROLE_DESCRIPTIONS VIEW_ARTIFACT = Some ''Permission to view artifact details''"
| "ROLE_DESCRIPTIONS LIST_ARTIFACTS = Some ''Permission to list/browse artifacts''"
| "ROLE_DESCRIPTIONS DEPLOY_DEV = Some ''Permission to deploy to development environments''"
| "ROLE_DESCRIPTIONS DEPLOY_STAGING = Some ''Permission to deploy to staging environments''"
| "ROLE_DESCRIPTIONS DEPLOY_PRODUCTION = Some ''Permission to deploy to production environments''"
| "ROLE_DESCRIPTIONS VIEW_DISCOVERY = Some ''Permission to view discovery services and devices''"
| "ROLE_DESCRIPTIONS MANAGE_DISCOVERY = Some ''Permission to manage discovery services (edit, delete devices)''"
| "ROLE_DESCRIPTIONS LINK_PROJECT_DEVICE_TYPE = Some ''Permission to link projects to device types''"
| "ROLE_DESCRIPTIONS VIEW_OFFERING = Some ''Permission to view offerings''"
| "ROLE_DESCRIPTIONS CREATE_OFFERING = Some ''Permission to create offerings''"
| "ROLE_DESCRIPTIONS UPDATE_OFFERING = Some ''Permission to update offerings''"
| "ROLE_DESCRIPTIONS DELETE_OFFERING = Some ''Permission to delete offerings''"
| "ROLE_DESCRIPTIONS VIEW_USER = Some ''Permission to view user information''"
| "ROLE_DESCRIPTIONS MANAGE_USERS = Some ''Permission to manage users''"
| "ROLE_DESCRIPTIONS VIEW_ANALYTICS = Some ''Permission to view analytics and reports''"
| "ROLE_DESCRIPTIONS VIEW_LOGS = Some ''Permission to view system logs''"
| "ROLE_DESCRIPTIONS VIEW_METRICS = Some ''Permission to view system metrics''"
| "ROLE_DESCRIPTIONS CREATE_POLICY = Some ''Permission to create policies (release-associated rules)''"
| "ROLE_DESCRIPTIONS VIEW_POLICY = Some ''Permission to view policy details''"
| "ROLE_DESCRIPTIONS UPDATE_POLICY = Some ''Permission to update existing policies''"
| "ROLE_DESCRIPTIONS DELETE_POLICY = Some ''Permission to delete policies''"
| "ROLE_DESCRIPTIONS LIST_POLICIES = Some ''Permission to list/browse all policies''"
| "ROLE_DESCRIPTIONS CREATE_RESTRICTION = Some ''Permission to create restrictions (device-associated rules)''"
| "ROLE_DESCRIPTIONS VIEW_RESTRICTION = Some ''Permission to view restriction details''"
| "ROLE_DESCRIPTIONS UPDATE_RESTRICTION = Some ''Permission to update existing restrictions''"
| "ROLE_DESCRIPTIONS DELETE_RESTRICTION = Some ''Permission to delete restrictions''"
| "ROLE_DESCRIPTIONS LIST_RESTRICTIONS = Some ''Permission to list/browse all restrictions''"
| "ROLE_DESCRIPTIONS MANAGE_CONFIG = Some ''Permission to manage system configuration''"
| "ROLE_DESCRIPTIONS VIEW_CONFIG = Some ''Permission to view system configuration''"
| "ROLE_DESCRIPTIONS VIEW_CONFIG_REVISION = Some ''Permission to view config revisions and device config snapshots''"
| "ROLE_DESCRIPTIONS MANAGE_CONFIG_REVISION = Some ''Permission to manage config revisions (create draft, apply, delete draft)''"
| "ROLE_DESCRIPTIONS MANAGE_CONFIG_GROUP = Some ''Permission to manage config groups and entries within a draft revision''"
| "ROLE_DESCRIPTIONS VIEW_CONFIG_MAP = Some ''Permission to view ConfigMap projects and their device-type associations''"
| "ROLE_DESCRIPTIONS MANAGE_CONFIG_MAP = Some ''Permission to manage ConfigMap associations (add or remove device-type / device-id links)''"
| "ROLE_DESCRIPTIONS CREATE_SBOM_SCAN = Some ''Permission to request a new SBOM scan for a docker image, binary file, or directory''"
| "ROLE_DESCRIPTIONS VIEW_SBOM_SCAN = Some ''Permission to view SBOM scan status, results, and download reports''"
| "ROLE_DESCRIPTIONS DELETE_SBOM_SCAN = Some ''Permission to delete an SBOM scan (cancels it if still queued)''"
| "ROLE_DESCRIPTIONS RETRY_SBOM_SCAN = Some ''Permission to retry a failed or completed SBOM scan''"

record RoleDefinition =
  rd_name :: string
  rd_description :: string
  rd_compositeRoles :: "string list option"

record GroupDefinition =
  gd_name :: string
  gd_compositeRoles :: "string list"
  gd_attributes :: "(string \<times> string list) list option"

definition contributor_roles :: "ApiRole list" where
  "contributor_roles =
     [CREATE_PROJECT, VIEW_PROJECT, UPDATE_PROJECT, DELETE_PROJECT, LIST_PROJECTS,
      VIEW_RELEASE, CREATE_RELEASE, UPDATE_RELEASE, DELETE_RELEASE, PUBLISH_RELEASE,
      LIST_RELEASES, UPLOAD_ARTIFACT, DOWNLOAD_ARTIFACT, VIEW_ARTIFACT, DELETE_ARTIFACT,
      LIST_ARTIFACTS, VIEW_DISCOVERY, VIEW_USER, VIEW_ANALYTICS, VIEW_LOGS, VIEW_METRICS,
      VIEW_CONFIG, VIEW_CONFIG_REVISION, VIEW_CONFIG_MAP, CREATE_POLICY, VIEW_POLICY,
      UPDATE_POLICY, DELETE_POLICY, LIST_POLICIES, VIEW_OFFERING, CREATE_SBOM_SCAN,
      VIEW_SBOM_SCAN, RETRY_SBOM_SCAN, PERMISSIONS_ENABLED]"

definition administrator_roles :: "ApiRole list" where
  "administrator_roles =
     [DEPLOY_DEV, DEPLOY_STAGING, DEPLOY_PRODUCTION, VIEW_DISCOVERY, MANAGE_DISCOVERY,
      LINK_PROJECT_DEVICE_TYPE, CREATE_OFFERING, UPDATE_OFFERING, DELETE_OFFERING,
      VIEW_OFFERING, PUSH_RELEASE, VIEW_USER, MANAGE_USERS, VIEW_ANALYTICS, VIEW_LOGS,
      VIEW_METRICS, MANAGE_CONFIG, VIEW_CONFIG, VIEW_CONFIG_REVISION, MANAGE_CONFIG_REVISION,
      MANAGE_CONFIG_GROUP, VIEW_CONFIG_MAP, MANAGE_CONFIG_MAP, CREATE_POLICY, VIEW_POLICY,
      UPDATE_POLICY, DELETE_POLICY, LIST_POLICIES, CREATE_RESTRICTION, VIEW_RESTRICTION,
      UPDATE_RESTRICTION, DELETE_RESTRICTION, LIST_RESTRICTIONS, VIEW_PROJECT, LIST_PROJECTS,
      VIEW_RELEASE, LIST_RELEASES, VIEW_ARTIFACT, LIST_ARTIFACTS, CREATE_SBOM_SCAN,
      VIEW_SBOM_SCAN, DELETE_SBOM_SCAN, RETRY_SBOM_SCAN, PERMISSIONS_ENABLED]"

definition COMPOSITE_ROLES :: "RoleDefinition list" where
  "COMPOSITE_ROLES =
     [\<lparr>rd_name = ''contributor'',
       rd_description = ''Composite role for contributors - can view and create releases, projects, and upload artifacts'',
       rd_compositeRoles = Some (map api_role_value contributor_roles)\<rparr>,
      \<lparr>rd_name = ''system-administrator'',
       rd_description = ''Composite role for system administrators - can deploy to devices, link projects to device types, manage devices, view analytics and logs'',
       rd_compositeRoles = Some (map api_role_value administrator_roles)\<rparr>]"

definition GROUP_DEFINITIONS :: "GroupDefinition list" where
  "GROUP_DEFINITIONS =
     [\<lparr>gd_name = ''Contributors'', gd_compositeRoles = [''contributor''],
       gd_attributes = Some [(''group-type'', [''contributor'']), (''auto-managed'', [''true''])]\<rparr>,
      \<lparr>gd_name = ''System Administrators'', gd_compositeRoles = [''system-administrator''],
       gd_attributes = Some [(''group-type'', [''administrator'']), (''auto-managed'', [''true''])]\<rparr>]"

section \<open>The server\<close>

record OidcRole =
  role_id :: "string option"
  role_name :: string
  role_description :: "string option"
  role_composite :: "bool option"
  role_clientRole :: "bool option"

datatype OidcGroup =
  OidcGroup (group_id: "string option") (group_name: string) (group_attributes: "(string \<times> string list) list option")
    (subGroups: "OidcGroup list")

text \<open>A response with a status that is not a success, or no response.\<close>

datatype oidc_fault = HttpResponse nat | NoResponse

type_synonym ('k, 'a) request = "'k \<Rightarrow> (oidc_fault + 'a) \<times> 'k"

text \<open>
  The requests, for the configured realm and client id: the ids of the clients with that client id,
  the roles of a client, the groups, the roles of a client given to a group, and the composites of a
  role. The answer to the creation of a group is its \<open>Location\<close> header, if it has one.
\<close>

record 'k keycloak =
  post_token :: "('k, string) request"
  get_clients :: "('k, string list) request"
  get_roles :: "string \<Rightarrow> ('k, OidcRole list) request"
  get_role :: "string \<Rightarrow> string \<Rightarrow> ('k, OidcRole) request"
  post_role :: "string \<Rightarrow> OidcRole \<Rightarrow> ('k, unit) request"
  delete_role :: "string \<Rightarrow> string \<Rightarrow> ('k, unit) request"
  get_groups :: "('k, OidcGroup list) request"
  get_group :: "string \<Rightarrow> ('k, OidcGroup) request"
  post_group :: "string \<Rightarrow> (string \<times> string list) list \<Rightarrow> ('k, string option) request"
  delete_group :: "string \<Rightarrow> ('k, unit) request"
  put_group :: "string \<Rightarrow> OidcGroup \<Rightarrow> ('k, unit) request"
  get_group_roles :: "string \<Rightarrow> string \<Rightarrow> ('k, OidcRole list) request"
  post_group_roles :: "string \<Rightarrow> string \<Rightarrow> OidcRole list \<Rightarrow> ('k, unit) request"
  delete_group_roles :: "string \<Rightarrow> string \<Rightarrow> OidcRole list \<Rightarrow> ('k, unit) request"
  get_composites :: "string \<Rightarrow> string \<Rightarrow> ('k, OidcRole list) request"
  post_composites :: "string \<Rightarrow> string \<Rightarrow> OidcRole list \<Rightarrow> ('k, unit) request"
  delete_composites :: "string \<Rightarrow> string \<Rightarrow> OidcRole list \<Rightarrow> ('k, unit) request"

text \<open>The service caches its token and the id of the client.\<close>

record 'k oidc =
  accessToken :: "string option"
  clientUuid :: "string option"
  server :: 'k

section \<open>Requests and caches\<close>

definition ask :: "('k, 'a) request \<Rightarrow> ('k oidc, oidc_fault + 'a) action" where
  "ask q s = (case q (server s) of (r, k) \<Rightarrow> (Inr r, s\<lparr>server := k\<rparr>))"

text \<open>A request whose failure is thrown, after it is logged.\<close>

definition demand :: "('k, 'a) request \<Rightarrow> ('k oidc, 'a) action" where
  "demand q = bind_op (ask q) (\<lambda>r. case r of Inl _ \<Rightarrow> throw_op ErrorException | Inr x \<Rightarrow> return_op x)"

text \<open>What is cached counts when it is truthy.\<close>

definition cached :: "string option \<Rightarrow> bool" where
  "cached x \<longleftrightarrow> x \<noteq> None \<and> x \<noteq> Some []"

definition getAdminToken :: "'k keycloak \<Rightarrow> ('k oidc, string) action" where
  "getAdminToken K =
     bind_op (gets_op accessToken) (\<lambda>t.
       if cached t then return_op (the t)
       else
         bind_op (demand (post_token K)) (\<lambda>a.
         bind_op (modify_op (\<lambda>s. s\<lparr>accessToken := Some a\<rparr>)) (\<lambda>_. return_op a)))"

definition getClientUuid :: "'k keycloak \<Rightarrow> ('k oidc, string) action" where
  "getClientUuid K =
     bind_op (gets_op clientUuid) (\<lambda>c.
       if cached c then return_op (the c)
       else
         bind_op (getAdminToken K) (\<lambda>_.
         bind_op (demand (get_clients K)) (\<lambda>us.
           case us of
             [] \<Rightarrow> throw_op ErrorException
           | u # _ \<Rightarrow> bind_op (modify_op (\<lambda>s. s\<lparr>clientUuid := Some u\<rparr>)) (\<lambda>_. return_op u))))"

section \<open>Roles\<close>

definition getRoles :: "'k keycloak \<Rightarrow> ('k oidc, OidcRole list) action" where
  "getRoles K = bind_op (getClientUuid K) (\<lambda>u. demand (get_roles K u))"

definition getRole :: "'k keycloak \<Rightarrow> string \<Rightarrow> ('k oidc, OidcRole) action" where
  "getRole K n = bind_op (getClientUuid K) (\<lambda>u. demand (get_role K u n))"

definition role_payload :: "string \<Rightarrow> string \<Rightarrow> OidcRole" where
  "role_payload n desc = \<lparr>role_id = None, role_name = n, role_description = Some desc,
     role_composite = Some False, role_clientRole = Some True\<rparr>"

text \<open>Whether the role was created; a conflict means that it exists.\<close>

definition createRole :: "'k keycloak \<Rightarrow> string \<Rightarrow> string \<Rightarrow> ('k oidc, bool) action" where
  "createRole K n desc =
     bind_op (getClientUuid K) (\<lambda>u.
     bind_op (ask (post_role K u (role_payload n desc))) (\<lambda>r.
       case r of
         Inr _ \<Rightarrow> return_op True
       | Inl f \<Rightarrow> if f = HttpResponse 409 then return_op False else throw_op ErrorException))"

text \<open>A role or group that is gone already is not an error.\<close>

definition demand_gone :: "('k, unit) request \<Rightarrow> ('k oidc, unit) action" where
  "demand_gone q =
     bind_op (ask q) (\<lambda>r.
       case r of
         Inr _ \<Rightarrow> return_op ()
       | Inl f \<Rightarrow> if f = HttpResponse 404 then return_op () else throw_op ErrorException)"

definition deleteRole :: "'k keycloak \<Rightarrow> string \<Rightarrow> ('k oidc, unit) action" where
  "deleteRole K n = bind_op (getClientUuid K) (\<lambda>u. demand_gone (delete_role K u n))"

section \<open>Groups\<close>

definition getGroups :: "'k keycloak \<Rightarrow> ('k oidc, OidcGroup list) action" where
  "getGroups K = bind_op (getAdminToken K) (\<lambda>_. demand (get_groups K))"

fun findGroup :: "OidcGroup list \<Rightarrow> string \<Rightarrow> OidcGroup option" where
  "findGroup [] n = None"
| "findGroup (OidcGroup i m a subs # gs) n =
     (if m = n then Some (OidcGroup i m a subs)
      else (case findGroup subs n of Some g \<Rightarrow> Some g | None \<Rightarrow> findGroup gs n))"

definition getGroupByName :: "'k keycloak \<Rightarrow> string \<Rightarrow> ('k oidc, OidcGroup option) action" where
  "getGroupByName K n = bind_op (getGroups K) (\<lambda>gs. return_op (findGroup gs n))"

definition getGroupById :: "'k keycloak \<Rightarrow> string \<Rightarrow> ('k oidc, OidcGroup) action" where
  "getGroupById K i = bind_op (getAdminToken K) (\<lambda>_. demand (get_group K i))"

text \<open>\<open>locationHeader.split('/').pop()\<close>\<close>

definition location_id :: "string \<Rightarrow> string" where
  "location_id l = rev (takeWhile (\<lambda>c. c \<noteq> CHR ''/'') (rev l))"

text \<open>\<open>group?.id\<close>, if it is truthy.\<close>

definition found_id :: "OidcGroup option \<Rightarrow> string option" where
  "found_id g = (case g of
       None \<Rightarrow> None
     | Some x \<Rightarrow> (case group_id x of Some i \<Rightarrow> if i = [] then None else Some i | None \<Rightarrow> None))"

definition group_id_or_throw :: "'k keycloak \<Rightarrow> string \<Rightarrow> ('k oidc, string) action" where
  "group_id_or_throw K n =
     bind_op (getGroupByName K n) (\<lambda>g. case found_id g of Some i \<Rightarrow> return_op i | None \<Rightarrow> throw_op ErrorException)"

definition createGroup ::
  "'k keycloak \<Rightarrow> string \<Rightarrow> (string \<times> string list) list option \<Rightarrow> ('k oidc, string) action" where
  "createGroup K n attributes =
     bind_op (getAdminToken K) (\<lambda>_.
     bind_op (ask (post_group K n (case attributes of None \<Rightarrow> [] | Some a \<Rightarrow> a))) (\<lambda>r.
       case r of
         Inr l \<Rightarrow> (if l = None \<or> l = Some [] then group_id_or_throw K n else return_op (location_id (the l)))
       | Inl f \<Rightarrow> if f = HttpResponse 409 then group_id_or_throw K n else throw_op ErrorException))"

definition deleteGroup :: "'k keycloak \<Rightarrow> string \<Rightarrow> ('k oidc, unit) action" where
  "deleteGroup K i = bind_op (getAdminToken K) (\<lambda>_. demand_gone (delete_group K i))"

definition updateGroupAttributes ::
  "'k keycloak \<Rightarrow> string \<Rightarrow> (string \<times> string list) list \<Rightarrow> ('k oidc, unit) action" where
  "updateGroupAttributes K i attributes =
     bind_op (getAdminToken K) (\<lambda>_.
     bind_op (getGroupById K i) (\<lambda>g.
       demand (put_group K i (OidcGroup (group_id g) (group_name g) (Some attributes) (subGroups g)))))"

text \<open>A list that cannot be read counts as empty.\<close>

definition or_empty :: "('k, 'a list) request \<Rightarrow> ('k oidc, 'a list) action" where
  "or_empty q = bind_op (ask q) (\<lambda>r. return_op (case r of Inl _ \<Rightarrow> [] | Inr xs \<Rightarrow> xs))"

definition getGroupClientRoles :: "'k keycloak \<Rightarrow> string \<Rightarrow> ('k oidc, OidcRole list) action" where
  "getGroupClientRoles K i = bind_op (getClientUuid K) (\<lambda>u. or_empty (get_group_roles K i u))"

definition assignRolesToGroup :: "'k keycloak \<Rightarrow> string \<Rightarrow> OidcRole list \<Rightarrow> ('k oidc, unit) action" where
  "assignRolesToGroup K i rs =
     bind_op (getClientUuid K) (\<lambda>u. if rs = [] then return_op () else demand (post_group_roles K i u rs))"

definition removeRolesFromGroup :: "'k keycloak \<Rightarrow> string \<Rightarrow> OidcRole list \<Rightarrow> ('k oidc, unit) action" where
  "removeRolesFromGroup K i rs =
     bind_op (getClientUuid K) (\<lambda>u. if rs = [] then return_op () else demand (delete_group_roles K i u rs))"

section \<open>Synchronisation\<close>

definition getCompositeRoles :: "'k keycloak \<Rightarrow> string \<Rightarrow> ('k oidc, OidcRole list) action" where
  "getCompositeRoles K n = bind_op (getClientUuid K) (\<lambda>u. or_empty (get_composites K u n))"

text \<open>A request whose failure is logged and nothing else.\<close>

definition offer :: "('k, unit) request \<Rightarrow> ('k oidc, unit) action" where
  "offer q = bind_op (ask q) (\<lambda>_. return_op ())"

definition removeCompositeRoles :: "'k keycloak \<Rightarrow> string \<Rightarrow> OidcRole list \<Rightarrow> ('k oidc, unit) action" where
  "removeCompositeRoles K n rs =
     bind_op (getClientUuid K) (\<lambda>u. if rs = [] then return_op () else offer (delete_composites K u n rs))"

text \<open>The roles of the names that are not there yet; a role that cannot be read is skipped.\<close>

fun rolesToAdd :: "'k keycloak \<Rightarrow> string list \<Rightarrow> string list \<Rightarrow> ('k oidc, OidcRole list) action" where
  "rolesToAdd K current [] = return_op []"
| "rolesToAdd K current (n # ns) =
     (if n \<in> set current then rolesToAdd K current ns
      else
        bind_op (attempt_op (getRole K n)) (\<lambda>r.
        bind_op (rolesToAdd K current ns) (\<lambda>rs.
          return_op (case r of Inl _ \<Rightarrow> rs | Inr x \<Rightarrow> x # rs))))"

definition rolesToRemove :: "OidcRole list \<Rightarrow> string list \<Rightarrow> OidcRole list" where
  "rolesToRemove current desired = filter (\<lambda>r. role_name r \<notin> set desired) current"

definition syncComposites :: "'k keycloak \<Rightarrow> string \<Rightarrow> string \<Rightarrow> string list \<Rightarrow> ('k oidc, unit) action" where
  "syncComposites K u n desired =
     bind_op (getRole K n) (\<lambda>role.
     bind_op (getCompositeRoles K n) (\<lambda>current.
     bind_op (rolesToAdd K (map role_name current) desired) (\<lambda>add.
     bind_op (removeCompositeRoles K n (rolesToRemove current desired)) (\<lambda>_.
       if add = [] then return_op () else offer (post_composites K u (role_name role) add)))))"

definition desired_roles :: "RoleDefinition \<Rightarrow> string list" where
  "desired_roles def = (case rd_compositeRoles def of None \<Rightarrow> [] | Some ns \<Rightarrow> js_unique ns)"

definition createCompositeRole :: "'k keycloak \<Rightarrow> RoleDefinition \<Rightarrow> ('k oidc, unit) action" where
  "createCompositeRole K def =
     bind_op (getClientUuid K) (\<lambda>u.
     bind_op (createRole K (rd_name def) (rd_description def)) (\<lambda>_.
       syncComposites K u (rd_name def) (desired_roles def)))"

text \<open>\<open>group.id!\<close> in an URL.\<close>

definition group_key :: "OidcGroup \<Rightarrow> string" where
  "group_key g = (case group_id g of None \<Rightarrow> ''undefined'' | Some i \<Rightarrow> i)"

definition groupToSync :: "'k keycloak \<Rightarrow> GroupDefinition \<Rightarrow> ('k oidc, string) action" where
  "groupToSync K def =
     bind_op (getGroupByName K (gd_name def)) (\<lambda>g.
       case g of
         None \<Rightarrow>
           bind_op (createGroup K (gd_name def) (gd_attributes def)) (\<lambda>i.
           bind_op (getGroupById K i) (\<lambda>_. return_op i))
       | Some x \<Rightarrow>
           (case gd_attributes def of
              None \<Rightarrow> return_op (group_key x)
            | Some a \<Rightarrow>
                bind_op (updateGroupAttributes K (group_key x) a) (\<lambda>_. return_op (group_key x))))"

definition syncGroup :: "'k keycloak \<Rightarrow> GroupDefinition \<Rightarrow> ('k oidc, unit) action" where
  "syncGroup K def =
     (let desired = js_unique (gd_compositeRoles def) in
      bind_op (groupToSync K def) (\<lambda>i.
      bind_op (getGroupClientRoles K i) (\<lambda>current.
      bind_op (rolesToAdd K (map role_name current) desired) (\<lambda>add.
      bind_op (removeRolesFromGroup K i (rolesToRemove current desired)) (\<lambda>_.
        assignRolesToGroup K i add)))))"

record role_counts =
  basic_created :: nat
  basic_skipped :: nat
  composite_created :: nat
  composite_failed :: nat
  groups_synced :: nat
  groups_failed :: nat

text \<open>A loop that counts what succeeded and logs what failed.\<close>

fun count_op :: "('b \<Rightarrow> ('s, 'a) action) \<Rightarrow> 'b list \<Rightarrow> ('s, 'a result list) action" where
  "count_op f [] = return_op []"
| "count_op f (x # xs) = bind_op (attempt_op (f x)) (\<lambda>r. bind_op (count_op f xs) (\<lambda>rs. return_op (r # rs)))"

definition role_text :: "ApiRole \<Rightarrow> string" where
  "role_text r = (case ROLE_DESCRIPTIONS r of
       None \<Rightarrow> ''Role: '' @ api_role_value r
     | Some t \<Rightarrow> if t = [] then ''Role: '' @ api_role_value r else t)"

definition how_many :: "'a list \<Rightarrow> ('a \<Rightarrow> bool) \<Rightarrow> nat" where
  "how_many xs P = length (filter P xs)"

definition setupAllRoles :: "'k keycloak \<Rightarrow> ('k oidc, role_counts) action" where
  "setupAllRoles K =
     bind_op (getAdminToken K) (\<lambda>_.
     bind_op (getClientUuid K) (\<lambda>_.
     bind_op (getRoles K) (\<lambda>_.
     bind_op (count_op (\<lambda>r. createRole K (api_role_value r) (role_text r)) all_api_roles) (\<lambda>basic.
     bind_op (count_op (createCompositeRole K) COMPOSITE_ROLES) (\<lambda>composite.
     bind_op (count_op (syncGroup K) GROUP_DEFINITIONS) (\<lambda>groups.
     bind_op (getRoles K) (\<lambda>_.
     bind_op (getGroups K) (\<lambda>_.
       return_op \<lparr>basic_created = how_many basic (\<lambda>r. r = Inr True),
         basic_skipped = how_many basic (\<lambda>r. r = Inr False),
         composite_created = how_many composite is_ok,
         composite_failed = how_many composite (\<lambda>r. \<not> is_ok r),
         groups_synced = how_many groups is_ok,
         groups_failed = how_many groups (\<lambda>r. \<not> is_ok r)\<rparr>))))))))"

text \<open>
  The start of the module. The setting is read from the environment and is a string when it is set,
  which is true unless it is empty. A failure is logged.
\<close>

definition onModuleInit :: "string option \<Rightarrow> 'k keycloak \<Rightarrow> ('k oidc, unit) action" where
  "onModuleInit autoSync K =
     (if autoSync = Some [] then return_op ()
      else bind_op (attempt_op (setupAllRoles K)) (\<lambda>_. return_op ()))"

section \<open>What the server is relied on for\<close>

text \<open>
  What a realm holds of the client: its roles with their ids, the children of each role, the groups
  without their attributes, the attributes and the roles of the client given to each group.
\<close>

record realm =
  realm_roles :: "string \<rightharpoonup> string"
  realm_children :: "string \<Rightarrow> string set"
  realm_groups :: "OidcGroup list"
  realm_attributes :: "string \<Rightarrow> (string \<times> string list) list"
  realm_group_roles :: "string \<Rightarrow> string set"

fun group_shape :: "OidcGroup \<Rightarrow> OidcGroup" where
  "group_shape (OidcGroup i n a subs) = OidcGroup i n None (map group_shape subs)"

fun all_groups :: "OidcGroup list \<Rightarrow> OidcGroup list" where
  "all_groups [] = []"
| "all_groups (OidcGroup i n a subs # gs) = OidcGroup i n a subs # all_groups subs @ all_groups gs"

definition known :: "realm \<Rightarrow> OidcRole \<Rightarrow> bool" where
  "known R r \<longleftrightarrow> role_id r \<noteq> None \<and> realm_roles R (role_name r) = role_id r"

definition new_role :: "string \<Rightarrow> string \<Rightarrow> realm \<Rightarrow> realm" where
  "new_role n i R = R\<lparr>realm_roles := (realm_roles R)(n \<mapsto> i), realm_children := (realm_children R)(n := {})\<rparr>"

definition set_children :: "string \<Rightarrow> string set \<Rightarrow> realm \<Rightarrow> realm" where
  "set_children n ns R = R\<lparr>realm_children := (realm_children R)(n := ns)\<rparr>"

definition new_group :: "string \<Rightarrow> string \<Rightarrow> (string \<times> string list) list \<Rightarrow> realm \<Rightarrow> realm" where
  "new_group i n a R =
     R\<lparr>realm_groups := realm_groups R @ [OidcGroup (Some i) n None []],
       realm_attributes := (realm_attributes R)(i := a), realm_group_roles := (realm_group_roles R)(i := {})\<rparr>"

definition set_attributes :: "string \<Rightarrow> (string \<times> string list) list \<Rightarrow> realm \<Rightarrow> realm" where
  "set_attributes i a R = R\<lparr>realm_attributes := (realm_attributes R)(i := a)\<rparr>"

definition set_group_roles :: "string \<Rightarrow> string set \<Rightarrow> realm \<Rightarrow> realm" where
  "set_group_roles i ns R = R\<lparr>realm_group_roles := (realm_group_roles R)(i := ns)\<rparr>"

text \<open>A request is answered, with an answer and a new state as stated.\<close>

definition answers :: "('k, 'a) request \<Rightarrow> 'k \<Rightarrow> ('a \<Rightarrow> 'k \<Rightarrow> bool) \<Rightarrow> bool" where
  "answers q k P \<longleftrightarrow> (case q k of (Inl _, k') \<Rightarrow> False | (Inr x, k') \<Rightarrow> P x k')"

definition serves_roles :: "'k keycloak \<Rightarrow> string \<Rightarrow> ('k \<Rightarrow> realm) \<Rightarrow> 'k \<Rightarrow> bool" where
  "serves_roles K u v k \<longleftrightarrow>
     answers (post_token K) k (\<lambda>_ k'. v k' = v k) \<and>
     answers (get_clients K) k (\<lambda>us k'. us \<noteq> [] \<and> hd us = u \<and> v k' = v k) \<and>
     answers (get_roles K u) k (\<lambda>rs k'. role_name ` set rs = dom (realm_roles (v k)) \<and> v k' = v k) \<and>
     (\<forall>n\<in>dom (realm_roles (v k)).
        answers (get_role K u n) k (\<lambda>r k'. role_name r = n \<and> known (v k) r \<and> v k' = v k)) \<and>
     (\<forall>r. role_name r \<notin> dom (realm_roles (v k)) \<longrightarrow>
        answers (post_role K u r) k (\<lambda>_ k'. \<exists>i. v k' = new_role (role_name r) i (v k))) \<and>
     (\<forall>r. role_name r \<in> dom (realm_roles (v k)) \<longrightarrow>
        (\<exists>k'. post_role K u r k = (Inl (HttpResponse 409), k') \<and> v k' = v k))"

definition serves_composites :: "'k keycloak \<Rightarrow> string \<Rightarrow> ('k \<Rightarrow> realm) \<Rightarrow> 'k \<Rightarrow> bool" where
  "serves_composites K u v k \<longleftrightarrow>
     (\<forall>n\<in>dom (realm_roles (v k)).
        answers (get_composites K u n) k
          (\<lambda>rs k'. (\<forall>r\<in>set rs. known (v k) r) \<and> role_name ` set rs = realm_children (v k) n \<and> v k' = v k) \<and>
        (\<forall>rs. (\<forall>r\<in>set rs. known (v k) r) \<longrightarrow>
           answers (post_composites K u n rs) k
             (\<lambda>_ k'. v k' = set_children n (realm_children (v k) n \<union> role_name ` set rs) (v k)) \<and>
           answers (delete_composites K u n rs) k
             (\<lambda>_ k'. v k' = set_children n (realm_children (v k) n - role_name ` set rs) (v k))))"

definition serves_groups :: "'k keycloak \<Rightarrow> ('k \<Rightarrow> realm) \<Rightarrow> 'k \<Rightarrow> bool" where
  "serves_groups K v k \<longleftrightarrow>
     distinct (map group_id (all_groups (realm_groups (v k)))) \<and>
     None \<notin> set (map group_id (all_groups (realm_groups (v k)))) \<and>
     answers (get_groups K) k (\<lambda>gs k'. map group_shape gs = realm_groups (v k) \<and> v k' = v k) \<and>
     (\<forall>g\<in>set (all_groups (realm_groups (v k))). \<forall>i. group_id g = Some i \<longrightarrow>
        answers (get_group K i) k (\<lambda>g' k'. group_id g' = Some i \<and> group_name g' = group_name g \<and> v k' = v k) \<and>
        (\<forall>g' a. group_id g' = Some i \<longrightarrow> group_name g' = group_name g \<longrightarrow> group_attributes g' = Some a \<longrightarrow>
           answers (put_group K i g') k (\<lambda>_ k'. v k' = set_attributes i a (v k)))) \<and>
     (\<forall>n a. n \<notin> group_name ` set (realm_groups (v k)) \<longrightarrow>
        answers (post_group K n a) k
          (\<lambda>l k'. l \<noteq> None \<and> l \<noteq> Some [] \<and> v k' = new_group (location_id (the l)) n a (v k)))"

definition serves_group_roles :: "'k keycloak \<Rightarrow> string \<Rightarrow> ('k \<Rightarrow> realm) \<Rightarrow> 'k \<Rightarrow> bool" where
  "serves_group_roles K u v k \<longleftrightarrow>
     (\<forall>g\<in>set (all_groups (realm_groups (v k))). \<forall>i. group_id g = Some i \<longrightarrow>
        answers (get_group_roles K i u) k
          (\<lambda>rs k'. (\<forall>r\<in>set rs. known (v k) r) \<and> role_name ` set rs = realm_group_roles (v k) i \<and> v k' = v k) \<and>
        (\<forall>rs. (\<forall>r\<in>set rs. known (v k) r) \<longrightarrow>
           answers (post_group_roles K i u rs) k
             (\<lambda>_ k'. v k' = set_group_roles i (realm_group_roles (v k) i \<union> role_name ` set rs) (v k)) \<and>
           answers (delete_group_roles K i u rs) k
             (\<lambda>_ k'. v k' = set_group_roles i (realm_group_roles (v k) i - role_name ` set rs) (v k))))"

text \<open>
  The documented answers of the Keycloak admin API to a client that is set up, with no request
  failing and the composites of a role and the roles of a group taken from the one client.
\<close>

definition keycloak_serves :: "'k keycloak \<Rightarrow> string \<Rightarrow> ('k \<Rightarrow> realm) \<Rightarrow> bool" where
  "keycloak_serves K u v \<longleftrightarrow>
     u \<noteq> [] \<and>
     (\<forall>k. serves_roles K u v k \<and> serves_composites K u v k \<and> serves_groups K v k \<and> serves_group_roles K u v k)"

section \<open>Operations that return\<close>

text \<open>
  \<open>yields v u R m P\<close>: from a state whose realm is \<open>R\<close>, the operation returns, and \<open>P\<close> holds of its
  result and the realm after it.
\<close>

definition in_realm :: "('k \<Rightarrow> realm) \<Rightarrow> string \<Rightarrow> realm \<Rightarrow> 'k oidc \<Rightarrow> bool" where
  "in_realm v u R s \<longleftrightarrow> v (server s) = R \<and> (clientUuid s = None \<or> clientUuid s = Some u)"

definition yields ::
  "('k \<Rightarrow> realm) \<Rightarrow> string \<Rightarrow> realm \<Rightarrow> ('k oidc, 'a) action \<Rightarrow> ('a \<Rightarrow> realm \<Rightarrow> bool) \<Rightarrow> bool" where
  "yields v u R m P \<longleftrightarrow> (\<forall>s. in_realm v u R s \<longrightarrow> (\<exists>x R' s'. m s = (Inr x, s') \<and> P x R' \<and> in_realm v u R' s'))"

lemma yieldsD: "yields v u R m P \<Longrightarrow> in_realm v u R s \<Longrightarrow> \<exists>x R' s'. m s = (Inr x, s') \<and> P x R' \<and> in_realm v u R' s'"
  by (simp add: yields_def)

lemma yields_bind:
  assumes "yields v u R m P" "\<And>x R'. P x R' \<Longrightarrow> yields v u R' (f x) Q"
  shows "yields v u R (bind_op m f) Q"
  unfolding yields_def
proof (intro allI impI)
  fix s
  assume "in_realm v u R s"
  then obtain x R' s' where m: "m s = (Inr x, s')" "P x R'" "in_realm v u R' s'"
    using yieldsD [OF assms(1)] by blast
  then show "\<exists>y R'' s''. bind_op m f s = (Inr y, s'') \<and> Q y R'' \<and> in_realm v u R'' s''"
    using yieldsD [OF assms(2) [OF m(2)] m(3)] by (simp add: bind_op_def)
qed

lemma yields_return: "P x R \<Longrightarrow> yields v u R (return_op x) P"
  by (auto simp: yields_def return_op_def)

lemma yields_conseq: "yields v u R m P \<Longrightarrow> (\<And>x R'. P x R' \<Longrightarrow> Q x R') \<Longrightarrow> yields v u R m Q"
  unfolding yields_def by blast

lemma yields_attempt: "yields v u R m (\<lambda>x. P (Inr x)) \<Longrightarrow> yields v u R (attempt_op m) P"
  unfolding yields_def attempt_op_def by fastforce

lemma yields_gets: "(\<And>s. in_realm v u R s \<Longrightarrow> P (f s) R) \<Longrightarrow> yields v u R (gets_op f) P"
  by (auto simp: yields_def gets_op_def)

lemma yields_modify: "(\<And>s. in_realm v u R s \<Longrightarrow> in_realm v u R (f s)) \<Longrightarrow> P () R \<Longrightarrow> yields v u R (modify_op f) P"
  by (auto simp: yields_def modify_op_def)

lemma yields_ask:
  assumes "\<And>k. v k = R \<Longrightarrow> \<exists>r k'. q k = (r, k') \<and> P r (v k')"
  shows "yields v u R (ask q) P"
  unfolding yields_def
proof (intro allI impI)
  fix s
  assume s: "in_realm v u R s"
  then obtain r k' where "q (server s) = (r, k')" "P r (v k')"
    using assms [of "server s"] by (auto simp: in_realm_def)
  then show "\<exists>x R' s'. ask q s = (Inr x, s') \<and> P x R' \<and> in_realm v u R' s'"
    using s by (auto simp: ask_def in_realm_def)
qed

lemma answersD: "answers q k P \<Longrightarrow> \<exists>x k'. q k = (Inr x, k') \<and> P x k'"
  unfolding answers_def by (auto split: prod.splits sum.splits)

lemma yields_answer:
  assumes "\<And>k. v k = R \<Longrightarrow> answers q k (\<lambda>x k'. P x (v k'))"
  shows "yields v u R (ask q) (\<lambda>r R'. \<exists>x. r = Inr x \<and> P x R')"
  by (rule yields_ask) (use answersD [OF assms] in blast)

lemma yields_demand:
  assumes "\<And>k. v k = R \<Longrightarrow> answers q k (\<lambda>x k'. P x (v k'))"
  shows "yields v u R (demand q) P"
  unfolding demand_def
  by (rule yields_bind [OF yields_answer, of v R q P, OF assms]) (auto intro: yields_return)

lemma yields_or_empty:
  assumes "\<And>k. v k = R \<Longrightarrow> answers q k (\<lambda>x k'. P x (v k'))"
  shows "yields v u R (or_empty q) P"
  unfolding or_empty_def
  by (rule yields_bind [OF yields_answer, of v R q P, OF assms]) (auto intro: yields_return)

lemma yields_offer:
  assumes "\<And>k. v k = R \<Longrightarrow> answers q k (\<lambda>x k'. P x (v k'))"
  shows "yields v u R (offer q) P"
  unfolding offer_def
  by (rule yields_bind [OF yields_answer, of v R q P, OF assms]) (auto intro: yields_return)

section \<open>What the operations do to the realm\<close>

lemma servesD:
  assumes "keycloak_serves K u v"
  shows "u \<noteq> []" "serves_roles K u v k" "serves_composites K u v k" "serves_groups K v k" "serves_group_roles K u v k"
  using assms by (simp_all add: keycloak_serves_def)

lemma roles_served:
  assumes "keycloak_serves K u v" "v k = R"
  shows "answers (post_token K) k (\<lambda>_ k'. v k' = R)"
    "answers (get_clients K) k (\<lambda>us k'. us \<noteq> [] \<and> hd us = u \<and> v k' = R)"
    "answers (get_roles K u) k (\<lambda>rs k'. role_name ` set rs = dom (realm_roles R) \<and> v k' = R)"
    "n \<in> dom (realm_roles R) \<Longrightarrow> answers (get_role K u n) k (\<lambda>r k'. role_name r = n \<and> known R r \<and> v k' = R)"
    "role_name r \<notin> dom (realm_roles R) \<Longrightarrow> answers (post_role K u r) k (\<lambda>_ k'. \<exists>i. v k' = new_role (role_name r) i R)"
    "role_name r \<in> dom (realm_roles R) \<Longrightarrow> \<exists>k'. post_role K u r k = (Inl (HttpResponse 409), k') \<and> v k' = R"
  using servesD(2) [OF assms(1), of k] unfolding serves_roles_def assms(2) by blast+

lemma getAdminToken_yields:
  assumes "keycloak_serves K u v"
  shows "yields v u R (getAdminToken K) (\<lambda>_ R'. R' = R)"
proof -
  have "yields v u R (demand (post_token K)) (\<lambda>_ R'. R' = R)"
    by (rule yields_demand) (rule roles_served [OF assms])
  then show ?thesis
    unfolding getAdminToken_def
    by (intro yields_bind [OF yields_gets [where P = "\<lambda>_ R'. R' = R"]])
      (auto intro!: yields_return yields_bind [where P = "\<lambda>_ R'. R' = R"] yields_modify simp: in_realm_def)
qed

lemma getClientUuid_yields:
  assumes "keycloak_serves K u v"
  shows "yields v u R (getClientUuid K) (\<lambda>x R'. x = u \<and> R' = R)"
proof -
  have "yields v u R (demand (get_clients K)) (\<lambda>us R'. us \<noteq> [] \<and> hd us = u \<and> R' = R)"
    by (rule yields_demand) (rule roles_served [OF assms])
  moreover have "yields v u R (case us of [] \<Rightarrow> throw_op ErrorException
      | u # _ \<Rightarrow> bind_op (modify_op (\<lambda>s. s\<lparr>clientUuid := Some u\<rparr>)) (\<lambda>_. return_op u)) (\<lambda>x R'. x = u \<and> R' = R)"
    if "us \<noteq> []" "hd us = u" for us
    using that by (cases us)
      (auto intro!: yields_return yields_bind [where P = "\<lambda>_ R'. R' = R"] yields_modify simp: in_realm_def)
  ultimately have ask: "yields v u R (bind_op (getAdminToken K) (\<lambda>_. bind_op (demand (get_clients K)) (\<lambda>us.
      case us of [] \<Rightarrow> throw_op ErrorException
      | u # _ \<Rightarrow> bind_op (modify_op (\<lambda>s. s\<lparr>clientUuid := Some u\<rparr>)) (\<lambda>_. return_op u)))) (\<lambda>x R'. x = u \<and> R' = R)"
    by (intro yields_bind [OF getAdminToken_yields [OF assms]]) (auto intro: yields_bind)
  show ?thesis
    unfolding getClientUuid_def
    by (rule yields_bind [OF yields_gets [where P = "\<lambda>c R'. (c = None \<or> c = Some u) \<and> R' = R"]])
      (use ask in \<open>auto simp: in_realm_def cached_def intro: yields_return\<close>)
qed

text \<open>The shape of most operations: the client id, then one request.\<close>

lemma with_client:
  assumes "keycloak_serves K u v" "yields v u R (f u) P"
  shows "yields v u R (bind_op (getClientUuid K) f) P"
  by (rule yields_bind [OF getClientUuid_yields [OF assms(1)]]) (use assms(2) in simp)

lemma with_token:
  assumes "keycloak_serves K u v" "yields v u R m P"
  shows "yields v u R (bind_op (getAdminToken K) (\<lambda>_. m)) P"
  by (rule yields_bind [OF getAdminToken_yields [OF assms(1)]]) (use assms(2) in simp)

lemma getRoles_yields:
  assumes "keycloak_serves K u v"
  shows "yields v u R (getRoles K) (\<lambda>_ R'. R' = R)"
  unfolding getRoles_def
  by (rule with_client [OF assms], rule yields_conseq, rule yields_demand, rule roles_served(3) [OF assms]) simp_all

lemma getRole_yields:
  assumes "keycloak_serves K u v" "n \<in> dom (realm_roles R)"
  shows "yields v u R (getRole K n) (\<lambda>r R'. role_name r = n \<and> known R r \<and> R' = R)"
  unfolding getRole_def
  by (rule with_client [OF assms(1)], rule yields_demand, rule roles_served(4) [OF assms(1) _ assms(2)])

definition role_made :: "string \<Rightarrow> realm \<Rightarrow> realm \<Rightarrow> bool" where
  "role_made n R R' \<longleftrightarrow> (if n \<in> dom (realm_roles R) then R' = R else \<exists>i. R' = new_role n i R)"

lemma createRole_yields:
  assumes "keycloak_serves K u v"
  shows "yields v u R (createRole K n desc) (\<lambda>b R'. b = (n \<notin> dom (realm_roles R)) \<and> role_made n R R')"
proof -
  let ?P = "\<lambda>r R'. r = (if n \<in> dom (realm_roles R) then Inl (HttpResponse 409) else Inr ()) \<and> role_made n R R'"
  have "\<exists>r k'. post_role K u (role_payload n desc) k = (r, k') \<and> ?P r (v k')" if "v k = R" for k
  proof (cases "n \<in> dom (realm_roles R)")
    case False
    then have "answers (post_role K u (role_payload n desc)) k (\<lambda>_ k'. \<exists>i. v k' = new_role n i R)"
      using roles_served(5) [OF assms that, of "role_payload n desc"] by (simp add: role_payload_def)
    from answersD [OF this] show ?thesis
      using False by (auto simp: role_made_def)
  next
    case True
    then show ?thesis
      using roles_served(6) [OF assms that, of "role_payload n desc"] by (auto simp: role_payload_def role_made_def)
  qed
  then have "yields v u R (ask (post_role K u (role_payload n desc))) ?P"
    by (rule yields_ask)
  then show ?thesis
    unfolding createRole_def
    by (intro with_client [OF assms]) (erule yields_bind, auto intro: yields_return)
qed

lemma rolesToAdd_yields:
  assumes "keycloak_serves K u v"
  shows "set ns \<subseteq> dom (realm_roles R) \<Longrightarrow>
    yields v u R (rolesToAdd K cur ns)
      (\<lambda>rs R'. R' = R \<and> (\<forall>r\<in>set rs. known R r) \<and> role_name ` set rs = set ns - set cur)"
proof (induction ns)
  case (Cons n ns)
  have rest: "yields v u R (bind_op (rolesToAdd K cur ns) (\<lambda>rs. return_op (case r of Inl _ \<Rightarrow> rs | Inr x \<Rightarrow> x # rs)))
      (\<lambda>rs R'. R' = R \<and> (\<forall>r\<in>set rs. known R r) \<and> role_name ` set rs = set (n # ns) - set cur)"
    if "\<exists>x. r = Inr x \<and> role_name x = n \<and> known R x" "n \<notin> set cur" for r :: "OidcRole result"
  proof -
    from that(1) obtain x where "r = Inr x" "role_name x = n" "known R x"
      by blast
    then show ?thesis
      using Cons.prems that(2)
      by (intro yields_bind [OF Cons.IH]) (simp_all add: yields_return insert_Diff_if)
  qed
  show ?case
  proof (cases "n \<in> set cur")
    case True
    then have "set (n # ns) - set cur = set ns - set cur"
      by auto
    then show ?thesis
      using Cons True by (simp only: rolesToAdd.simps if_True) simp
  next
    case False
    then have "yields v u R (attempt_op (getRole K n)) (\<lambda>r R'. (\<exists>x. r = Inr x \<and> role_name x = n \<and> known R x) \<and> R' = R)"
      by (intro yields_attempt yields_conseq [OF getRole_yields [OF assms]]) (use Cons.prems in auto)
    then have "yields v u R (bind_op (attempt_op (getRole K n)) (\<lambda>r. bind_op (rolesToAdd K cur ns)
        (\<lambda>rs. return_op (case r of Inl _ \<Rightarrow> rs | Inr x \<Rightarrow> x # rs))))
      (\<lambda>rs R'. R' = R \<and> (\<forall>r\<in>set rs. known R r) \<and> role_name ` set rs = set (n # ns) - set cur)"
      by (rule yields_bind) (elim conjE, hypsubst, rule rest [OF _ False])
    then show ?thesis
      using False by (simp only: rolesToAdd.simps if_False)
  qed
qed (simp add: yields_return)

lemma composites_served:
  assumes "keycloak_serves K u v" "n \<in> dom (realm_roles R)" "v k = R"
  shows "answers (get_composites K u n) k
      (\<lambda>rs k'. (\<forall>r\<in>set rs. known R r) \<and> role_name ` set rs = realm_children R n \<and> v k' = R)"
    "\<forall>r\<in>set rs. known R r \<Longrightarrow>
      answers (post_composites K u n rs) k (\<lambda>_ k'. v k' = set_children n (realm_children R n \<union> role_name ` set rs) R)"
    "\<forall>r\<in>set rs. known R r \<Longrightarrow>
      answers (delete_composites K u n rs) k (\<lambda>_ k'. v k' = set_children n (realm_children R n - role_name ` set rs) R)"
  using servesD(3) [OF assms(1), of k] assms(2) unfolding serves_composites_def assms(3) by blast+

lemma set_children_simps [simp]:
  "realm_roles (set_children n ns R) = realm_roles R" "realm_children (set_children n ns R) = (realm_children R)(n := ns)"
  "realm_groups (set_children n ns R) = realm_groups R" "realm_attributes (set_children n ns R) = realm_attributes R"
  "realm_group_roles (set_children n ns R) = realm_group_roles R"
  "set_children n ms (set_children n ns R) = set_children n ms R" "known (set_children n ns R) r = known R r"
  "set_children n (realm_children R n) R = R"
  by (simp_all add: set_children_def known_def)

lemma getCompositeRoles_yields:
  assumes "keycloak_serves K u v" "n \<in> dom (realm_roles R)"
  shows "yields v u R (getCompositeRoles K n)
    (\<lambda>rs R'. R' = R \<and> (\<forall>r\<in>set rs. known R r) \<and> role_name ` set rs = realm_children R n)"
  unfolding getCompositeRoles_def
  by (rule with_client [OF assms(1)], rule yields_conseq, rule yields_or_empty,
      rule composites_served(1) [OF assms]) simp_all

lemma removeCompositeRoles_yields:
  assumes "keycloak_serves K u v" "n \<in> dom (realm_roles R)" "\<forall>r\<in>set rs. known R r"
  shows "yields v u R (removeCompositeRoles K n rs)
    (\<lambda>_ R'. R' = set_children n (realm_children R n - role_name ` set rs) R)"
proof -
  have "yields v u R (offer (delete_composites K u n rs))
      (\<lambda>_ R'. R' = set_children n (realm_children R n - role_name ` set rs) R)"
    by (rule yields_offer) (rule composites_served(3) [OF assms(1,2) _ assms(3)])
  then show ?thesis
    unfolding removeCompositeRoles_def
    by (intro with_client [OF assms(1)]) (simp add: yields_return)
qed

lemma addComposites_yields:
  assumes "keycloak_serves K u v" "n \<in> dom (realm_roles R)" "\<forall>r\<in>set rs. known R r"
  shows "yields v u R (if rs = [] then return_op () else offer (post_composites K u n rs))
    (\<lambda>_ R'. R' = set_children n (realm_children R n \<union> role_name ` set rs) R)"
proof -
  have "yields v u R (offer (post_composites K u n rs))
      (\<lambda>_ R'. R' = set_children n (realm_children R n \<union> role_name ` set rs) R)"
    by (rule yields_offer) (rule composites_served(2) [OF assms(1,2) _ assms(3)])
  then show ?thesis
    by (simp add: yields_return)
qed

lemma syncComposites_yields:
  assumes D: "keycloak_serves K u v" and R: "n \<in> dom (realm_roles R)" "set desired \<subseteq> dom (realm_roles R)"
  shows "yields v u R (syncComposites K u n desired) (\<lambda>_ R'. R' = set_children n (set desired) R)"
  unfolding syncComposites_def
proof (rule yields_bind [OF getRole_yields [OF D R(1)]],
    rule yields_bind [OF getCompositeRoles_yields [OF D]],
    (elim conjE, simp only: R),
    rule yields_bind [OF rolesToAdd_yields [OF D]],
    (elim conjE, simp only: R), elim conjE)
  fix role :: OidcRole and R1 current R2 add R3
  assume cur: "\<forall>r\<in>set current. known R1 r" "role_name ` set current = realm_children R1 n"
    and add: "\<forall>r\<in>set add. known R2 r" "role_name ` set add = set desired - set (map role_name current)"
    and role: "role_name role = n" and same: "R1 = R" "R2 = R1" "R3 = R2"
  let ?R = "set_children n (realm_children R n - role_name ` set (rolesToRemove current desired)) R"
  have "realm_children ?R n \<union> role_name ` set add = set desired"
    using cur(2) add(2) same by (auto simp: rolesToRemove_def)
  moreover have "yields v u ?R (if add = [] then return_op () else offer (post_composites K u n add))
      (\<lambda>_ R'. R' = set_children n (realm_children ?R n \<union> role_name ` set add) ?R)"
    by (rule addComposites_yields [OF D]) (use R(1) add(1) same in simp_all)
  moreover have "yields v u R (removeCompositeRoles K n (rolesToRemove current desired)) (\<lambda>_ R'. R' = ?R)"
    by (rule removeCompositeRoles_yields [OF D R(1)]) (use cur(1) same in \<open>simp add: rolesToRemove_def\<close>)
  ultimately have "yields v u R (bind_op (removeCompositeRoles K n (rolesToRemove current desired)) (\<lambda>_.
      if add = [] then return_op () else offer (post_composites K u n add)))
    (\<lambda>_ R'. R' = set_children n (set desired) R)"
    by (elim yields_bind) simp
  then show "yields v u R3 (bind_op (removeCompositeRoles K n (rolesToRemove current desired)) (\<lambda>_.
      if add = [] then return_op () else offer (post_composites K u (role_name role) add)))
    (\<lambda>_ R'. R' = set_children n (set desired) R)"
    by (simp only: same role)
qed

definition composite_made :: "RoleDefinition \<Rightarrow> realm \<Rightarrow> realm \<Rightarrow> bool" where
  "composite_made def R R' \<longleftrightarrow>
     (\<exists>R1. role_made (rd_name def) R R1 \<and> R' = set_children (rd_name def) (set (desired_roles def)) R1)"

lemma createCompositeRole_yields:
  assumes "keycloak_serves K u v" "set (desired_roles def) \<subseteq> dom (realm_roles R)"
  shows "yields v u R (createCompositeRole K def) (\<lambda>_. composite_made def R)"
  unfolding createCompositeRole_def
proof (rule with_client [OF assms(1)], rule yields_bind [OF createRole_yields [OF assms(1)]], elim conjE)
  fix R1
  assume made: "role_made (rd_name def) R R1"
  then have "rd_name def \<in> dom (realm_roles R1)" "set (desired_roles def) \<subseteq> dom (realm_roles R1)"
    using assms(2) by (auto simp: role_made_def new_role_def split: if_splits)
  from syncComposites_yields [OF assms(1) this]
  show "yields v u R1 (syncComposites K u (rd_name def) (desired_roles def)) (\<lambda>_. composite_made def R)"
    by (rule yields_conseq) (use made in \<open>auto simp: composite_made_def\<close>)
qed

section \<open>Groups\<close>

lemma group_shape_simps [simp]: "group_id (group_shape g) = group_id g" "group_name (group_shape g) = group_name g"
  by (cases g; simp)+

lemma findGroup_shape: "findGroup (map group_shape gs) n = map_option group_shape (findGroup gs n)"
  by (induction gs n rule: findGroup.induct) (auto split: option.split)

lemma findGroup_append:
  "findGroup (xs @ ys) n = (case findGroup xs n of Some g \<Rightarrow> Some g | None \<Rightarrow> findGroup ys n)"
  by (induction xs n rule: findGroup.induct) (auto split: option.split)

lemma findGroup_Some: "findGroup gs n = Some g \<Longrightarrow> g \<in> set (all_groups gs) \<and> group_name g = n"
  by (induction gs n rule: findGroup.induct) (auto split: option.splits if_splits)

lemma findGroup_None_top: "findGroup gs n = None \<Longrightarrow> n \<notin> group_name ` set gs"
  by (induction gs n rule: findGroup.induct) (auto split: option.splits if_splits)

lemma all_groups_append [simp]: "all_groups (xs @ ys) = all_groups xs @ all_groups ys"
  by (induction xs rule: all_groups.induct) auto

definition has_group :: "realm \<Rightarrow> string \<Rightarrow> string \<Rightarrow> bool" where
  "has_group R i n \<longleftrightarrow> (\<exists>g\<in>set (all_groups (realm_groups R)). group_id g = Some i \<and> group_name g = n)"

lemma groups_served:
  assumes "keycloak_serves K u v" "v k = R"
  shows "answers (get_groups K) k (\<lambda>gs k'. map group_shape gs = realm_groups R \<and> v k' = R)"
    "has_group R i n \<Longrightarrow> answers (get_group K i) k (\<lambda>g' k'. group_id g' = Some i \<and> group_name g' = n \<and> v k' = R)"
    "has_group R i n \<Longrightarrow> group_id g' = Some i \<Longrightarrow> group_name g' = n \<Longrightarrow> group_attributes g' = Some a \<Longrightarrow>
       answers (put_group K i g') k (\<lambda>_ k'. v k' = set_attributes i a R)"
    "n \<notin> group_name ` set (realm_groups R) \<Longrightarrow>
       answers (post_group K n a) k (\<lambda>l k'. l \<noteq> None \<and> l \<noteq> Some [] \<and> v k' = new_group (location_id (the l)) n a R)"
    "has_group R i n \<Longrightarrow> answers (get_group_roles K i u) k
       (\<lambda>rs k'. (\<forall>r\<in>set rs. known R r) \<and> role_name ` set rs = realm_group_roles R i \<and> v k' = R)"
    "has_group R i n \<Longrightarrow> \<forall>r\<in>set rs. known R r \<Longrightarrow> answers (post_group_roles K i u rs) k
       (\<lambda>_ k'. v k' = set_group_roles i (realm_group_roles R i \<union> role_name ` set rs) R)"
    "has_group R i n \<Longrightarrow> \<forall>r\<in>set rs. known R r \<Longrightarrow> answers (delete_group_roles K i u rs) k
       (\<lambda>_ k'. v k' = set_group_roles i (realm_group_roles R i - role_name ` set rs) R)"
  using servesD(4) [OF assms(1), of k] servesD(5) [OF assms(1), of k]
  unfolding serves_groups_def serves_group_roles_def has_group_def assms(2) by blast+

lemma group_ids_served:
  assumes "keycloak_serves K u v" "v k = R"
  shows "distinct (map group_id (all_groups (realm_groups R)))" "None \<notin> set (map group_id (all_groups (realm_groups R)))"
  using servesD(4) [OF assms(1), of k] unfolding serves_groups_def assms(2) by blast+

lemma set_group_simps [simp]:
  "realm_roles (set_group_roles i ns R) = realm_roles R" "realm_children (set_group_roles i ns R) = realm_children R"
  "realm_groups (set_group_roles i ns R) = realm_groups R" "realm_attributes (set_group_roles i ns R) = realm_attributes R"
  "realm_group_roles (set_group_roles i ns R) = (realm_group_roles R)(i := ns)"
  "realm_roles (set_attributes i a R) = realm_roles R" "realm_children (set_attributes i a R) = realm_children R"
  "realm_groups (set_attributes i a R) = realm_groups R" "realm_attributes (set_attributes i a R) = (realm_attributes R)(i := a)"
  "realm_group_roles (set_attributes i a R) = realm_group_roles R"
  "realm_roles (new_group i n a R) = realm_roles R" "realm_children (new_group i n a R) = realm_children R"
  "realm_groups (new_group i n a R) = realm_groups R @ [OidcGroup (Some i) n None []]"
  "realm_attributes (new_group i n a R) = (realm_attributes R)(i := a)"
  "realm_group_roles (new_group i n a R) = (realm_group_roles R)(i := {})"
  "set_group_roles i ms (set_group_roles i ns R) = set_group_roles i ms R" "known (set_group_roles i ns R) r = known R r"
  "set_group_roles i (realm_group_roles R i) R = R"
  by (simp_all add: set_group_roles_def set_attributes_def new_group_def known_def)

lemma has_group_simps [simp]:
  "has_group (set_group_roles i ns R) = has_group R" "has_group (set_attributes i a R) = has_group R"
  by (simp_all add: has_group_def fun_eq_iff)

lemma getGroups_yields:
  assumes "keycloak_serves K u v"
  shows "yields v u R (getGroups K) (\<lambda>gs R'. map group_shape gs = realm_groups R \<and> R' = R)"
  unfolding getGroups_def
  by (rule with_token [OF assms], rule yields_demand, rule groups_served(1) [OF assms])

lemma getGroupByName_yields:
  assumes "keycloak_serves K u v"
  shows "yields v u R (getGroupByName K n)
    (\<lambda>g R'. map_option group_shape g = findGroup (realm_groups R) n \<and> R' = R)"
  unfolding getGroupByName_def
  by (rule yields_bind [OF getGroups_yields [OF assms]], rule yields_return)
    (auto simp: findGroup_shape [symmetric])

lemma getGroupById_yields:
  assumes "keycloak_serves K u v" "has_group R i n"
  shows "yields v u R (getGroupById K i) (\<lambda>g R'. group_id g = Some i \<and> group_name g = n \<and> R' = R)"
  unfolding getGroupById_def
  by (rule with_token [OF assms(1)], rule yields_demand, rule groups_served(2) [OF assms(1) _ assms(2)])

lemma createGroup_yields:
  assumes "keycloak_serves K u v" "findGroup (realm_groups R) n = None"
  shows "yields v u R (createGroup K n a) (\<lambda>i R'. R' = new_group i n (case a of None \<Rightarrow> [] | Some x \<Rightarrow> x) R)"
proof -
  let ?a = "case a of None \<Rightarrow> [] | Some x \<Rightarrow> x"
  have "yields v u R (ask (post_group K n ?a)) (\<lambda>r R'. \<exists>l. r = Inr l \<and> l \<noteq> None \<and> l \<noteq> Some [] \<and>
      R' = new_group (location_id (the l)) n ?a R)"
    by (rule yields_answer)
      (rule groups_served(4) [OF assms(1) _ findGroup_None_top [OF assms(2)]])
  then show ?thesis
    unfolding createGroup_def
    by (intro with_token [OF assms(1)]) (erule yields_bind, elim exE conjE, hypsubst, simp add: yields_return del: not_None_eq)
qed

lemma updateGroupAttributes_yields:
  assumes "keycloak_serves K u v" "has_group R i n"
  shows "yields v u R (updateGroupAttributes K i a) (\<lambda>_ R'. R' = set_attributes i a R)"
  unfolding updateGroupAttributes_def
proof (rule with_token [OF assms(1)], rule yields_bind [OF getGroupById_yields [OF assms]], elim conjE)
  fix g R'
  assume g: "group_id g = Some i" "group_name g = n" "R' = R"
  show "yields v u R' (demand (put_group K i (OidcGroup (group_id g) (group_name g) (Some a) (subGroups g))))
    (\<lambda>_ R'. R' = set_attributes i a R)"
    unfolding g by (rule yields_demand, rule groups_served(3) [OF assms(1) _ assms(2)]) (simp_all add: g)
qed

definition group_ready :: "GroupDefinition \<Rightarrow> realm \<Rightarrow> string \<Rightarrow> realm \<Rightarrow> bool" where
  "group_ready def R i R' \<longleftrightarrow>
     (case findGroup (realm_groups R) (gd_name def) of
        None \<Rightarrow> R' = new_group i (gd_name def) (case gd_attributes def of None \<Rightarrow> [] | Some a \<Rightarrow> a) R
      | Some g \<Rightarrow> group_id g = Some i \<and> R' = (case gd_attributes def of None \<Rightarrow> R | Some a \<Rightarrow> set_attributes i a R))"

lemma group_ready_has: "group_ready def R i R' \<Longrightarrow> has_group R' i (gd_name def)"
  by (auto simp: group_ready_def has_group_def split: option.splits dest!: findGroup_Some)

lemma found_group:
  assumes "keycloak_serves K u v" "v k = R" "findGroup (realm_groups R) n = Some (group_shape x)"
  shows "group_id x = Some (group_key x)" "has_group R (group_key x) n"
proof -
  have "group_id x \<in> group_id ` set (all_groups (realm_groups R))"
    using imageI [OF conjunct1 [OF findGroup_Some [OF assms(3)]], of group_id] by simp
  then show "group_id x = Some (group_key x)"
    using group_ids_served [OF assms(1,2)]
    by (cases "group_id x") (auto simp: group_key_def simp del: image_eqI)
  then show "has_group R (group_key x) n"
    unfolding has_group_def using findGroup_Some [OF assms(3)] by (intro bexI [of _ "group_shape x"]) auto
qed

lemma groupToSync_yields:
  assumes D: "keycloak_serves K u v"
  shows "yields v u R (groupToSync K def) (\<lambda>i R'. group_ready def R i R')"
proof (cases "\<exists>k. v k = R")
  case True
  have made: "yields v u R' (bind_op (getGroupById K i) (\<lambda>_. return_op i)) (\<lambda>i R'. group_ready def R i R')"
    if "findGroup (realm_groups R) (gd_name def) = None"
      "R' = new_group i (gd_name def) (case gd_attributes def of None \<Rightarrow> [] | Some x \<Rightarrow> x) R" for i R'
  proof -
    have ready: "group_ready def R i R'"
      using that by (simp add: group_ready_def)
    show ?thesis
      by (rule yields_bind [OF getGroupById_yields [OF D group_ready_has [OF ready]]])
        (use ready in \<open>simp add: yields_return\<close>)
  qed
  have found: "yields v u R (case gd_attributes def of None \<Rightarrow> return_op (group_key x)
        | Some a \<Rightarrow> bind_op (updateGroupAttributes K (group_key x) a) (\<lambda>_. return_op (group_key x)))
      (\<lambda>i R'. group_ready def R i R')"
    if x: "findGroup (realm_groups R) (gd_name def) = Some (group_shape x)" for x
  proof -
    obtain k where k: "v k = R"
      using True by blast
    note upd = updateGroupAttributes_yields [OF D found_group(2) [OF D k x]]
    show ?thesis
      using x found_group(1) [OF D k x]
      by (cases "gd_attributes def") (simp_all add: group_ready_def yields_return yields_bind [OF upd])
  qed
  show ?thesis
    unfolding groupToSync_def
  proof (rule yields_bind [OF getGroupByName_yields [OF D]], elim conjE, hypsubst)
    fix g
    assume g: "map_option group_shape g = findGroup (realm_groups R) (gd_name def)"
    show "yields v u R (case g of
        None \<Rightarrow> bind_op (createGroup K (gd_name def) (gd_attributes def)) (\<lambda>i. bind_op (getGroupById K i) (\<lambda>_. return_op i))
      | Some x \<Rightarrow> (case gd_attributes def of None \<Rightarrow> return_op (group_key x)
          | Some a \<Rightarrow> bind_op (updateGroupAttributes K (group_key x) a) (\<lambda>_. return_op (group_key x))))
      (\<lambda>i R'. group_ready def R i R')"
      using g by (cases g) (simp_all add: found yields_bind [OF createGroup_yields [OF D]] made)
  qed
next
  case False
  then show ?thesis
    by (auto simp: yields_def in_realm_def)
qed

lemma getGroupClientRoles_yields:
  assumes "keycloak_serves K u v" "has_group R i n"
  shows "yields v u R (getGroupClientRoles K i)
    (\<lambda>rs R'. (\<forall>r\<in>set rs. known R r) \<and> role_name ` set rs = realm_group_roles R i \<and> R' = R)"
  unfolding getGroupClientRoles_def
  by (rule with_client [OF assms(1)], rule yields_or_empty, rule groups_served(5) [OF assms(1) _ assms(2)])

lemma removeRolesFromGroup_yields:
  assumes "keycloak_serves K u v" "has_group R i n" "\<forall>r\<in>set rs. known R r"
  shows "yields v u R (removeRolesFromGroup K i rs)
    (\<lambda>_ R'. R' = set_group_roles i (realm_group_roles R i - role_name ` set rs) R)"
proof -
  have "yields v u R (demand (delete_group_roles K i u rs))
      (\<lambda>_ R'. R' = set_group_roles i (realm_group_roles R i - role_name ` set rs) R)"
    by (rule yields_demand) (rule groups_served(7) [OF assms(1) _ assms(2,3)])
  then show ?thesis
    unfolding removeRolesFromGroup_def
    by (intro with_client [OF assms(1)]) (simp add: yields_return)
qed

lemma assignRolesToGroup_yields:
  assumes "keycloak_serves K u v" "has_group R i n" "\<forall>r\<in>set rs. known R r"
  shows "yields v u R (assignRolesToGroup K i rs)
    (\<lambda>_ R'. R' = set_group_roles i (realm_group_roles R i \<union> role_name ` set rs) R)"
proof -
  have "yields v u R (demand (post_group_roles K i u rs))
      (\<lambda>_ R'. R' = set_group_roles i (realm_group_roles R i \<union> role_name ` set rs) R)"
    by (rule yields_demand) (rule groups_served(6) [OF assms(1) _ assms(2,3)])
  then show ?thesis
    unfolding assignRolesToGroup_def
    by (intro with_client [OF assms(1)]) (simp add: yields_return)
qed

definition group_synced :: "GroupDefinition \<Rightarrow> realm \<Rightarrow> realm \<Rightarrow> bool" where
  "group_synced def R R' \<longleftrightarrow>
     (\<exists>i R1. group_ready def R i R1 \<and> R' = set_group_roles i (set (gd_compositeRoles def)) R1)"

lemma group_ready_roles: "group_ready def R i R' \<Longrightarrow> realm_roles R' = realm_roles R"
  by (auto simp: group_ready_def split: option.splits)

lemma syncGroup_yields:
  assumes D: "keycloak_serves K u v" and R: "set (gd_compositeRoles def) \<subseteq> dom (realm_roles R)"
  shows "yields v u R (syncGroup K def) (\<lambda>_. group_synced def R)"
  unfolding syncGroup_def Let_def
proof (rule yields_bind [OF groupToSync_yields [OF D]])
  let ?ns = "js_unique (gd_compositeRoles def)"
  fix i R1
  assume ready: "group_ready def R i R1"
  note has = group_ready_has [OF ready]
  have ns: "set ?ns \<subseteq> dom (realm_roles R1)"
    using R group_ready_roles [OF ready] by simp
  show "yields v u R1 (bind_op (getGroupClientRoles K i) (\<lambda>current.
      bind_op (rolesToAdd K (map role_name current) ?ns) (\<lambda>add.
      bind_op (removeRolesFromGroup K i (rolesToRemove current ?ns)) (\<lambda>_. assignRolesToGroup K i add))))
    (\<lambda>_. group_synced def R)"
  proof (rule yields_bind [OF getGroupClientRoles_yields [OF D has]], (elim conjE, hypsubst),
      rule yields_bind [OF rolesToAdd_yields [OF D ns]], elim conjE)
    fix current add R2
    assume cur: "\<forall>r\<in>set current. known R1 r" "role_name ` set current = realm_group_roles R1 i"
      and add: "\<forall>r\<in>set add. known R1 r" "role_name ` set add = set ?ns - set (map role_name current)" and R2: "R2 = R1"
    let ?R = "set_group_roles i (realm_group_roles R1 i - role_name ` set (rolesToRemove current ?ns)) R1"
    have "realm_group_roles ?R i \<union> role_name ` set add = set ?ns"
      using cur(2) add(2) by (auto simp: rolesToRemove_def)
    moreover have "yields v u ?R (assignRolesToGroup K i add)
        (\<lambda>_ R'. R' = set_group_roles i (realm_group_roles ?R i \<union> role_name ` set add) ?R)"
      by (rule assignRolesToGroup_yields [OF D]) (use has add(1) in simp_all)
    moreover have "yields v u R1 (removeRolesFromGroup K i (rolesToRemove current ?ns)) (\<lambda>_ R'. R' = ?R)"
      by (rule removeRolesFromGroup_yields [OF D has]) (use cur(1) in \<open>simp add: rolesToRemove_def\<close>)
    ultimately have "yields v u R1 (bind_op (removeRolesFromGroup K i (rolesToRemove current ?ns)) (\<lambda>_. assignRolesToGroup K i add))
        (\<lambda>_ R'. R' = set_group_roles i (set ?ns) R1)"
      by (elim yields_bind) simp
    then show "yields v u R2 (bind_op (removeRolesFromGroup K i (rolesToRemove current ?ns)) (\<lambda>_. assignRolesToGroup K i add))
        (\<lambda>_. group_synced def R)"
      unfolding R2 by (rule yields_conseq) (use ready in \<open>auto simp: group_synced_def\<close>)
  qed
qed

section \<open>Whole lists\<close>

fun steps :: "('b \<Rightarrow> realm \<Rightarrow> realm \<Rightarrow> bool) \<Rightarrow> 'b list \<Rightarrow> realm \<Rightarrow> realm \<Rightarrow> bool" where
  "steps S [] R R' \<longleftrightarrow> R' = R"
| "steps S (x # xs) R R' \<longleftrightarrow> (\<exists>R1. S x R R1 \<and> steps S xs R1 R')"

lemma count_op_yields:
  assumes "\<And>x R. x \<in> set xs \<Longrightarrow> I R \<Longrightarrow> yields v u R (f x) (\<lambda>_ R'. S x R R' \<and> I R')"
  shows "I R \<Longrightarrow> yields v u R (count_op f xs) (\<lambda>rs R'. length rs = length xs \<and> (\<forall>r\<in>set rs. is_ok r) \<and> steps S xs R R')"
  using assms
proof (induction xs arbitrary: R)
  case (Cons x xs)
  have rest: "yields v u R1 (bind_op (count_op f xs) (\<lambda>rs. return_op (r # rs)))
      (\<lambda>rs R'. length rs = length (x # xs) \<and> (\<forall>r\<in>set rs. is_ok r) \<and> steps S (x # xs) R R')"
    if "is_ok r" "S x R R1" "I R1" for r R1
  proof (rule yields_bind [OF Cons.IH [OF that(3)]])
    show "yields v u R2 (return_op (r # rs))
        (\<lambda>rs R'. length rs = length (x # xs) \<and> (\<forall>r\<in>set rs. is_ok r) \<and> steps S (x # xs) R R')"
      if "length rs = length xs \<and> (\<forall>r\<in>set rs. is_ok r) \<and> steps S xs R1 R2" for rs R2
      by (rule yields_return) (use that \<open>is_ok r\<close> \<open>S x R R1\<close> in auto)
  qed (use Cons.prems(2) in simp)
  have "yields v u R (attempt_op (f x)) (\<lambda>r R'. is_ok r \<and> S x R R' \<and> I R')"
    by (rule yields_attempt) (use Cons.prems in simp)
  then show ?case
    unfolding count_op.simps by (rule yields_bind) (elim conjE, rule rest)
qed (simp add: yields_return)

text \<open>The count of the basic roles says which were missing.\<close>

definition roles_added :: "string list \<Rightarrow> realm \<Rightarrow> realm \<Rightarrow> bool" where
  "roles_added ns R R' \<longleftrightarrow>
     dom (realm_roles R') = dom (realm_roles R) \<union> set ns \<and>
     (\<forall>n\<in>dom (realm_roles R). realm_roles R' n = realm_roles R n \<and> realm_children R' n = realm_children R n) \<and>
     realm_groups R' = realm_groups R \<and> realm_attributes R' = realm_attributes R \<and>
     realm_group_roles R' = realm_group_roles R \<and> (set ns \<subseteq> dom (realm_roles R) \<longrightarrow> R' = R)"

lemma role_made_added: "role_made n R R' \<Longrightarrow> roles_added [n] R R'"
  by (auto simp: role_made_def roles_added_def new_role_def split: if_splits)

lemma roles_added_trans:
  assumes "roles_added ms R R1" "roles_added ns R1 R'"
  shows "roles_added (ms @ ns) R R'"
proof -
  have dm: "dom (realm_roles R') = dom (realm_roles R) \<union> set (ms @ ns)"
    using assms by (simp add: roles_added_def Un_assoc)
  have rows: "realm_roles R' n = realm_roles R n \<and> realm_children R' n = realm_children R n" if "n \<in> dom (realm_roles R)" for n
  proof -
    have "n \<in> dom (realm_roles R1)"
      using assms(1) that by (simp add: roles_added_def)
    then show ?thesis
      using assms that by (metis roles_added_def)
  qed
  have imp: "set ms \<subseteq> dom (realm_roles R) \<and> set ns \<subseteq> dom (realm_roles R) \<longrightarrow> R' = R"
    using assms by (auto simp: roles_added_def)
  have "realm_groups R' = realm_groups R \<and> realm_attributes R' = realm_attributes R \<and> realm_group_roles R' = realm_group_roles R"
    using assms by (simp add: roles_added_def)
  then show ?thesis
    unfolding roles_added_def using dm rows imp by (auto simp only: set_append Un_subset_iff)
qed

lemma createRoles_yields:
  assumes "keycloak_serves K u v"
  shows "distinct (map name rs) \<Longrightarrow> yields v u R (count_op (\<lambda>r. createRole K (name r) (desc r)) rs)
    (\<lambda>xs R'. xs = map (\<lambda>r. Inr (name r \<notin> dom (realm_roles R))) rs \<and> roles_added (map name rs) R R')"
proof (induction rs arbitrary: R)
  case (Cons r rs)
  have rest: "yields v u R1 (bind_op (count_op (\<lambda>r. createRole K (name r) (desc r)) rs) (\<lambda>xs. return_op (x # xs)))
      (\<lambda>xs R'. xs = map (\<lambda>r. Inr (name r \<notin> dom (realm_roles R))) (r # rs) \<and> roles_added (map name (r # rs)) R R')"
    if x: "x = Inr (name r \<notin> dom (realm_roles R))" "role_made (name r) R R1" for x R1
  proof -
    note added = role_made_added [OF x(2)]
    have "name q \<notin> dom (realm_roles R1) \<longleftrightarrow> name q \<notin> dom (realm_roles R)" if "q \<in> set rs" for q
      using added Cons.prems imageI [OF that, of name] by (auto simp: roles_added_def)
    then have same: "map (\<lambda>r. Inr (name r \<notin> dom (realm_roles R1))) rs = map (\<lambda>r. Inr (name r \<notin> dom (realm_roles R))) rs"
      by (intro map_cong) auto
    show ?thesis
      by (rule yields_bind [OF Cons.IH])
        (use Cons.prems x(1) same roles_added_trans [OF added] in \<open>auto intro!: yields_return simp del: map_eq_conv\<close>)
  qed
  have "yields v u R (attempt_op (createRole K (name r) (desc r)))
      (\<lambda>x R'. x = Inr (name r \<notin> dom (realm_roles R)) \<and> role_made (name r) R R')"
    by (rule yields_attempt, rule yields_conseq [OF createRole_yields [OF assms]]) auto
  then show ?case
    unfolding count_op.simps by (rule yields_bind) (elim conjE, rule rest)
qed (simp add: yields_return roles_added_def)

section \<open>A synchronised realm\<close>

definition ids_ok :: "realm \<Rightarrow> bool" where
  "ids_ok R \<longleftrightarrow> distinct (map group_id (all_groups (realm_groups R)))"

lemma yields_ids:
  assumes "keycloak_serves K u v" "yields v u R m P"
  shows "yields v u R m (\<lambda>x R'. P x R' \<and> ids_ok R')"
proof -
  have "ids_ok R'" if "in_realm v u R' s" for R' s
    using group_ids_served(1) [OF assms(1)] that by (auto simp: in_realm_def ids_ok_def)
  then show ?thesis
    using assms(2) unfolding yields_def by blast
qed

definition group_at :: "GroupDefinition \<Rightarrow> realm \<Rightarrow> string \<Rightarrow> bool" where
  "group_at def R i \<longleftrightarrow>
     (\<exists>g. findGroup (realm_groups R) (gd_name def) = Some g \<and> group_id g = Some i) \<and>
     realm_group_roles R i = set (gd_compositeRoles def) \<and>
     (\<forall>a. gd_attributes def = Some a \<longrightarrow> realm_attributes R i = a)"

lemma group_synced_at: "group_synced def R R' \<Longrightarrow> \<exists>i. group_at def R' i"
  unfolding group_synced_def group_ready_def group_at_def
  by (cases "findGroup (realm_groups R) (gd_name def)"; cases "gd_attributes def")
    (auto simp: findGroup_append)

lemma group_synced_frame:
  assumes "group_synced def R R'"
  shows "realm_roles R' = realm_roles R" "realm_children R' = realm_children R"
    "\<exists>gs. realm_groups R' = realm_groups R @ gs"
    "\<exists>g i. findGroup (realm_groups R') (gd_name def) = Some g \<and> group_id g = Some i \<and>
       (\<forall>j. j \<noteq> i \<longrightarrow> realm_group_roles R' j = realm_group_roles R j \<and> realm_attributes R' j = realm_attributes R j)"
  using assms unfolding group_synced_def group_ready_def
  by (cases "findGroup (realm_groups R) (gd_name def)"; cases "gd_attributes def"; auto simp: findGroup_append)+

text \<open>A group of another name is left as it is, since the ids of groups are distinct.\<close>

lemma group_synced_other:
  assumes "group_synced def R R'" "ids_ok R'"
    and "g \<in> set (all_groups (realm_groups R))" "group_id g = Some i" "group_name g \<noteq> gd_name def"
  shows "g \<in> set (all_groups (realm_groups R'))" "realm_group_roles R' i = realm_group_roles R i"
    "realm_attributes R' i = realm_attributes R i"
proof -
  obtain h j where h: "findGroup (realm_groups R') (gd_name def) = Some h" "group_id h = Some j"
    "\<And>k. k \<noteq> j \<Longrightarrow> realm_group_roles R' k = realm_group_roles R k \<and> realm_attributes R' k = realm_attributes R k"
    using group_synced_frame(4) [OF assms(1)] by blast
  show g: "g \<in> set (all_groups (realm_groups R'))"
    using group_synced_frame(3) [OF assms(1)] assms(3) by auto
  have "i \<noteq> j"
  proof
    assume "i = j"
    then have "group_id g = group_id h"
      using h(2) assms(4) by simp
    moreover have "inj_on group_id (set (all_groups (realm_groups R')))"
      using assms(2) by (simp add: ids_ok_def distinct_map)
    ultimately have "g = h"
      using g findGroup_Some [OF h(1)] by (auto dest: inj_onD)
    then show False
      using findGroup_Some [OF h(1)] assms(5) by simp
  qed
  then show "realm_group_roles R' i = realm_group_roles R i" "realm_attributes R' i = realm_attributes R i"
    using h(3) by auto
qed

lemma group_synced_keeps:
  assumes "group_synced def R R'" "ids_ok R'" "group_at d R i" "gd_name d \<noteq> gd_name def"
  shows "group_at d R' i"
proof -
  obtain g where g: "findGroup (realm_groups R) (gd_name d) = Some g" "group_id g = Some i"
    using assms(3) by (auto simp: group_at_def)
  have "g \<in> set (all_groups (realm_groups R))" "group_name g \<noteq> gd_name def"
    using findGroup_Some [OF g(1)] assms(4) by auto
  note other = group_synced_other [OF assms(1,2) this(1) g(2) this(2)]
  have "findGroup (realm_groups R') (gd_name d) = Some g"
    using group_synced_frame(3) [OF assms(1)] g(1) by (auto simp: findGroup_append)
  then show ?thesis
    using other(2,3) g(2) assms(3) by (auto simp: group_at_def)
qed

lemma groups_synced:
  assumes "steps (\<lambda>d R R'. group_synced d R R' \<and> ids_ok R') ds R R'" "distinct (map gd_name ds)"
  shows "\<forall>d\<in>set ds. \<exists>i. group_at d R' i" "realm_roles R' = realm_roles R" "realm_children R' = realm_children R"
    "\<forall>g\<in>set (all_groups (realm_groups R)). \<forall>i. group_id g = Some i \<longrightarrow> group_name g \<notin> gd_name ` set ds \<longrightarrow>
       realm_group_roles R' i = realm_group_roles R i \<and> realm_attributes R' i = realm_attributes R i"
    "\<forall>d i. group_at d R i \<longrightarrow> gd_name d \<notin> gd_name ` set ds \<longrightarrow> group_at d R' i"
  using assms
proof (induction ds arbitrary: R)
  case (Cons d ds)
  {
    case 1
    then obtain R1 where R1: "group_synced d R R1" "ids_ok R1" "steps (\<lambda>d R R'. group_synced d R R' \<and> ids_ok R') ds R1 R'"
      by auto
    then show ?case
      using Cons.IH(1,5) [OF R1(3)] group_synced_at [OF R1(1)] 1(2) by auto
  next
    case 2
    then show ?case
      using Cons.IH(2) group_synced_frame(1) by fastforce
  next
    case 3
    then show ?case
      using Cons.IH(3) group_synced_frame(2) by fastforce
  next
    case 4
    then obtain R1 where R1: "group_synced d R R1" "ids_ok R1" "steps (\<lambda>d R R'. group_synced d R R' \<and> ids_ok R') ds R1 R'"
      by auto
    show ?case
    proof (intro ballI allI impI)
      fix g i
      assume g: "g \<in> set (all_groups (realm_groups R))" "group_id g = Some i" "group_name g \<notin> gd_name ` set (d # ds)"
      then have "group_name g \<noteq> gd_name d" "group_name g \<notin> gd_name ` set ds"
        by simp_all
      note other = group_synced_other [OF R1(1,2) g(1,2) this(1)] and out = this(2)
      have "distinct (map gd_name ds)"
        using 4(2) by simp
      from Cons.IH(4) [OF R1(3) this] other out g(2)
      show "realm_group_roles R' i = realm_group_roles R i \<and> realm_attributes R' i = realm_attributes R i"
        by simp
    qed
  next
    case 5
    then obtain R1 where R1: "group_synced d R R1" "ids_ok R1" "steps (\<lambda>d R R'. group_synced d R R' \<and> ids_ok R') ds R1 R'"
      by auto
    then show ?case
      using Cons.IH(5) [OF R1(3)] group_synced_keeps [OF R1(1,2)] 5(2) by auto
  }
qed auto

lemma new_role_simps [simp]:
  "realm_roles (new_role n i R) = (realm_roles R)(n \<mapsto> i)" "realm_children (new_role n i R) = (realm_children R)(n := {})"
  "realm_groups (new_role n i R) = realm_groups R" "realm_attributes (new_role n i R) = realm_attributes R"
  "realm_group_roles (new_role n i R) = realm_group_roles R"
  by (simp_all add: new_role_def)

lemma composite_made_frame:
  assumes "composite_made def R R'"
  shows "dom (realm_roles R') = insert (rd_name def) (dom (realm_roles R))"
    "realm_children R' (rd_name def) = set (desired_roles def)"
    "n \<noteq> rd_name def \<Longrightarrow> realm_children R' n = realm_children R n"
    "realm_groups R' = realm_groups R" "realm_attributes R' = realm_attributes R" "realm_group_roles R' = realm_group_roles R"
proof -
  obtain R1 where R1: "role_made (rd_name def) R R1" "R' = set_children (rd_name def) (set (desired_roles def)) R1"
    using assms by (auto simp: composite_made_def)
  then show "dom (realm_roles R') = insert (rd_name def) (dom (realm_roles R))"
    "realm_children R' (rd_name def) = set (desired_roles def)"
    "n \<noteq> rd_name def \<Longrightarrow> realm_children R' n = realm_children R n"
    "realm_groups R' = realm_groups R" "realm_attributes R' = realm_attributes R" "realm_group_roles R' = realm_group_roles R"
    by (auto simp: role_made_def split: if_splits)
qed

lemma composites_made:
  assumes "steps composite_made ds R R'" "distinct (map rd_name ds)"
  shows "dom (realm_roles R') = dom (realm_roles R) \<union> rd_name ` set ds \<and>
    (\<forall>d\<in>set ds. realm_children R' (rd_name d) = set (desired_roles d)) \<and>
    (\<forall>n. n \<notin> rd_name ` set ds \<longrightarrow> realm_children R' n = realm_children R n) \<and>
    realm_groups R' = realm_groups R \<and> realm_attributes R' = realm_attributes R \<and> realm_group_roles R' = realm_group_roles R"
  using assms
proof (induction ds arbitrary: R)
  case (Cons d ds)
  then obtain R1 where R1: "composite_made d R R1" "steps composite_made ds R1 R'"
    by auto
  from Cons.IH [OF R1(2)] Cons.prems(2) composite_made_frame [OF R1(1)] show ?case
    by auto
qed simp

definition synced :: "realm \<Rightarrow> bool" where
  "synced R \<longleftrightarrow>
     range api_role_value \<union> rd_name ` set COMPOSITE_ROLES \<subseteq> dom (realm_roles R) \<and>
     (\<forall>d\<in>set COMPOSITE_ROLES. realm_children R (rd_name d) = set (desired_roles d)) \<and>
     (\<forall>d\<in>set GROUP_DEFINITIONS. \<exists>i. group_at d R i)"

text \<open>A realm that is synchronised stays as it is.\<close>

lemma composites_noop:
  assumes "steps composite_made ds R R'"
    and "\<forall>d\<in>set ds. rd_name d \<in> dom (realm_roles R) \<and> realm_children R (rd_name d) = set (desired_roles d)"
  shows "R' = R"
  using assms
proof (induction ds)
  case (Cons d ds)
  then obtain R1 where R1: "composite_made d R R1" "steps composite_made ds R1 R'"
    by auto
  have "R1 = set_children (rd_name d) (realm_children R (rd_name d)) R"
    using R1(1) Cons.prems(2) by (auto simp: composite_made_def role_made_def)
  then have "R1 = R"
    by (simp only: set_children_simps)
  then show ?case
    using Cons R1(2) by simp
qed simp

lemma group_noop:
  assumes "group_synced d R R'" "group_at d R i"
  shows "R' = R"
proof -
  obtain R1 where R1: "R1 = (case gd_attributes d of None \<Rightarrow> R | Some a \<Rightarrow> set_attributes i a R)"
    "R' = set_group_roles i (set (gd_compositeRoles d)) R1"
    using assms by (auto simp: group_synced_def group_ready_def group_at_def)
  have "R1 = R"
    using assms(2) R1(1) by (cases "gd_attributes d") (auto simp: group_at_def set_attributes_def)
  then show ?thesis
    using assms(2) R1(2) by (auto simp: group_at_def set_group_roles_def fun_upd_idem)
qed

lemma groups_noop:
  "steps (\<lambda>d R R'. group_synced d R R' \<and> ids_ok R') ds R R' \<Longrightarrow> \<forall>d\<in>set ds. \<exists>i. group_at d R i \<Longrightarrow> R' = R"
proof (induction ds)
  case (Cons d ds)
  then show ?case
    using group_noop by fastforce
qed simp

section \<open>The whole synchronisation\<close>

lemma all_api_roles_UNIV: "set all_api_roles = UNIV"
proof -
  have "r \<in> set all_api_roles" for r
    by (cases r) (simp_all add: all_api_roles_def)
  then show ?thesis
    by blast
qed

lemma api_role_values_distinct: "distinct (map api_role_value all_api_roles)"
  unfolding all_api_roles_def by code_simp

lemma composites_defined:
  "d \<in> set COMPOSITE_ROLES \<Longrightarrow> set (desired_roles d) \<subseteq> range api_role_value" "distinct (map rd_name COMPOSITE_ROLES)"
  by (auto simp: COMPOSITE_ROLES_def desired_roles_def)

lemma groups_defined:
  "d \<in> set GROUP_DEFINITIONS \<Longrightarrow> set (gd_compositeRoles d) \<subseteq> rd_name ` set COMPOSITE_ROLES"
  "distinct (map gd_name GROUP_DEFINITIONS)"
  by (auto simp: COMPOSITE_ROLES_def GROUP_DEFINITIONS_def)

abbreviation sync_groups :: "realm \<Rightarrow> realm \<Rightarrow> bool" where
  "sync_groups \<equiv> steps (\<lambda>d R R'. group_synced d R R' \<and> ids_ok R') GROUP_DEFINITIONS"

definition setup_counts :: "realm \<Rightarrow> role_counts" where
  "setup_counts R =
     (let missing = how_many all_api_roles (\<lambda>r. api_role_value r \<notin> dom (realm_roles R)) in
      \<lparr>basic_created = missing, basic_skipped = length all_api_roles - missing,
       composite_created = length COMPOSITE_ROLES, composite_failed = 0,
       groups_synced = length GROUP_DEFINITIONS, groups_failed = 0\<rparr>)"

lemma how_many_ok:
  assumes "length rs = n" "\<forall>r\<in>set rs. is_ok r"
  shows "how_many rs is_ok = n" "how_many rs (\<lambda>r. \<not> is_ok r) = 0"
  using assms by (auto simp: how_many_def filter_empty_conv)

lemma how_many_basic:
  "how_many (map (\<lambda>r. Inr (P r)) rs) (\<lambda>r. r = Inr True) = how_many rs P"
  "how_many (map (\<lambda>r. Inr (P r)) rs) (\<lambda>r. r = Inr False) = length rs - how_many rs P"
  using sum_length_filter_compl [of P rs] by (simp_all add: how_many_def filter_map comp_def)

lemma setupAllRoles_yields:
  assumes D: "keycloak_serves K u v"
  shows "yields v u R (setupAllRoles K) (\<lambda>c R'. c = setup_counts R \<and>
    (\<exists>R1 R2. roles_added (map api_role_value all_api_roles) R R1 \<and> steps composite_made COMPOSITE_ROLES R1 R2 \<and> sync_groups R2 R'))"
proof -
  let ?I = "\<lambda>ns R :: realm. ns \<subseteq> dom (realm_roles R)"
  have composites: "yields v u R1 (count_op (createCompositeRole K) COMPOSITE_ROLES)
      (\<lambda>rs R'. length rs = length COMPOSITE_ROLES \<and> (\<forall>r\<in>set rs. is_ok r) \<and> steps composite_made COMPOSITE_ROLES R1 R')"
    if "?I (range api_role_value) R1" for R1
  proof (rule count_op_yields [where I = "?I (range api_role_value)", OF _ that])
    fix d and R :: realm
    assume d: "d \<in> set COMPOSITE_ROLES" "?I (range api_role_value) R"
    then have "set (desired_roles d) \<subseteq> dom (realm_roles R)"
      using composites_defined(1) by blast
    from createCompositeRole_yields [OF D this]
    show "yields v u R (createCompositeRole K d) (\<lambda>_ R'. composite_made d R R' \<and> ?I (range api_role_value) R')"
      by (rule yields_conseq) (use d composite_made_frame(1) in blast)
  qed
  have groups: "yields v u R2 (count_op (syncGroup K) GROUP_DEFINITIONS)
      (\<lambda>rs R'. length rs = length GROUP_DEFINITIONS \<and> (\<forall>r\<in>set rs. is_ok r) \<and> sync_groups R2 R')"
    if "?I (rd_name ` set COMPOSITE_ROLES) R2" for R2
  proof (rule count_op_yields [where I = "?I (rd_name ` set COMPOSITE_ROLES)", OF _ that])
    fix d and R :: realm
    assume d: "d \<in> set GROUP_DEFINITIONS" "?I (rd_name ` set COMPOSITE_ROLES) R"
    then have "set (gd_compositeRoles d) \<subseteq> dom (realm_roles R)"
      using groups_defined(1) by blast
    note sync = yields_ids [OF D syncGroup_yields [OF D this]]
    show "yields v u R (syncGroup K d) (\<lambda>_ R'. (group_synced d R R' \<and> ids_ok R') \<and> ?I (rd_name ` set COMPOSITE_ROLES) R')"
      by (rule yields_conseq [OF sync], elim conjE, frule group_synced_frame(1)) (use d in simp)
  qed
  have last: "yields v u R' (bind_op (getRoles K) (\<lambda>_. bind_op (getGroups K) (\<lambda>_. return_op c))) P" if "P c R'" for R' c P
    by (rule yields_bind [OF getRoles_yields [OF D]], hypsubst, rule yields_bind [OF getGroups_yields [OF D]], elim conjE, hypsubst)
      (rule yields_return, rule that)
  show ?thesis
    unfolding setupAllRoles_def
  proof (rule with_token [OF D], rule with_client [OF D], rule yields_bind [OF getRoles_yields [OF D]], hypsubst,
      rule yields_bind [OF createRoles_yields [OF D api_role_values_distinct]], elim conjE, goal_cases)
    case basic: (1 _ _ basic R1)
    then have "?I (range api_role_value) R1"
      by (auto simp: roles_added_def all_api_roles_UNIV)
    from composites [OF this] show ?case
    proof (rule yields_bind, elim conjE, goal_cases)
      case made: (1 composite R2)
      then have "?I (rd_name ` set COMPOSITE_ROLES) R2"
        using composites_made [of COMPOSITE_ROLES R1 R2] composites_defined(2) by auto
      from groups [OF this] show ?case
      proof (rule yields_bind, elim conjE, goal_cases)
        case synced: (1 groups R')
        show ?case
          by (rule last) (use basic made synced in \<open>auto simp: setup_counts_def Let_def how_many_ok how_many_basic\<close>)
      qed
    qed
  qed
qed

lemma setup_synced:
  assumes "roles_added (map api_role_value all_api_roles) R R1" "steps composite_made COMPOSITE_ROLES R1 R2" "sync_groups R2 R'"
  shows "synced R'"
    "dom (realm_roles R') = dom (realm_roles R) \<union> range api_role_value \<union> rd_name ` set COMPOSITE_ROLES"
    "\<forall>n\<in>dom (realm_roles R). n \<notin> rd_name ` set COMPOSITE_ROLES \<longrightarrow> realm_children R' n = realm_children R n"
    "\<forall>g\<in>set (all_groups (realm_groups R)). \<forall>i. group_id g = Some i \<longrightarrow> group_name g \<notin> gd_name ` set GROUP_DEFINITIONS \<longrightarrow>
       realm_group_roles R' i = realm_group_roles R i \<and> realm_attributes R' i = realm_attributes R i"
proof -
  note added = assms(1) [unfolded roles_added_def] and made = composites_made [OF assms(2) composites_defined(2)]
    and groups = groups_synced [OF assms(3) groups_defined(2)]
  show names: "dom (realm_roles R') = dom (realm_roles R) \<union> range api_role_value \<union> rd_name ` set COMPOSITE_ROLES"
    using added made groups(2) by (simp add: all_api_roles_UNIV)
  show "synced R'"
    using made groups(1,3) unfolding synced_def names by auto
  show "\<forall>n\<in>dom (realm_roles R). n \<notin> rd_name ` set COMPOSITE_ROLES \<longrightarrow> realm_children R' n = realm_children R n"
    using added made groups(3) by simp
  show "\<forall>g\<in>set (all_groups (realm_groups R)). \<forall>i. group_id g = Some i \<longrightarrow> group_name g \<notin> gd_name ` set GROUP_DEFINITIONS \<longrightarrow>
       realm_group_roles R' i = realm_group_roles R i \<and> realm_attributes R' i = realm_attributes R i"
    using added made groups(4) by simp
qed

lemma setup_again:
  assumes "synced R" "roles_added (map api_role_value all_api_roles) R R1" "steps composite_made COMPOSITE_ROLES R1 R2" "sync_groups R2 R'"
  shows "R' = R"
proof -
  have "R1 = R"
    using assms(1,2) by (auto simp: roles_added_def synced_def all_api_roles_UNIV)
  then have "R2 = R"
    using composites_noop [OF assms(3)] assms(1) by (auto simp: synced_def)
  then show ?thesis
    using groups_noop [OF assms(4)] assms(1) by (auto simp: synced_def)
qed

lemma setup_counts_synced: "synced R \<Longrightarrow> basic_created (setup_counts R) = 0"
  by (auto simp: synced_def setup_counts_def Let_def how_many_def filter_empty_conv)

text \<open>
  C31. Against a server that answers, the synchronisation ends without a failure with every API role
  present, every composite role and every group holding exactly what is defined for it, and every
  other role and group as it was; it reports how many roles were missing, and a second run finds
  nothing to change.
\<close>

theorem setup_converges:
  assumes "keycloak_serves K u v" "in_realm v u R s"
  shows "\<exists>s' R'. setupAllRoles K s = (Inr (setup_counts R), s') \<and> in_realm v u R' s' \<and> synced R' \<and>
     dom (realm_roles R') = dom (realm_roles R) \<union> range api_role_value \<union> rd_name ` set COMPOSITE_ROLES \<and>
     (\<forall>n\<in>dom (realm_roles R). n \<notin> rd_name ` set COMPOSITE_ROLES \<longrightarrow> realm_children R' n = realm_children R n) \<and>
     (\<forall>g\<in>set (all_groups (realm_groups R)). \<forall>i. group_id g = Some i \<longrightarrow> group_name g \<notin> gd_name ` set GROUP_DEFINITIONS \<longrightarrow>
        realm_group_roles R' i = realm_group_roles R i \<and> realm_attributes R' i = realm_attributes R i) \<and>
     (\<exists>c s''. setupAllRoles K s' = (Inr c, s'') \<and> in_realm v u R' s'' \<and> basic_created c = 0)"
proof -
  obtain R1 R2 R' s' where run: "setupAllRoles K s = (Inr (setup_counts R), s')" "in_realm v u R' s'"
    "roles_added (map api_role_value all_api_roles) R R1" "steps composite_made COMPOSITE_ROLES R1 R2" "sync_groups R2 R'"
    using yieldsD [OF setupAllRoles_yields [OF assms(1)] assms(2)] by blast
  note ok = setup_synced [OF run(3-5)]
  obtain Q1 Q2 R'' s'' where again: "setupAllRoles K s' = (Inr (setup_counts R'), s'')" "in_realm v u R'' s''"
    "roles_added (map api_role_value all_api_roles) R' Q1" "steps composite_made COMPOSITE_ROLES Q1 Q2" "sync_groups Q2 R''"
    using yieldsD [OF setupAllRoles_yields [OF assms(1)] run(2)] by blast
  have "R'' = R'"
    by (rule setup_again [OF ok(1) again(3-5)])
  then show ?thesis
    using run(1,2) ok again(1,2) setup_counts_synced [OF ok(1)] by blast
qed

section \<open>A server in memory\<close>

text \<open>
  A server that answers as documented: the id of a role is its name, and that of a group its position.
  A new role is held by no other yet.
\<close>

record memory_server =
  ms_roles :: "string list"
  ms_children :: "string \<Rightarrow> string list"
  ms_groups :: "string list"
  ms_attributes :: "string \<Rightarrow> (string \<times> string list) list"
  ms_group_roles :: "string \<Rightarrow> string list"

definition ms_id :: "nat \<Rightarrow> string" where
  "ms_id j = replicate (Suc j) CHR ''x''"

definition ms_group_list :: "string list \<Rightarrow> OidcGroup list" where
  "ms_group_list ns = map (\<lambda>j. OidcGroup (Some (ms_id j)) (ns ! j) None []) [0..<length ns]"

definition ms_known :: "memory_server \<Rightarrow> string list \<Rightarrow> string list" where
  "ms_known k ns = filter (\<lambda>n. n \<in> set (ms_roles k)) ns"

definition ms_role :: "string \<Rightarrow> OidcRole" where
  "ms_role n = \<lparr>role_id = Some n, role_name = n, role_description = None, role_composite = None, role_clientRole = None\<rparr>"

definition ms_view :: "memory_server \<Rightarrow> realm" where
  "ms_view k = \<lparr>realm_roles = (\<lambda>n. if n \<in> set (ms_roles k) then Some n else None),
     realm_children = (\<lambda>n. set (ms_known k (ms_children k n))), realm_groups = ms_group_list (ms_groups k),
     realm_attributes = ms_attributes k, realm_group_roles = (\<lambda>i. set (ms_known k (ms_group_roles k i)))\<rparr>"

definition ms_add_role :: "string \<Rightarrow> memory_server \<Rightarrow> memory_server" where
  "ms_add_role n k = k\<lparr>ms_roles := n # ms_roles k,
     ms_children := (\<lambda>m. if m = n then [] else ms_known k (ms_children k m)),
     ms_group_roles := (\<lambda>i. ms_known k (ms_group_roles k i))\<rparr>"

definition memory_keycloak :: "memory_server keycloak" where
  "memory_keycloak = \<lparr>
     post_token = (\<lambda>k. (Inr ''token'', k)),
     get_clients = (\<lambda>k. (Inr [''client''], k)),
     get_roles = (\<lambda>u k. (Inr (map ms_role (ms_roles k)), k)),
     get_role = (\<lambda>u n k. (if n \<in> set (ms_roles k) then Inr (ms_role n) else Inl (HttpResponse 404), k)),
     post_role = (\<lambda>u r k. if role_name r \<in> set (ms_roles k) then (Inl (HttpResponse 409), k) else (Inr (), ms_add_role (role_name r) k)),
     delete_role = (\<lambda>u n k. (Inr (), k\<lparr>ms_roles := removeAll n (ms_roles k)\<rparr>)),
     get_groups = (\<lambda>k. (Inr (ms_group_list (ms_groups k)), k)),
     get_group = (\<lambda>i k. (Inr (OidcGroup (Some i) (ms_groups k ! (length i - 1)) None []), k)),
     post_group = (\<lambda>n a k. (Inr (Some (''groups/'' @ ms_id (length (ms_groups k)))),
       k\<lparr>ms_groups := ms_groups k @ [n], ms_attributes := (ms_attributes k)(ms_id (length (ms_groups k)) := a),
         ms_group_roles := (ms_group_roles k)(ms_id (length (ms_groups k)) := [])\<rparr>)),
     delete_group = (\<lambda>i k. (Inl NoResponse, k)),
     put_group = (\<lambda>i g k. (Inr (), k\<lparr>ms_attributes := (ms_attributes k)(i := the (group_attributes g))\<rparr>)),
     get_group_roles = (\<lambda>i u k. (Inr (map ms_role (ms_known k (ms_group_roles k i))), k)),
     post_group_roles = (\<lambda>i u rs k. (Inr (), k\<lparr>ms_group_roles := (ms_group_roles k)(i := ms_group_roles k i @ map role_name rs)\<rparr>)),
     delete_group_roles = (\<lambda>i u rs k. (Inr (), k\<lparr>ms_group_roles := (ms_group_roles k)
       (i := filter (\<lambda>n. n \<notin> role_name ` set rs) (ms_group_roles k i))\<rparr>)),
     get_composites = (\<lambda>u n k. (Inr (map ms_role (ms_known k (ms_children k n))), k)),
     post_composites = (\<lambda>u n rs k. (Inr (), k\<lparr>ms_children := (ms_children k)(n := ms_children k n @ map role_name rs)\<rparr>)),
     delete_composites = (\<lambda>u n rs k. (Inr (), k\<lparr>ms_children := (ms_children k)
       (n := filter (\<lambda>m. m \<notin> role_name ` set rs) (ms_children k n))\<rparr>))\<rparr>"

lemma ms_role_simps [simp]: "role_name (ms_role n) = n" "role_id (ms_role n) = Some n"
  by (simp_all add: ms_role_def)

lemma dom_ms_view [simp]: "dom (realm_roles (ms_view k)) = set (ms_roles k)"
  by (auto simp: ms_view_def split: if_splits)

lemma known_ms_view: "known (ms_view k) r \<longleftrightarrow> role_name r \<in> set (ms_roles k) \<and> role_id r = Some (role_name r)"
  by (auto simp: known_def ms_view_def)

lemma role_names_map [simp]: "role_name ` ms_role ` N = N"
  by force

lemma memory_serves_roles: "serves_roles memory_keycloak ''client'' ms_view k"
  by (auto simp: serves_roles_def answers_def memory_keycloak_def known_ms_view)
    (auto simp: ms_view_def new_role_def ms_add_role_def ms_known_def fun_eq_iff intro!: exI [of _ "role_name r" for r])

lemma memory_serves_composites: "serves_composites memory_keycloak u ms_view k"
  by (auto simp: serves_composites_def answers_def memory_keycloak_def known_ms_view set_children_def)
    (auto simp: ms_view_def ms_known_def fun_eq_iff)

lemma memory_serves_group_roles: "serves_group_roles memory_keycloak u ms_view k"
  by (auto simp: serves_group_roles_def answers_def memory_keycloak_def known_ms_view set_group_roles_def)
    (auto simp: ms_view_def ms_known_def fun_eq_iff)

lemma ms_id_inj [simp]: "ms_id i = ms_id j \<longleftrightarrow> i = j"
proof
  assume "ms_id i = ms_id j"
  then have "length (ms_id i) = length (ms_id j)"
    by simp
  then show "i = j"
    by (simp add: ms_id_def)
qed simp

lemma location_ms_id: "location_id (''groups/'' @ ms_id j) = ms_id j"
proof -
  have "takeWhile (\<lambda>c. c \<noteq> CHR ''/'') (replicate n CHR ''x'' @ ''/spuorg'') = replicate n CHR ''x''" for n
    by (induction n) simp_all
  then show ?thesis
    by (simp add: location_id_def ms_id_def del: replicate_Suc)
qed

lemma all_ms_groups [simp]: "all_groups (ms_group_list ns) = ms_group_list ns"
proof -
  have "all_groups (map (\<lambda>j. OidcGroup (Some (ms_id j)) (f j) None []) js) = map (\<lambda>j. OidcGroup (Some (ms_id j)) (f j) None []) js" for f js
    by (induction js) auto
  then show ?thesis
    by (simp add: ms_group_list_def)
qed

lemma ms_group_list_snoc: "ms_group_list (ns @ [n]) = ms_group_list ns @ [OidcGroup (Some (ms_id (length ns))) n None []]"
  by (simp add: ms_group_list_def nth_append)

lemma ms_group_ids:
  "distinct (map group_id (ms_group_list ns))" "None \<notin> set (map group_id (ms_group_list ns))"
  "map group_shape (ms_group_list ns) = ms_group_list ns"
  by (auto simp: ms_group_list_def distinct_map inj_on_def comp_def)

lemma ms_group_at: "g \<in> set (ms_group_list ns) \<Longrightarrow> group_id g = Some i \<Longrightarrow> group_name g = ns ! (length i - 1)"
  by (auto simp: ms_group_list_def ms_id_def)

lemma ms_post_group:
  "answers (post_group memory_keycloak n a) k
     (\<lambda>l k'. l \<noteq> None \<and> l \<noteq> Some [] \<and> ms_view k' = new_group (location_id (the l)) n a (ms_view k))"
  unfolding answers_def memory_keycloak_def
  by (simp only: keycloak.simps prod.case sum.case option.sel location_ms_id)
    (simp add: ms_view_def new_group_def ms_group_list_snoc ms_known_def fun_eq_iff)

lemma memory_serves_groups: "serves_groups memory_keycloak ms_view k"
proof -
  have groups: "realm_groups (ms_view k) = ms_group_list (ms_groups k)"
    by (simp add: ms_view_def)
  have "answers (get_groups memory_keycloak) k (\<lambda>gs k'. map group_shape gs = ms_group_list (ms_groups k) \<and> ms_view k' = ms_view k)"
    by (simp add: answers_def memory_keycloak_def ms_group_ids)
  moreover have "answers (get_group memory_keycloak i) k (\<lambda>g' k'. group_id g' = Some i \<and> group_name g' = group_name g \<and> ms_view k' = ms_view k)"
    if "g \<in> set (ms_group_list (ms_groups k))" "group_id g = Some i" for g i
    using ms_group_at [OF that] by (simp add: answers_def memory_keycloak_def)
  moreover have "answers (put_group memory_keycloak i g) k (\<lambda>_ k'. ms_view k' = set_attributes i a (ms_view k))"
    if "group_attributes g = Some a" for g i a
    using that by (simp add: answers_def memory_keycloak_def ms_view_def set_attributes_def ms_known_def)
  ultimately show ?thesis
    unfolding serves_groups_def groups all_ms_groups using ms_group_ids(1,2) ms_post_group by blast
qed

lemma memory_serves: "keycloak_serves memory_keycloak ''client'' ms_view"
  by (simp add: keycloak_serves_def memory_serves_roles memory_serves_composites memory_serves_groups memory_serves_group_roles)

definition empty_server :: "memory_server oidc" where
  "empty_server = \<lparr>accessToken = None, clientUuid = None, server = \<lparr>ms_roles = [], ms_children = (\<lambda>_. []),
     ms_groups = [], ms_attributes = (\<lambda>_. []), ms_group_roles = (\<lambda>_. [])\<rparr>\<rparr>"

lemma empty_in_realm: "in_realm ms_view ''client'' (ms_view (server empty_server)) empty_server"
  by (simp add: in_realm_def empty_server_def)

theorem setup_converges_witness:
  "\<exists>s' R'. setupAllRoles memory_keycloak empty_server = (Inr (setup_counts (ms_view (server empty_server))), s') \<and>
     in_realm ms_view ''client'' R' s' \<and> synced R'"
  using setup_converges [OF memory_serves empty_in_realm] by (elim exE conjE) (intro exI conjI)

section \<open>Where the report and the setting mislead\<close>

text \<open>A composite role that could not be given its children counts as created.\<close>

lemma failed_composites_reported:
  assumes "\<And>n rs k. post_composites K u n rs k = (Inl f, k)" "clientUuid s = Some u" "u \<noteq> []"
    and "post_role K u (role_payload (rd_name d) (rd_description d)) (server s) = (Inl (HttpResponse 409), server s)"
    and "get_role K u (rd_name d) (server s) = (Inr r, server s)" "get_composites K u (rd_name d) (server s) = (Inr [], server s)"
    and "rd_compositeRoles d = Some [c]" "get_role K u c (server s) = (Inr q, server s)"
  shows "createCompositeRole K d s = (Inr (), s)"
proof -
  have client: "getClientUuid K s = (Inr u, s)"
    using assms(2,3) by (simp add: getClientUuid_def bind_op_def gets_op_def cached_def return_op_def)
  have [simp]: "s\<lparr>server := server s\<rparr> = s"
    by simp
  show ?thesis
    using assms client
    by (simp add: createCompositeRole_def syncComposites_def createRole_def getRole_def getCompositeRoles_def
        removeCompositeRoles_def rolesToRemove_def desired_roles_def js_unique_def demand_def or_empty_def offer_def
        attempt_op_def bind_op_def ask_def return_op_def)
qed

text \<open>The setting \<open>KEYCLOAK_AUTO_SYNC_ROLES=false\<close> does not turn the synchronisation off.\<close>

lemma auto_sync_not_off: "onModuleInit (Some ''false'') K = onModuleInit None K"
  by (simp add: onModuleInit_def)

text \<open>No composite role grants the editing of a released release.\<close>

lemma edit_released_not_granted: "d \<in> set COMPOSITE_ROLES \<Longrightarrow> api_role_value EDIT_RELEASED_RELEASE \<notin> set (desired_roles d)"
  by (auto simp: COMPOSITE_ROLES_def desired_roles_def contributor_roles_def administrator_roles_def)

end
