(* ===== verification/Upload_Versions.thy ===== *)
theory Upload_Versions
  imports Js_Values
begin

text \<open>
  Versions uploaded by artifact or manifest (\<open>apps/upload/src/upload.service.ts\<close>): the rows of
  \<open>upload_version\<close>, the move of an image to the object store, the status of an upload and the flag
  of the latest version. What the service starts without awaiting it is a task. The download of
  images, the client of the object store and the collation of the database are parameters.
\<close>

section \<open>State\<close>

datatype AssetTypeEnum = ARTIFACT | DOCKER_IMAGE

datatype UploadStatus =
    STARTED
  | DOWNLOADING_FROM_URL
  | FAIL_TO_DOWNLOAD
  | UPLOADING_TO_S3
  | FAIL_TO_UPLOAD
  | IN_PROGRESS
  | READY
  | ERROR

record UploadVersionEntity =
  uv_catalogId :: nat
  uv_assetType :: AssetTypeEnum
  uv_createdDate :: nat
  uv_platform :: string
  uv_component :: string
  uv_formation :: string
  uv_OS :: "string option"
  uv_virtualSize :: nat
  uv_version :: string
  uv_baseVersion :: "string option"
  uv_prevVersion :: "string option"
  uv_metadata :: "(string \<times> json) list"
  uv_url :: "string option"
  uv_uploadStatus :: UploadStatus
  uv_latest :: bool
  uv_project :: "nat option"

text \<open>The bodies of the two uploads; what the entity has no column for is kept as metadata.\<close>

record upload_artifact =
  ua_platform :: string
  ua_component :: string
  ua_formation :: string
  ua_OS :: "string option"
  ua_version :: string
  ua_project :: "nat option"
  ua_size :: "nat option"
  ua_url :: string
  ua_baseVersion :: "string option"
  ua_prevVersion :: "string option"
  ua_other :: "(string \<times> json) list"

record upload_manifest =
  um_product :: string
  um_name :: string
  um_formation :: string
  um_version :: string
  um_project :: "nat option"
  um_size :: "nat option"
  um_assetType :: "AssetTypeEnum option"
  um_fileName :: "string option"
  um_registryUrl :: "string option"
  um_baseVersion :: "string option"
  um_prevVersion :: "string option"
  um_other :: "(string \<times> json) list"

datatype UploadEventEnum = UploadFailed | UploadReady

record UploadEventDto =
  ue_catalogId :: nat
  ue_name :: string
  ue_platform :: string
  ue_formation :: string
  ue_OS :: "string option"
  ue_event :: UploadEventEnum
  ue_latest :: bool

datatype uv_task =
    MoveImage upload_artifact UploadVersionEntity
  | UpdateStatus nat UploadStatus
  | UpdateLatestFlag nat

record uv_state =
  uv_rows :: "UploadVersionEntity list"
  uv_next :: nat
  uv_now :: nat
  uv_bucket :: "string list"
  uv_events :: "UploadEventDto list"
  uv_tasks :: "uv_task list"

text \<open>A failed insert, by its code.\<close>

datatype save_fault = UniqueViolation | OtherFault

record uv_env =
  download_image :: "string \<Rightarrow> string option"
  put_file :: "string \<Rightarrow> string \<Rightarrow> bool"
  presigned_url :: "string \<Rightarrow> string"
  insert_fault :: "uv_state \<Rightarrow> bool"
  version_le :: "string \<Rightarrow> string \<Rightarrow> bool"

section \<open>Rows\<close>

definition opt_entry :: "string \<Rightarrow> string option \<Rightarrow> (string \<times> json) list" where
  "opt_entry k x = (case x of None \<Rightarrow> [] | Some t \<Rightarrow> [(k, JStr t)])"

text \<open>\<open>size = 0\<close>, the id and the date are set by the insert.\<close>

definition fromArtifact :: "upload_artifact \<Rightarrow> UploadVersionEntity" where
  "fromArtifact a = \<lparr>uv_catalogId = 0, uv_assetType = ARTIFACT, uv_createdDate = 0, uv_platform = ua_platform a,
     uv_component = ua_component a, uv_formation = ua_formation a, uv_OS = ua_OS a,
     uv_virtualSize = (case ua_size a of None \<Rightarrow> 0 | Some n \<Rightarrow> n), uv_version = ua_version a,
     uv_baseVersion = ua_baseVersion a, uv_prevVersion = ua_prevVersion a,
     uv_metadata = (''url'', JStr (ua_url a)) # opt_entry ''baseVersion'' (ua_baseVersion a) @
       opt_entry ''prevVersion'' (ua_prevVersion a) @ ua_other a,
     uv_url = None, uv_uploadStatus = STARTED, uv_latest = False, uv_project = ua_project a\<rparr>"

definition fromManifest :: "upload_manifest \<Rightarrow> string \<Rightarrow> AssetTypeEnum \<Rightarrow> UploadVersionEntity" where
  "fromManifest m url ty = \<lparr>uv_catalogId = 0, uv_assetType = ty, uv_createdDate = 0, uv_platform = um_product m,
     uv_component = um_name m, uv_formation = um_formation m, uv_OS = None,
     uv_virtualSize = (case um_size m of None \<Rightarrow> 0 | Some n \<Rightarrow> n), uv_version = um_version m,
     uv_baseVersion = um_baseVersion m, uv_prevVersion = um_prevVersion m,
     uv_metadata = opt_entry ''fileName'' (um_fileName m) @ opt_entry ''registryUrl'' (um_registryUrl m) @
       opt_entry ''baseVersion'' (um_baseVersion m) @ opt_entry ''prevVersion'' (um_prevVersion m) @ um_other m,
     uv_url = Some url, uv_uploadStatus = STARTED, uv_latest = False, uv_project = um_project m\<rparr>"

definition same_line :: "UploadVersionEntity \<Rightarrow> UploadVersionEntity \<Rightarrow> bool" where
  "same_line a b \<longleftrightarrow> uv_platform a = uv_platform b \<and> uv_component a = uv_component b \<and> uv_formation a = uv_formation b"

definition same_version :: "UploadVersionEntity \<Rightarrow> UploadVersionEntity \<Rightarrow> bool" where
  "same_version a b \<longleftrightarrow> same_line a b \<and> uv_version a = uv_version b"

definition insert_version ::
  "uv_env \<Rightarrow> UploadVersionEntity \<Rightarrow> uv_state \<Rightarrow> (save_fault + UploadVersionEntity) \<times> uv_state" where
  "insert_version C e s =
     (if insert_fault C s then (Inl OtherFault, s)
      else if list_ex (same_version e) (uv_rows s) then (Inl UniqueViolation, s)
      else
        let e1 = e\<lparr>uv_catalogId := uv_next s, uv_createdDate := uv_now s\<rparr>
        in (Inr e1, s\<lparr>uv_rows := uv_rows s @ [e1], uv_next := Suc (uv_next s)\<rparr>))"

text \<open>\<open>save\<close> of an entity that has a row writes what differs, that is, the entity.\<close>

definition save_version :: "UploadVersionEntity \<Rightarrow> uv_state \<Rightarrow> uv_state" where
  "save_version e s = s\<lparr>uv_rows := update_where (\<lambda>r. uv_catalogId r = uv_catalogId e) (\<lambda>_. e) (uv_rows s)\<rparr>"

definition find_version :: "nat \<Rightarrow> uv_state \<Rightarrow> UploadVersionEntity option" where
  "find_version i s = List.find (\<lambda>r. uv_catalogId r = i) (uv_rows s)"

definition add_task :: "uv_task \<Rightarrow> uv_state \<Rightarrow> uv_state" where
  "add_task t s = s\<lparr>uv_tasks := uv_tasks s @ [t]\<rparr>"

section \<open>Uploads\<close>

definition image_key :: "upload_artifact \<Rightarrow> string" where
  "image_key a = ua_platform a @ ''/'' @ ua_component a @ ''/'' @ ua_formation a @ ''/'' @ ua_version a @ ''/'' @
     ua_version a @ ''.tar''"

text \<open>The part of \<open>moveImageToS3\<close> after its first step, the row being \<open>DOWNLOADING_FROM_URL\<close>.\<close>

definition moveImageToS3 :: "uv_env \<Rightarrow> upload_artifact \<Rightarrow> UploadVersionEntity \<Rightarrow> uv_state \<Rightarrow> uv_state" where
  "moveImageToS3 C a e s =
     (case download_image C (ua_url a) of
        None \<Rightarrow> save_version (e\<lparr>uv_uploadStatus := FAIL_TO_DOWNLOAD\<rparr>) s
      | Some path \<Rightarrow>
          let s1 = save_version (e\<lparr>uv_uploadStatus := UPLOADING_TO_S3\<rparr>) s in
          if put_file C path (image_key a) then
            save_version (e\<lparr>uv_uploadStatus := READY, uv_url := Some (image_key a)\<rparr>)
              (s1\<lparr>uv_bucket := List.insert (image_key a) (uv_bucket s1)\<rparr>)
          else save_version (e\<lparr>uv_uploadStatus := FAIL_TO_UPLOAD\<rparr>) s1)"

text \<open>
  \<open>if (error.code = '23505')\<close> assigns, so that every failure of the insert is a conflict. The status
  is set on the entity that is returned, before the download is awaited.
\<close>

definition uploadArtifact ::
  "uv_env \<Rightarrow> upload_artifact \<Rightarrow> uv_state \<Rightarrow> UploadVersionEntity result \<times> uv_state" where
  "uploadArtifact C a s =
     (case insert_version C (fromArtifact a) s of
        (Inl _, s1) \<Rightarrow> (Inl ConflictException, s1)
      | (Inr e, s1) \<Rightarrow>
          let e1 = e\<lparr>uv_uploadStatus := DOWNLOADING_FROM_URL\<rparr>
          in (Inr e1, add_task (MoveImage a e1) (save_version e1 s1)))"

text \<open>The version is undefined when the insert fails for another reason than a conflict.\<close>

definition updateUpload ::
  "uv_env \<Rightarrow> UploadVersionEntity \<Rightarrow> uv_state \<Rightarrow> UploadVersionEntity option result \<times> uv_state" where
  "updateUpload C e s =
     (let existing = List.find (same_version e) (uv_rows s) in
      if \<exists>x. existing = Some x \<and> uv_uploadStatus x = ERROR then (Inr existing, s)
      else (case insert_version C e s of
          (Inr e1, s1) \<Rightarrow> (Inr (Some e1), s1)
        | (Inl UniqueViolation, s1) \<Rightarrow> (Inl ConflictException, s1)
        | (Inl OtherFault, s1) \<Rightarrow> (Inr None, s1)))"

definition uploadDockerImage :: "uv_env \<Rightarrow> upload_manifest \<Rightarrow> uv_state \<Rightarrow> nat result \<times> uv_state" where
  "uploadDockerImage C m s =
     (if um_registryUrl m = None \<or> um_registryUrl m = Some [] then (Inl BadRequestException, s)
      else
        let ty = (case um_assetType m of None \<Rightarrow> DOCKER_IMAGE | Some t \<Rightarrow> t) in
        (case updateUpload C (fromManifest m (the (um_registryUrl m)) ty) s of
           (Inl x, s1) \<Rightarrow> (Inl x, s1)
         | (Inr None, s1) \<Rightarrow> (Inl ErrorException, s1)
         | (Inr (Some e), s1) \<Rightarrow> (Inr (uv_catalogId e), add_task (UpdateStatus (uv_catalogId e) READY) s1)))"

definition manifest_file :: "upload_manifest \<Rightarrow> string" where
  "manifest_file m = (case um_fileName m of
       None \<Rightarrow> um_version m @ ''.zip''
     | Some f \<Rightarrow> if f = [] then um_version m @ ''.zip'' else f)"

definition manifest_url :: "upload_manifest \<Rightarrow> string" where
  "manifest_url m = um_product m @ ''/'' @ um_name m @ ''/'' @ um_formation m @ ''/'' @ um_version m @ ''/'' @ manifest_file m"

text \<open>The id and, unless the version is an image of a registry, the URL to upload it to.\<close>

definition uploadManifest :: "uv_env \<Rightarrow> upload_manifest \<Rightarrow> uv_state \<Rightarrow> (nat \<times> string option) result \<times> uv_state" where
  "uploadManifest C m s =
     (let ty = (case um_assetType m of None \<Rightarrow> ARTIFACT | Some t \<Rightarrow> t) in
      if ty = DOCKER_IMAGE then
        (case uploadDockerImage C m s of (Inl x, s1) \<Rightarrow> (Inl x, s1) | (Inr i, s1) \<Rightarrow> (Inr (i, None), s1))
      else
        (case updateUpload C (fromManifest m (manifest_url m) ty) s of
           (Inl x, s1) \<Rightarrow> (Inl x, s1)
         | (Inr None, s1) \<Rightarrow> (Inl ErrorException, s1)
         | (Inr (Some e), s1) \<Rightarrow> (Inr (uv_catalogId e, Some (presigned_url C (manifest_url m))), s1)))"

section \<open>Status and latest flag\<close>

definition set_status :: "nat \<Rightarrow> UploadStatus \<Rightarrow> uv_state \<Rightarrow> uv_state" where
  "set_status i st s = s\<lparr>uv_rows := update_where (\<lambda>r. uv_catalogId r = i) (uv_uploadStatus_update (\<lambda>_. st)) (uv_rows s)\<rparr>"

definition updateUploadStatus :: "nat \<Rightarrow> UploadStatus \<Rightarrow> uv_state \<Rightarrow> unit result \<times> uv_state" where
  "updateUploadStatus i st s =
     (if affected (\<lambda>r. uv_catalogId r = i) (uv_rows s) = 0 then (Inl NotFoundException, s)
      else (Inr (), add_task (UpdateLatestFlag i) (set_status i st s)))"

definition clear_latest :: "UploadVersionEntity \<Rightarrow> uv_state \<Rightarrow> uv_state" where
  "clear_latest b s = s\<lparr>uv_rows := update_where (\<lambda>r. same_line b r \<and> uv_latest r) (uv_latest_update (\<lambda>_. False)) (uv_rows s)\<rparr>"

definition later_version :: "UploadVersionEntity \<Rightarrow> UploadVersionEntity \<Rightarrow> UploadVersionEntity" where
  "later_version a b = (if uv_createdDate a < uv_createdDate b then b else a)"

definition newest_ready :: "UploadVersionEntity \<Rightarrow> uv_state \<Rightarrow> UploadVersionEntity option" where
  "newest_ready b s =
     (case filter (\<lambda>r. same_line b r \<and> uv_uploadStatus r = READY) (uv_rows s) of
        [] \<Rightarrow> None
      | r # rs \<Rightarrow> Some (foldl later_version r rs))"

definition event_of :: "UploadStatus \<Rightarrow> UploadEventEnum option" where
  "event_of st = (if st = ERROR then Some UploadFailed else if st = READY then Some UploadReady else None)"

definition upload_event :: "UploadVersionEntity \<Rightarrow> UploadEventEnum \<Rightarrow> bool \<Rightarrow> UploadEventDto" where
  "upload_event b ev latest = \<lparr>ue_catalogId = uv_catalogId b, ue_name = uv_component b, ue_platform = uv_platform b,
     ue_formation = uv_formation b, ue_OS = uv_OS b, ue_event = ev, ue_latest = latest\<rparr>"

definition sendUploadEvent :: "UploadEventDto \<Rightarrow> uv_state \<Rightarrow> uv_state" where
  "sendUploadEvent e s = s\<lparr>uv_events := uv_events s @ [e]\<rparr>"

definition mark_latest :: "UploadVersionEntity option \<Rightarrow> uv_state \<Rightarrow> uv_state" where
  "mark_latest latestUpload s = (case latestUpload of None \<Rightarrow> s | Some e \<Rightarrow> save_version (e\<lparr>uv_latest := True\<rparr>) s)"

definition updateLatestFlag :: "nat \<Rightarrow> uv_state \<Rightarrow> uv_state" where
  "updateLatestFlag i s =
     (case find_version i s of
        None \<Rightarrow> s
      | Some b \<Rightarrow>
          let s1 = clear_latest b s;
              latestUpload = newest_ready b s1;
              isBaseLatest = (map_option uv_catalogId latestUpload = Some (uv_catalogId b));
              s2 = (case event_of (uv_uploadStatus b) of None \<Rightarrow> s1 | Some ev \<Rightarrow> sendUploadEvent (upload_event b ev isBaseLatest) s1)
          in mark_latest latestUpload s2)"

definition run_uv_task :: "uv_env \<Rightarrow> uv_task \<Rightarrow> uv_state \<Rightarrow> uv_state" where
  "run_uv_task C t s =
     (case t of
        MoveImage a e \<Rightarrow> moveImageToS3 C a e s
      | UpdateStatus i st \<Rightarrow> snd (updateUploadStatus i st s)
      | UpdateLatestFlag i \<Rightarrow> updateLatestFlag i s)"

section \<open>The last version of a project\<close>

record ComponentDto =
  co_name :: string
  co_versionNumber :: string
  co_baseVersion :: "string option"
  co_prevVersion :: "string option"
  co_catalogId :: nat
  co_virtualSize :: nat
  co_category :: json
  co_releaseNotes :: json
  co_latest :: bool
  co_uploadDate :: nat

definition or_undefined :: "string option \<Rightarrow> string option" where
  "or_undefined x = (if x = Some [] then None else x)"

definition fromUploadVersionEntity :: "UploadVersionEntity \<Rightarrow> ComponentDto" where
  "fromUploadVersionEntity e = \<lparr>co_name = uv_component e, co_versionNumber = uv_version e,
     co_baseVersion = or_undefined (uv_baseVersion e), co_prevVersion = or_undefined (uv_prevVersion e),
     co_catalogId = uv_catalogId e, co_virtualSize = uv_virtualSize e,
     co_category = obj_get (uv_metadata e) ''category'', co_releaseNotes = obj_get (uv_metadata e) ''releaseNote'',
     co_latest = uv_latest e, co_uploadDate = uv_createdDate e\<rparr>"

text \<open>The versions are ordered as the texts they are.\<close>

definition greater_version :: "uv_env \<Rightarrow> UploadVersionEntity \<Rightarrow> UploadVersionEntity \<Rightarrow> UploadVersionEntity" where
  "greater_version C a b = (if version_le C (uv_version b) (uv_version a) then a else b)"

definition getLastVersion :: "uv_env \<Rightarrow> nat \<Rightarrow> uv_state \<Rightarrow> ComponentDto result" where
  "getLastVersion C projectId s =
     (case filter (\<lambda>r. uv_project r = Some projectId) (uv_rows s) of
        [] \<Rightarrow> Inl NotFoundException
      | r # rs \<Rightarrow> Inr (fromUploadVersionEntity (foldl (greater_version C) r rs)))"

section \<open>The latest flag\<close>

lemma same_line_refl [simp]: "same_line a a"
  by (simp add: same_line_def)

lemma foldl_later_version:
  "foldl later_version r rs \<in> insert r (set rs) \<and>
   (\<forall>x\<in>insert r (set rs). uv_createdDate x \<le> uv_createdDate (foldl later_version r rs))"
proof (induction rs arbitrary: r)
  case (Cons x rs)
  have "later_version r x \<in> {r, x}" "uv_createdDate r \<le> uv_createdDate (later_version r x)"
    "uv_createdDate x \<le> uv_createdDate (later_version r x)"
    by (simp_all add: later_version_def)
  then show ?case
    using Cons [of "later_version r x"] by fastforce
qed simp

lemma newest_ready_Some:
  assumes "newest_ready b s = Some e"
  shows "e \<in> set (uv_rows s)" "same_line b e" "uv_uploadStatus e = READY"
    "\<And>r. r \<in> set (uv_rows s) \<Longrightarrow> same_line b r \<Longrightarrow> uv_uploadStatus r = READY \<Longrightarrow> uv_createdDate r \<le> uv_createdDate e"
proof -
  obtain r rs where rs: "filter (\<lambda>r. same_line b r \<and> uv_uploadStatus r = READY) (uv_rows s) = r # rs" "e = foldl later_version r rs"
    using assms by (auto simp: newest_ready_def split: list.splits)
  have "insert r (set rs) = {x \<in> set (uv_rows s). same_line b x \<and> uv_uploadStatus x = READY}"
    using arg_cong [OF rs(1), of set] by auto
  then show "e \<in> set (uv_rows s)" "same_line b e" "uv_uploadStatus e = READY"
    "\<And>r. r \<in> set (uv_rows s) \<Longrightarrow> same_line b r \<Longrightarrow> uv_uploadStatus r = READY \<Longrightarrow> uv_createdDate r \<le> uv_createdDate e"
    using foldl_later_version [of r rs] rs(2) by blast+
qed

lemma newest_ready_None:
  "newest_ready b s = None \<longleftrightarrow> (\<forall>r\<in>set (uv_rows s). \<not> (same_line b r \<and> uv_uploadStatus r = READY))"
proof -
  have "newest_ready b s = None \<longleftrightarrow> filter (\<lambda>r. same_line b r \<and> uv_uploadStatus r = READY) (uv_rows s) = []"
    by (simp add: newest_ready_def split: list.split)
  then show ?thesis
    by (simp add: filter_empty_conv)
qed

definition ids_distinct :: "uv_state \<Rightarrow> bool" where
  "ids_distinct s \<longleftrightarrow> distinct (map uv_catalogId (uv_rows s))"

text \<open>What the flag of a row becomes when the newest of the line is known.\<close>

definition with_latest :: "UploadVersionEntity \<Rightarrow> UploadVersionEntity option \<Rightarrow> UploadVersionEntity \<Rightarrow> UploadVersionEntity" where
  "with_latest b newest r = (if same_line b r then r\<lparr>uv_latest := (map_option uv_catalogId newest = Some (uv_catalogId r))\<rparr> else r)"

text \<open>What clearing does to one row.\<close>

definition cleared :: "UploadVersionEntity \<Rightarrow> UploadVersionEntity \<Rightarrow> UploadVersionEntity" where
  "cleared b r = (if same_line b r \<and> uv_latest r then r\<lparr>uv_latest := False\<rparr> else r)"

lemma cleared_simps [simp]:
  "uv_catalogId (cleared b r) = uv_catalogId r" "same_line b (cleared b r) = same_line b r"
  "uv_uploadStatus (cleared b r) = uv_uploadStatus r"
  by (simp_all add: cleared_def same_line_def)

lemma cleared_line: "same_line b r \<Longrightarrow> cleared b r = r\<lparr>uv_latest := False\<rparr>"
  by (cases r) (simp add: cleared_def)

lemma clear_latest_rows: "uv_rows (clear_latest b s) = map (cleared b) (uv_rows s)"
  by (simp add: clear_latest_def update_where_def cleared_def [abs_def])

lemma newest_ready_clear:
  "newest_ready b (clear_latest b s) = map_option (uv_latest_update (\<lambda>_. False)) (newest_ready b s)"
proof -
  have fold: "foldl later_version (r\<lparr>uv_latest := False\<rparr>) (map (uv_latest_update (\<lambda>_. False)) rs) =
      (foldl later_version r rs)\<lparr>uv_latest := False\<rparr>" for r rs
  proof (induction rs arbitrary: r)
    case (Cons x rs)
    have "later_version (r\<lparr>uv_latest := False\<rparr>) (x\<lparr>uv_latest := False\<rparr>) = (later_version r x)\<lparr>uv_latest := False\<rparr>"
      by (simp add: later_version_def)
    then show ?case
      using Cons by simp
  qed simp
  let ?P = "\<lambda>r. same_line b r \<and> uv_uploadStatus r = READY"
  have "filter ?P (map (cleared b) rs) = map (uv_latest_update (\<lambda>_. False)) (filter ?P rs)" for rs
    by (induction rs) (auto simp: cleared_line)
  then show ?thesis
    by (simp add: newest_ready_def clear_latest_rows fold split: list.split)
qed

lemma updateLatestFlag_rows:
  assumes "ids_distinct s" "find_version i s = Some b"
  shows "uv_rows (updateLatestFlag i s) = map (with_latest b (newest_ready b s)) (uv_rows s)"
proof -
  let ?top = "map_option (uv_latest_update (\<lambda>_. False)) (newest_ready b s)"
  have "uv_rows (updateLatestFlag i s) = uv_rows (mark_latest ?top (clear_latest b s))"
    using assms(2)
    by (simp add: updateLatestFlag_def Let_def newest_ready_clear sendUploadEvent_def mark_latest_def save_version_def
        split: option.split)
  also have "\<dots> = map (with_latest b (newest_ready b s)) (uv_rows s)"
  proof (cases "newest_ready b s")
    case None
    have "cleared b r = with_latest b None r" for r
      by (cases r) (simp add: with_latest_def cleared_def)
    then show ?thesis
      using None by (simp add: mark_latest_def clear_latest_rows)
  next
    case (Some e)
    have e: "e \<in> set (uv_rows s)" "same_line b e"
      using newest_ready_Some [OF Some] by blast+
    have "(if uv_catalogId r = uv_catalogId e then e\<lparr>uv_latest := True\<rparr> else cleared b r) = with_latest b (Some e) r"
      if r: "r \<in> set (uv_rows s)" for r
    proof (cases "uv_catalogId r = uv_catalogId e")
      case True
      then have "r = e"
        using assms(1) r e(1) by (auto simp: ids_distinct_def distinct_map inj_on_def)
      then show ?thesis
        using e(2) by (simp add: with_latest_def)
    next
      case False
      then show ?thesis
        by (cases r) (simp add: with_latest_def cleared_def)
    qed
    then show ?thesis
      using Some by (simp add: mark_latest_def save_version_def clear_latest_rows update_where_def)
  qed
  finally show ?thesis .
qed

lemma find_version_Some: "find_version i s = Some b \<Longrightarrow> b \<in> set (uv_rows s) \<and> uv_catalogId b = i"
  by (auto simp: find_version_def find_Some_iff)

lemma with_latest_simps [simp]:
  "uv_catalogId (with_latest b n r) = uv_catalogId r" "uv_uploadStatus (with_latest b n r) = uv_uploadStatus r"
  "uv_createdDate (with_latest b n r) = uv_createdDate r" "same_line b (with_latest b n r) = same_line b r"
  "same_line b r \<Longrightarrow> uv_latest (with_latest b n r) = (map_option uv_catalogId n = Some (uv_catalogId r))"
  by (simp_all add: with_latest_def same_line_def)

lemma with_latest_other [simp]: "\<not> same_line b r \<Longrightarrow> with_latest b n r = r"
  by (simp add: with_latest_def)

definition line_ready :: "UploadVersionEntity \<Rightarrow> uv_state \<Rightarrow> UploadVersionEntity set" where
  "line_ready b s = {r \<in> set (uv_rows s). same_line b r \<and> uv_uploadStatus r = READY}"

definition line_latest :: "UploadVersionEntity \<Rightarrow> uv_state \<Rightarrow> UploadVersionEntity set" where
  "line_latest b s = {r \<in> set (uv_rows s). same_line b r \<and> uv_latest r}"

lemma flag_is_newest:
  assumes "ids_distinct s" "find_version i s = Some b"
  shows "line_latest b (updateLatestFlag i s) = (with_latest b (newest_ready b s)) ` set_option (newest_ready b s)"
proof -
  let ?n = "newest_ready b s"
  have "line_latest b (updateLatestFlag i s) =
      with_latest b ?n ` {r \<in> set (uv_rows s). same_line b r \<and> map_option uv_catalogId ?n = Some (uv_catalogId r)}"
    unfolding line_latest_def updateLatestFlag_rows [OF assms] by auto
  also have "{r \<in> set (uv_rows s). same_line b r \<and> map_option uv_catalogId ?n = Some (uv_catalogId r)} = set_option ?n"
  proof (cases ?n)
    case (Some e)
    note newest_ready_Some(1,2) [OF Some]
    then show ?thesis
      using assms(1) Some by (auto simp: ids_distinct_def distinct_map inj_on_def)
  qed simp
  finally show ?thesis .
qed

lemma flag_ready:
  assumes "ids_distinct s" "find_version i s = Some b"
  shows "line_latest b (updateLatestFlag i s) \<subseteq> line_ready b (updateLatestFlag i s)"
    "r \<in> line_latest b (updateLatestFlag i s) \<Longrightarrow> q \<in> line_ready b (updateLatestFlag i s) \<Longrightarrow> uv_createdDate q \<le> uv_createdDate r"
    "line_latest b (updateLatestFlag i s) = {} \<longleftrightarrow> line_ready b (updateLatestFlag i s) = {}"
    "r \<in> line_latest b (updateLatestFlag i s) \<Longrightarrow> q \<in> line_latest b (updateLatestFlag i s) \<Longrightarrow> q = r"
proof -
  have ready: "line_ready b (updateLatestFlag i s) = with_latest b (newest_ready b s) ` line_ready b s"
    unfolding line_ready_def updateLatestFlag_rows [OF assms] by auto
  have newest: "e \<in> line_ready b s \<and> (\<forall>q\<in>line_ready b s. uv_createdDate q \<le> uv_createdDate e)" if "newest_ready b s = Some e" for e
    using newest_ready_Some [OF that] by (simp add: line_ready_def)
  show "line_latest b (updateLatestFlag i s) \<subseteq> line_ready b (updateLatestFlag i s)"
    using newest unfolding flag_is_newest [OF assms] ready by auto
  show "r \<in> line_latest b (updateLatestFlag i s) \<Longrightarrow> q \<in> line_ready b (updateLatestFlag i s) \<Longrightarrow> uv_createdDate q \<le> uv_createdDate r"
    using newest unfolding flag_is_newest [OF assms] ready by auto
  show "line_latest b (updateLatestFlag i s) = {} \<longleftrightarrow> line_ready b (updateLatestFlag i s) = {}"
    unfolding flag_is_newest [OF assms] ready by (cases "newest_ready b s") (use newest newest_ready_None [of b s] in \<open>auto simp: line_ready_def\<close>)
  show "r \<in> line_latest b (updateLatestFlag i s) \<Longrightarrow> q \<in> line_latest b (updateLatestFlag i s) \<Longrightarrow> q = r"
    unfolding flag_is_newest [OF assms] by (cases "newest_ready b s") auto
qed

lemma updateLatestFlag_others:
  assumes "ids_distinct s" "find_version i s = Some b"
  shows "filter (\<lambda>r. \<not> same_line b r) (uv_rows (updateLatestFlag i s)) = filter (\<lambda>r. \<not> same_line b r) (uv_rows s)"
proof -
  have "filter (\<lambda>r. \<not> same_line b r) (map (with_latest b n) rs) = filter (\<lambda>r. \<not> same_line b r) rs" for n rs
    by (induction rs) auto
  then show ?thesis
    by (simp add: updateLatestFlag_rows [OF assms])
qed

lemma updateLatestFlag_events:
  assumes "ids_distinct s" "find_version i s = Some b"
  shows "uv_events (updateLatestFlag i s) = uv_events s @
      (case event_of (uv_uploadStatus b) of None \<Rightarrow> []
       | Some ev \<Rightarrow> [upload_event b ev (\<exists>r\<in>line_latest b (updateLatestFlag i s). uv_catalogId r = i)])"
proof -
  let ?n = "newest_ready b s"
  have flag: "(\<exists>r\<in>line_latest b (updateLatestFlag i s). uv_catalogId r = i) \<longleftrightarrow> map_option uv_catalogId ?n = Some i"
    unfolding flag_is_newest [OF assms] by (cases ?n) auto
  have mark: "uv_events (mark_latest top s2) = uv_events s2" for top s2
    by (simp add: mark_latest_def save_version_def split: option.split)
  have clear: "uv_events (clear_latest b s) = uv_events s"
    by (simp add: clear_latest_def)
  have "map_option uv_catalogId (map_option (uv_latest_update (\<lambda>_. False)) ?n) = map_option uv_catalogId ?n"
    by (cases ?n) simp_all
  then show ?thesis
    unfolding flag using find_version_Some [OF assms(2)]
    by (simp add: updateLatestFlag_def assms(2) Let_def newest_ready_clear mark clear sendUploadEvent_def
        del: map_option_eq_Some option.map_comp split: option.split)
qed

definition with_status :: "nat \<Rightarrow> UploadStatus \<Rightarrow> UploadVersionEntity \<Rightarrow> UploadVersionEntity" where
  "with_status i st r = (if uv_catalogId r = i then r\<lparr>uv_uploadStatus := st\<rparr> else r)"

lemma with_status_simps [simp]:
  "uv_catalogId (with_status i st r) = uv_catalogId r" "same_line b (with_status i st r) = same_line b r"
  "uv_uploadStatus (with_status i st r) = (if uv_catalogId r = i then st else uv_uploadStatus r)"
  by (simp_all add: with_status_def same_line_def)

lemma updateUploadStatus_result:
  assumes "updateUploadStatus i st s = (Inr (), s1)"
  shows "uv_rows s1 = map (with_status i st) (uv_rows s)" "uv_events s1 = uv_events s"
    "\<exists>b\<in>set (uv_rows s). uv_catalogId b = i \<and> find_version i s1 = Some (with_status i st b)"
proof -
  show rows: "uv_rows s1 = map (with_status i st) (uv_rows s)" "uv_events s1 = uv_events s"
    using assms by (auto simp: updateUploadStatus_def add_task_def set_status_def update_where_def
        with_status_def [abs_def] split: if_splits)
  have "\<exists>b\<in>set (uv_rows s). uv_catalogId b = i"
    using assms affected_pos [of "\<lambda>r. uv_catalogId r = i" "uv_rows s"]
    by (auto simp: updateUploadStatus_def split: if_splits)
  then have "find_version i s1 \<noteq> None"
    by (auto simp: find_version_def find_None_iff rows(1))
  then obtain b1 where b1: "find_version i s1 = Some b1"
    by blast
  then obtain b where "b \<in> set (uv_rows s)" "b1 = with_status i st b"
    using find_version_Some [OF b1] by (auto simp: rows(1))
  then show "\<exists>b\<in>set (uv_rows s). uv_catalogId b = i \<and> find_version i s1 = Some (with_status i st b)"
    using b1 find_version_Some [OF b1] by (intro bexI [of _ b]) simp_all
qed


definition sample_version :: "nat \<Rightarrow> string \<Rightarrow> UploadStatus \<Rightarrow> bool \<Rightarrow> UploadVersionEntity" where
  "sample_version i v st l = \<lparr>uv_catalogId = i, uv_assetType = ARTIFACT, uv_createdDate = i, uv_platform = ''p'',
     uv_component = ''c'', uv_formation = ''f'', uv_OS = None, uv_virtualSize = 0, uv_version = v, uv_baseVersion = None,
     uv_prevVersion = None, uv_metadata = [], uv_url = None, uv_uploadStatus = st, uv_latest = l, uv_project = None\<rparr>"

definition sample_state :: uv_state where
  "sample_state = \<lparr>uv_rows = [sample_version 1 ''1.0.0'' READY True, sample_version 2 ''1.1.0'' IN_PROGRESS False],
     uv_next = 3, uv_now = 3, uv_bucket = [], uv_events = [], uv_tasks = []\<rparr>"

lemma sample_runs: "ids_distinct sample_state"
  "updateUploadStatus 2 READY sample_state = (Inr (), snd (updateUploadStatus 2 READY sample_state))"
  by (simp_all add: ids_distinct_def sample_state_def sample_version_def updateUploadStatus_def affected_def)


section \<open>One row per version\<close>

text \<open>
  What holds whatever the service does: ids are distinct and drawn from the counter, a platform,
  component, formation and version has one row, and a pending move works on the version of its row.
\<close>

definition owns :: "UploadVersionEntity \<Rightarrow> uv_state \<Rightarrow> bool" where
  "owns e s \<longleftrightarrow> uv_catalogId e < uv_next s \<and>
     (\<forall>r\<in>set (uv_rows s). uv_catalogId r = uv_catalogId e \<longrightarrow> same_version e r)"

definition rows_ok :: "uv_state \<Rightarrow> bool" where
  "rows_ok s \<longleftrightarrow>
     ids_distinct s \<and> (\<forall>r\<in>set (uv_rows s). uv_catalogId r < uv_next s) \<and>
     (\<forall>r\<in>set (uv_rows s). \<forall>q\<in>set (uv_rows s). same_version r q \<longrightarrow> q = r)"

definition versions_ok :: "uv_state \<Rightarrow> bool" where
  "versions_ok s \<longleftrightarrow> rows_ok s \<and> (\<forall>a e. MoveImage a e \<in> set (uv_tasks s) \<longrightarrow> owns e s)"

lemma same_version_trans: "same_version a b \<Longrightarrow> same_version b c \<Longrightarrow> same_version a c"
  by (simp add: same_version_def same_line_def)

lemma same_version_sym: "same_version a b \<Longrightarrow> same_version b a"
  by (simp add: same_version_def same_line_def)

lemma same_version_refl [simp]: "same_version a a"
  by (simp add: same_version_def)

text \<open>Changing columns other than the id and the version.\<close>

lemma columns_ok:
  assumes "uv_rows s' = map f (uv_rows s)" "uv_next s' = uv_next s"
    and f: "\<And>r. r \<in> set (uv_rows s) \<Longrightarrow> uv_catalogId (f r) = uv_catalogId r \<and> same_version r (f r)"
  shows "rows_ok s \<Longrightarrow> rows_ok s'" "owns e s \<Longrightarrow> owns e s'"
proof -
  have ids: "map uv_catalogId (uv_rows s') = map uv_catalogId (uv_rows s)"
    using assms(1) f by simp
  have unmap: "same_version r q" if "r \<in> set (uv_rows s)" "q \<in> set (uv_rows s)" "same_version (f r) (f q)" for r q
    using f [OF that(1)] f [OF that(2)] that(3) same_version_trans same_version_sym by blast
  show "rows_ok s'" if ok: "rows_ok s"
  proof -
    have "f q = f r" if "r \<in> set (uv_rows s)" "q \<in> set (uv_rows s)" "same_version (f r) (f q)" for r q
      using unmap [OF that] ok that(1,2) by (auto simp: rows_ok_def)
    then show ?thesis
      using ok f assms(2) unfolding rows_ok_def ids_distinct_def ids by (auto simp: assms(1))
  qed
  show "owns e s'" if "owns e s"
    using that f same_version_trans unfolding owns_def assms(1,2) by fastforce
qed

lemma save_version_ok:
  assumes "owns e s" "uv_catalogId e' = uv_catalogId e" "same_version e e'"
  shows "rows_ok s \<Longrightarrow> rows_ok (save_version e' s)" "owns x s \<Longrightarrow> owns x (save_version e' s)"
proof -
  let ?f = "\<lambda>r. if uv_catalogId r = uv_catalogId e' then e' else r"
  have f: "uv_catalogId (?f r) = uv_catalogId r \<and> same_version r (?f r)" if "r \<in> set (uv_rows s)" for r
  proof (cases "uv_catalogId r = uv_catalogId e")
    case True
    then have "same_version r e"
      using assms(1) that by (auto simp: owns_def intro: same_version_sym)
    then show ?thesis
      using True assms(2) same_version_trans [OF _ assms(3)] by simp
  qed (use assms(2) in simp)
  have s': "uv_rows (save_version e' s) = map ?f (uv_rows s)" "uv_next (save_version e' s) = uv_next s"
    by (simp_all add: save_version_def update_where_def)
  show "rows_ok s \<Longrightarrow> rows_ok (save_version e' s)" "owns x s \<Longrightarrow> owns x (save_version e' s)"
    using columns_ok [OF s' f] by blast+
qed

lemma frame_ok [simp]:
  "rows_ok (s\<lparr>uv_bucket := b\<rparr>) = rows_ok s" "owns e (s\<lparr>uv_bucket := b\<rparr>) = owns e s"
  "rows_ok (s\<lparr>uv_tasks := t\<rparr>) = rows_ok s" "owns e (s\<lparr>uv_tasks := t\<rparr>) = owns e s"
  "rows_ok (s\<lparr>uv_events := v\<rparr>) = rows_ok s" "owns e (s\<lparr>uv_events := v\<rparr>) = owns e s"
  by (simp_all add: rows_ok_def owns_def ids_distinct_def)

lemma same_version_columns [simp]:
  "same_version e (e\<lparr>uv_uploadStatus := st\<rparr>)" "same_version e (e\<lparr>uv_uploadStatus := st, uv_url := u\<rparr>)"
  by (simp_all add: same_version_def same_line_def)

lemma moveImageToS3_ok:
  assumes "owns e s"
  shows "rows_ok s \<Longrightarrow> rows_ok (moveImageToS3 C a e s)" "owns x s \<Longrightarrow> owns x (moveImageToS3 C a e s)"
proof -
  let ?P = "\<lambda>s'. owns e s' \<and> (rows_ok s \<longrightarrow> rows_ok s') \<and> (owns x s \<longrightarrow> owns x s')"
  have save: "?P (save_version e' s')" if "?P s'" "uv_catalogId e' = uv_catalogId e" "same_version e e'" for e' s'
    using that save_version_ok [of e s' e'] by blast
  have bucket: "?P (s'\<lparr>uv_bucket := b\<rparr>)" if "?P s'" for s' b
    using that by simp
  have start: "?P s"
    using assms by simp
  have "?P (moveImageToS3 C a e s)"
  proof (cases "download_image C (ua_url a)")
    case None
    then show ?thesis
      unfolding moveImageToS3_def None option.case by (intro save start) simp_all
  next
    case (Some path)
    have "?P (save_version (e\<lparr>uv_uploadStatus := UPLOADING_TO_S3\<rparr>) s)"
      by (intro save start) simp_all
    then show ?thesis
      unfolding moveImageToS3_def Some option.case Let_def
      by (cases "put_file C path (image_key a)"; simp only: if_True if_False; intro save bucket start) simp_all
  qed
  then show "rows_ok s \<Longrightarrow> rows_ok (moveImageToS3 C a e s)" "owns x s \<Longrightarrow> owns x (moveImageToS3 C a e s)"
    by simp_all
qed

lemma insert_version_cases:
  assumes "insert_version C e s = (r, s')"
  obtains "s' = s" "\<And>e1. r \<noteq> Inr e1"
  | e1 where "e1 = e\<lparr>uv_catalogId := uv_next s, uv_createdDate := uv_now s\<rparr>" "\<forall>q\<in>set (uv_rows s). \<not> same_version e q"
      "r = Inr e1" "s' = s\<lparr>uv_rows := uv_rows s @ [e1], uv_next := Suc (uv_next s)\<rparr>"
proof (cases "insert_fault C s \<or> list_ex (same_version e) (uv_rows s)")
  case True
  then have "s' = s \<and> (\<exists>x. r = Inl x)"
    using assms by (auto simp: insert_version_def split: if_splits)
  then show ?thesis
    by (intro that(1)) auto
next
  case False
  then show ?thesis
    using assms by (intro that(2) [OF refl]) (auto simp: insert_version_def Let_def list_ex_iff)
qed

lemma insert_version_ok:
  assumes "insert_version C e s = (r, s')"
  shows "rows_ok s \<Longrightarrow> rows_ok s'" "uv_tasks s' = uv_tasks s" "rows_ok s \<Longrightarrow> r = Inr e1 \<Longrightarrow> owns e1 s'"
    "owns x s \<Longrightarrow> owns x s'"
proof -
  have "uv_tasks s' = uv_tasks s \<and> (owns x s \<longrightarrow> owns x s') \<and> (rows_ok s \<longrightarrow> rows_ok s' \<and> (r = Inr e1 \<longrightarrow> owns e1 s'))"
    using assms
  proof (cases rule: insert_version_cases)
    case (2 e2)
    have fresh: "\<not> same_version e2 q" "\<not> same_version q e2" if "q \<in> set (uv_rows s)" for q
      using 2(1,2) that by (auto simp: same_version_def same_line_def)
    have id: "uv_catalogId e2 = uv_next s"
      using 2(1) by simp
    have "rows_ok s'" if "rows_ok s"
      using that 2(4) id fresh unfolding rows_ok_def ids_distinct_def by (auto simp: less_Suc_eq)
    moreover have "owns e2 s'" if "rows_ok s"
      using that 2(4) id by (auto simp: owns_def rows_ok_def)
    moreover have "owns x s'" if "owns x s"
      using that 2(4) id by (auto simp: owns_def)
    moreover have "uv_tasks s' = uv_tasks s"
      using 2(4) by simp
    ultimately show ?thesis
      unfolding 2(3) by auto
  qed simp
  then show "rows_ok s \<Longrightarrow> rows_ok s'" "uv_tasks s' = uv_tasks s" "rows_ok s \<Longrightarrow> r = Inr e1 \<Longrightarrow> owns e1 s'"
    "owns x s \<Longrightarrow> owns x s'"
    by simp_all
qed

inductive uv_step :: "uv_env \<Rightarrow> uv_state \<Rightarrow> uv_state \<Rightarrow> bool" for C where
  artifact: "uploadArtifact C a s = (r, s') \<Longrightarrow> uv_step C s s'"
| manifest: "uploadManifest C m s = (q, s') \<Longrightarrow> uv_step C s s'"
| status: "updateUploadStatus i st s = (u, s') \<Longrightarrow> uv_step C s s'"
| task: "t \<in> set (uv_tasks s) \<Longrightarrow> uv_step C s (run_uv_task C t (s\<lparr>uv_tasks := remove1 t (uv_tasks s)\<rparr>))"

lemma versions_okD: "versions_ok s \<Longrightarrow> rows_ok s" "versions_ok s \<Longrightarrow> MoveImage a e \<in> set (uv_tasks s) \<Longrightarrow> owns e s"
  by (auto simp: versions_ok_def)

lemma versions_okI:
  "rows_ok s' \<Longrightarrow> (\<And>a e. MoveImage a e \<in> set (uv_tasks s') \<Longrightarrow> owns e s') \<Longrightarrow> versions_ok s'"
  by (simp add: versions_ok_def)

lemma insert_versions_ok:
  assumes "versions_ok s" "insert_version C e s = (r, s')"
  shows "versions_ok s'"
proof (rule versions_okI)
  show "rows_ok s'"
    by (rule insert_version_ok(1) [OF assms(2) versions_okD(1) [OF assms(1)]])
  show "owns x s'" if "MoveImage a x \<in> set (uv_tasks s')" for a x
  proof -
    have "MoveImage a x \<in> set (uv_tasks s)"
      using that insert_version_ok(2) [OF assms(2)] by simp
    from versions_okD(2) [OF assms(1) this] show ?thesis
      by (rule insert_version_ok(4) [OF assms(2)])
  qed
qed

lemma updateUpload_ok: "versions_ok s \<Longrightarrow> updateUpload C e s = (r, s') \<Longrightarrow> versions_ok s'"
  using insert_versions_ok [of s C e] by (auto simp: updateUpload_def Let_def split: if_splits prod.splits sum.splits save_fault.splits)

lemma add_task_ok:
  "versions_ok s \<Longrightarrow> (\<And>a e. t = MoveImage a e \<Longrightarrow> owns e s) \<Longrightarrow> versions_ok (add_task t s)"
  by (auto simp: versions_ok_def add_task_def)

lemma uploadManifest_ok: "versions_ok s \<Longrightarrow> uploadManifest C m s = (r, s') \<Longrightarrow> versions_ok s'"
  using updateUpload_ok
  by (fastforce simp: uploadManifest_def uploadDockerImage_def Let_def intro: add_task_ok
      split: if_splits prod.splits sum.splits option.splits)

lemma uploadArtifact_ok:
  assumes "versions_ok s" "uploadArtifact C a s = (r, s')"
  shows "versions_ok s'"
proof (cases "insert_version C (fromArtifact a) s")
  case (Pair x s1)
  note ok = insert_versions_ok [OF assms(1) Pair]
  show ?thesis
  proof (cases x)
    case (Inl f)
    then show ?thesis
      using assms(2) Pair ok by (simp add: uploadArtifact_def)
  next
    case (Inr e)
    let ?e = "e\<lparr>uv_uploadStatus := DOWNLOADING_FROM_URL\<rparr>"
    have own: "owns e s1"
      by (rule insert_version_ok(3) [OF Pair versions_okD(1) [OF assms(1)] Inr])
    note save = save_version_ok [OF own, of ?e, simplified]
    have "owns ?e s1"
      using own by (simp add: owns_def same_version_def same_line_def)
    then have "versions_ok (add_task (MoveImage a ?e) (save_version ?e s1))"
      using ok save by (intro add_task_ok versions_okI) (auto simp: versions_ok_def save_version_def)
    then show ?thesis
      using assms(2) Pair Inr by (simp add: uploadArtifact_def Let_def)
  qed
qed

lemma columns_versions_ok:
  assumes "versions_ok s" "uv_rows s' = map f (uv_rows s)" "uv_next s' = uv_next s" "uv_tasks s' = uv_tasks s"
    and "\<And>r. r \<in> set (uv_rows s) \<Longrightarrow> uv_catalogId (f r) = uv_catalogId r \<and> same_version r (f r)"
  shows "versions_ok s'"
  using columns_ok [OF assms(2,3,5)] assms(1,4) by (auto simp: versions_ok_def)

lemma updateUploadStatus_ok:
  assumes "versions_ok s" "updateUploadStatus i st s = (r, s')"
  shows "versions_ok s'"
proof -
  have "versions_ok (set_status i st s)"
    by (rule columns_versions_ok [OF assms(1), where f = "with_status i st"])
      (auto simp: set_status_def update_where_def with_status_def [abs_def] same_version_def same_line_def)
  then show ?thesis
    using assms by (auto simp: updateUploadStatus_def intro!: add_task_ok split: if_splits)
qed

lemma updateLatestFlag_ok: "versions_ok s \<Longrightarrow> versions_ok (updateLatestFlag i s)"
proof (cases "find_version i s")
  case (Some b)
  assume ok: "versions_ok s"
  have "uv_next (mark_latest e s1) = uv_next s1" "uv_tasks (mark_latest e s1) = uv_tasks s1" for e s1
    by (simp_all add: mark_latest_def save_version_def split: option.split)
  then have "uv_next (updateLatestFlag i s) = uv_next s" "uv_tasks (updateLatestFlag i s) = uv_tasks s"
    by (simp_all add: updateLatestFlag_def Let_def sendUploadEvent_def clear_latest_def split: option.split)
  then show ?thesis
    using ok by (intro columns_versions_ok [OF ok updateLatestFlag_rows [OF _ Some]])
      (auto simp: versions_ok_def rows_ok_def with_latest_def same_version_def same_line_def)
qed (simp add: updateLatestFlag_def)

lemma uv_step_ok: "uv_step C s s' \<Longrightarrow> versions_ok s \<Longrightarrow> versions_ok s'"
proof (induction rule: uv_step.induct)
  case (task t s)
  let ?s = "s\<lparr>uv_tasks := remove1 t (uv_tasks s)\<rparr>"
  have ok: "versions_ok ?s"
    using task.prems set_remove1_subset [of t "uv_tasks s"] by (auto simp: versions_ok_def)
  show ?case
  proof (cases t)
    case (MoveImage a e)
    then have "owns e ?s"
      using versions_okD(2) [OF task.prems] task.hyps by simp
    note move = moveImageToS3_ok [OF this]
    have "uv_tasks (moveImageToS3 C a e ?s) = uv_tasks ?s"
      by (simp add: moveImageToS3_def Let_def save_version_def split: option.split)
    then show ?thesis
      using MoveImage ok move by (auto simp: versions_ok_def run_uv_task_def)
  next
    case (UpdateStatus i st)
    then show ?thesis
      using updateUploadStatus_ok [OF ok, of i st] by (simp add: run_uv_task_def) (metis prod.collapse)
  next
    case (UpdateLatestFlag i)
    then show ?thesis
      using updateLatestFlag_ok [OF ok] by (simp add: run_uv_task_def)
  qed
qed (blast intro: uploadArtifact_ok uploadManifest_ok updateUploadStatus_ok)+

lemma versions_unique: "(uv_step C)\<^sup>*\<^sup>* s t \<Longrightarrow> versions_ok s \<Longrightarrow> versions_ok t"
  by (induction rule: rtranclp_induct) (auto intro: uv_step_ok)

section \<open>Where the code departs from what it means\<close>

text \<open>Every failure of the insert is reported as a version that exists already.\<close>

lemma any_fault_is_conflict: "insert_fault C s \<Longrightarrow> uploadArtifact C a s = (Inl ConflictException, s)"
  by (simp add: uploadArtifact_def insert_version_def)

text \<open>
  A manifest for a version in error keeps the row as it is, while the URL handed out is that of the
  new file: with another file name the two differ.
\<close>

lemma retry_keeps_url:
  assumes "List.find (same_version (fromManifest m (manifest_url m) ARTIFACT)) (uv_rows s) = Some x"
    "uv_uploadStatus x = ERROR" "um_assetType m = None"
  shows "uploadManifest C m s = (Inr (uv_catalogId x, Some (presigned_url C (manifest_url m))), s)"
  using assms by (simp add: uploadManifest_def updateUpload_def)

text \<open>An image that was moved to the store is ready, but no version becomes the latest by it.\<close>

lemma moved_image_not_latest:
  assumes "\<not> uv_latest e" "\<forall>r\<in>set (uv_rows s). \<not> uv_latest r" "r \<in> set (uv_rows (moveImageToS3 C a e s))"
  shows "\<not> uv_latest r"
  using assms by (auto simp: moveImageToS3_def Let_def save_version_def set_update_where split: option.splits if_splits)

text \<open>
  Two updates of the flag that interleave: the first has found the newest ready version when a newer
  one gets ready and is marked; then the first marks its own, and both are the latest.
\<close>

lemma two_latest:
  defines "s1 \<equiv> clear_latest (sample_version 1 ''1.0.0'' READY True) sample_state"
  defines "found \<equiv> newest_ready (sample_version 1 ''1.0.0'' READY True) s1"
  defines "s2 \<equiv> updateLatestFlag 2 (snd (updateUploadStatus 2 READY s1))"
  shows "map uv_latest (uv_rows (mark_latest found s2)) = [True, True]"
  unfolding s2_def found_def s1_def sample_state_def sample_version_def by code_simp

end
