(* ===== verification/Spec2Isabelle.thy ===== *)
theory Spec2Isabelle
  imports Permissions Project_Access File_Upload Storage_Sync Regulation Release_Order Release_State
    Release_Lifecycle Release_Cascade Release_Artifacts Releases
    Release_Transfer Release_Tasks Deployment Rule_Evaluation Rules Vault Config_Values Config_Model
    Config_Groups Config_Device Config_Revisions Config_Lifecycle Safe_Cron Oidc_Roles Upload_Versions
begin

text \<open>
  A model of the upload service of getappsh/upload (\<open>apps/upload/src\<close> and the parts of
  \<open>libs/common/src\<close> it rests on) and the properties that make it correct.

  \<^bold>\<open>The program.\<close> The service keeps the releases of software projects. A release collects artifacts
  (files in a bucket or images in a registry), has a status for each regulation of its project,
  depends on other releases, and moves between draft, review, release and error as these require.
  Policies say which devices may be offered a release; a configuration service versions the
  configuration of projects and serves each device its own, with the secrets kept in Vault; older
  clients upload versions by artifact or manifest. The controllers hand every message to one
  operation of a service, behind guards that check roles and project membership. The services share
  one database and start calls they do not await: a status that is set starts a refresh of its
  release, a refresh that releases a release starts those of its dependents and the update of the
  flag \<open>latest\<close>, a file that arrives reaches the release by an event.

  \<^bold>\<open>Conventions.\<close> A table is the list of its rows, and a state is a record of tables, buckets, sent
  messages and pending calls (\<open>Entities\<close> for the releases, \<open>Config_Model\<close> for the configuration,
  records of their own for the rest). An operation takes the state and returns it with its result,
  \<open>exn + 'a\<close>: every \<open>throw\<close> and early return is a branch, and what was written before a failure stays.
  Calls that are not awaited are values in the state that are run later, in any order where a theorem
  says so. Other services, third-party packages and the servers behind them are parameters, with
  what is relied on as hypotheses; Vault and the bucket are maps with a fault for each request.
  Recursion is structural or has a measure: no definition has fuel, and no bound limits an input.

  \<^bold>\<open>Foundations.\<close>
  \<^item> \<open>Prelude\<close>: exceptions, queries on rows and the list lemmas all theories share. \<open>Effects\<close>: operations
    that may throw, what they keep, and triples. \<open>Js_Values\<close>: the JavaScript numbers, strings and JSON
    trees. \<open>Entities\<close>: the columns and enums of \<open>database/entities\<close>, and the state of the service.

  \<^bold>\<open>Access.\<close>
  \<^item> \<open>Permissions\<close> (\<open>permissions/\<close>): the API roles, the service and the guard; \<open>permissions_guard_spec\<close>
    says when it lets a request pass.
  \<^item> \<open>Project_Access\<close> (\<open>project-access.guard.ts\<close>): a request passes only for a project of the caller.
  \<^item> \<open>Oidc_Roles\<close> (\<open>oidc-roles/\<close>): \<open>setupAllRoles\<close> over a record of the requests to Keycloak.
    \<open>keycloak_serves\<close> states what the server is relied on for; against it the synchronisation reaches
    the defined roles and groups, touches nothing else, and repeating it changes nothing. A server in
    memory shows that the hypothesis can hold.

  \<^bold>\<open>Files.\<close>
  \<^item> \<open>Object_Store\<close> (\<open>AWS/minio-client.service.ts\<close>, \<open>file-processing.service.ts\<close>): the bucket; its
    contract is the locale \<open>blob_store\<close>, interpreted on the client's operations.
  \<^item> \<open>File_Upload\<close> and \<open>Storage_Sync\<close> (\<open>file-upload.service.ts\<close>): URLs, status updates, imports with
    their digest, and the passes that compare the tables with the bucket; the pages and batches of
    a pass have measures. The lemmas give the status of an upload from its row and the bucket alone, and
    show that keys stay below their prefix and a release is restored only when its files are there.

  \<^bold>\<open>Releases\<close> (\<open>releases.service.ts\<close>, \<open>release.subscriber.ts\<close>).
  \<^item> \<open>Regulation\<close> (\<open>regulation-status.service.ts\<close>, \<open>regulation-enforcement.service.ts\<close>,
    \<open>junit-parser.service.ts\<close>): one status for each regulation and release.
  \<^item> \<open>Release_Order\<close>: the place of a new release among the versions of its project, and the flag
    \<open>latest\<close>. \<open>Release_State\<close>: \<open>refreshReleaseState\<close>, the read-only guard, what clients are shown.
  \<^item> \<open>Release_Lifecycle\<close> is the abstract state machine \<open>refreshReleaseState\<close> implements, and
    \<open>Release_Cascade\<close> shows that with acyclic dependencies the calls started by one change come to an
    end, by a measure over the dependents, in one and the same right state whatever their order.
  \<^item> \<open>Releases\<close>, \<open>Release_Artifacts\<close>, \<open>Release_Transfer\<close>, \<open>Deployment\<close>: creating, changing and deleting
    releases and artifacts, export and import, the deployment report. \<open>Release_Tasks\<close> composes the
    pending calls of these theories: a release whose conditions come true gets released.

  \<^bold>\<open>Rules\<close> (\<open>libs/common/src/rules\<close>, \<open>policy.service.ts\<close>).
  \<^item> \<open>Rule_Evaluation\<close>: contexts are flattened and conditions on lists spread; both agree with the
    nested look-up they stand for. \<open>Rules\<close>: validation, associations, who sees and deletes a policy.

  \<^bold>\<open>Configuration\<close> (\<open>vault.service.ts\<close>, \<open>config.service.ts\<close>, \<open>config-cache.service.ts\<close>).
  \<^item> \<open>Vault\<close>: the client implements a map from names and fields to values; its contract is the locale
    \<open>secret_store\<close>, interpreted on the client's operations.
  \<^item> \<open>Config_Values\<close>, \<open>Config_Model\<close>, \<open>Config_Groups\<close>: the values, the tables, the groups of a draft, whose
    sensitive values leave the row, are hidden when shown and survive a masked document.
  \<^item> \<open>Config_Device\<close>: what a device is served, and that a version keeps its content. \<open>Config_Revisions\<close>:
    drafts, applying, the release of a configuration, config maps. \<open>Config_Lifecycle\<close>: the step
    relation of all these and its invariant, one draft and one active revision at most.

  \<^bold>\<open>Other parts.\<close>
  \<^item> \<open>Safe_Cron\<close> (\<open>safe-cron/\<close>): the lock of scheduled tasks; a step relation over replicas and its
    mutual exclusion, with the interleavings that break it evaluated.
  \<^item> \<open>Upload_Versions\<close> (\<open>upload.service.ts\<close>): versions by artifact or manifest; a step relation keeps
    one row for each version, and the flag \<open>latest\<close> follows the status.

  \<^bold>\<open>What the code gets wrong.\<close> Where a property needs a hypothesis the code does not ensure, a lemma at
  the end of its theory evaluates the model on an input that shows the failure.

  \<^bold>\<open>Not modelled.\<close> The controllers and decorators, which only route messages; the Kafka, socket, HTTP,
  mail, logging and monitoring set-up; the S3, cosign and Docker clients, which are calls of other
  programs; the tables of services whose code lies elsewhere (devices, maps, deliveries, offerings)
  except for the columns a query reads; the migrations; the time stamps the ORM maintains; the text
  of messages. Numbers are exact rationals, and the database runs one statement after another: where
  interleaving within an operation matters, its parts are definitions of their own.
\<close>

end
